(* ===== verification/C_Prelude.thy ===== *)
theory C_Prelude
  imports Main "HOL-Library.Word"
begin

text \<open>
  What the component theories share: the outcome of a C call (it returns, it reaches
  \<open>abort()\<close>, or its behaviour is undefined), the width of C integers on wasm32 (\<open>int\<close> and
  \<open>long\<close> have 32 bits), the \<open>errno\<close> values the sources use, the decimal printer behind
  \<open>%d\<close> and the few list and integer facts that several components need.
\<close>

section \<open>Collections\<close>

text \<open>Facts that every operation keeps its component's invariant.\<close>

named_theorems wf_intros

section \<open>Types of the model\<close>

type_synonym byte = "8 word"
type_synonym path = string

text \<open>
  The \<open>errno\<close> codes the sources set or test, kept symbolic: their numbers belong to the
  WASI headers. \<open>E_OK\<close> is the initial value of \<open>errno\<close>.
\<close>

datatype errno_t = E_OK | EINVAL | ENOENT | EEXIST | EACCES | EBADF | EIO | EINTR | ENOSPC

text \<open>
  A call returns a value and a state, stops the instance with \<open>abort()\<close> (the state it had
  then is kept), or runs into undefined behaviour of C, after which nothing is known.
\<close>

datatype ('a, 's) cres = Return 'a 's | Aborted 's | Undefined

fun cbind :: "('a, 's) cres \<Rightarrow> ('a \<Rightarrow> 's \<Rightarrow> ('b, 's) cres) \<Rightarrow> ('b, 's) cres" where
  "cbind (Return a s) f = f a s"
| "cbind (Aborted s) f = Aborted s"
| "cbind Undefined f = Undefined"

section \<open>C integers on wasm32\<close>

text \<open>
  A C \<open>int\<close> is the HOL integer it denotes; \<open>i32\<close> is the two's complement wrap-around of
  the \<open>i32.add\<close> and \<open>i32.mul\<close> instructions and of the conversion from \<open>size_t\<close> or a
  64-bit value.
\<close>

definition i32 :: "int \<Rightarrow> int" where
  "i32 k = signed_take_bit 31 k"

lemma i32_id: "- 2147483648 \<le> k \<Longrightarrow> k < 2147483648 \<Longrightarrow> i32 k = k"
  unfolding i32_def by (rule signed_take_bit_int_eq_self) simp_all

lemma i32_small [simp]: "int n < 2147483648 \<Longrightarrow> i32 (int n) = int n"
  by (rule i32_id) simp_all

lemma i32_bounds: "- 2147483648 \<le> i32 k" "i32 k < 2147483648"
  unfolding i32_def
  using signed_take_bit_int_greater_eq_minus_exp [of 31 k] signed_take_bit_int_less_exp [of 31 k]
  by simp_all

lemma i32_0 [simp]: "i32 0 = 0" and i32_1 [simp]: "i32 1 = 1" and i32_m1 [simp]: "i32 (- 1) = - 1"
  by (simp_all add: i32_id)

section \<open>The decimal printer of \<open>%d\<close>\<close>

fun digits_of :: "nat \<Rightarrow> string" where
  "digits_of n = (if n < 10 then [char_of (48 + n)] else digits_of (n div 10) @ [char_of (48 + n mod 10)])"

declare digits_of.simps [simp del]

definition show_int :: "int \<Rightarrow> string" where
  "show_int k = (if k < 0 then CHR ''-'' # digits_of (nat (- k)) else digits_of (nat k))"

section \<open>\<open>strtol\<close> in base 10\<close>

text \<open>
  White space, an optional sign, decimal digits; the value is clamped to the range of \<open>long\<close>.
\<close>

definition isspace :: "char \<Rightarrow> bool" where
  "isspace c \<longleftrightarrow> of_char c \<in> {9 :: nat, 10, 11, 12, 13, 32}"

definition isdigit :: "char \<Rightarrow> bool" where
  "isdigit c \<longleftrightarrow> 48 \<le> (of_char c :: nat) \<and> (of_char c :: nat) < 58"

fun digits_val :: "nat \<Rightarrow> string \<Rightarrow> nat" where
  "digits_val acc [] = acc"
| "digits_val acc (c # cs) = (if isdigit c then digits_val (10 * acc + (of_char c - 48)) cs else acc)"

fun signed_val :: "string \<Rightarrow> int" where
  "signed_val [] = 0"
| "signed_val (c # cs) =
     (if c = CHR ''-'' then - int (digits_val 0 cs)
      else if c = CHR ''+'' then int (digits_val 0 cs)
      else int (digits_val 0 (c # cs)))"

definition strtol :: "string \<Rightarrow> int" where
  "strtol s = max (- 2147483648) (min 2147483647 (signed_val (dropWhile isspace s)))"

lemma of_char_digit: "d < 10 \<Longrightarrow> of_char (char_of (48 + d :: nat)) = 48 + d"
  by (simp add: of_char_of)

lemma isdigit_digit: "d < 10 \<Longrightarrow> isdigit (char_of (48 + d :: nat))"
  by (simp add: isdigit_def of_char_digit)

lemma digits_val_append:
  "\<forall>c \<in> set xs. isdigit c \<Longrightarrow> digits_val acc (xs @ ys) = digits_val (digits_val acc xs) ys"
  by (induction xs arbitrary: acc) auto

lemma digits_of_isdigit: "\<forall>c \<in> set (digits_of n). isdigit c"
  by (induction n rule: digits_of.induct)
    (subst digits_of.simps, auto simp: isdigit_digit)

lemma digits_val_digits_of: "digits_val 0 (digits_of n) = n"
proof (induction n rule: digits_of.induct)
  case (1 n)
  show ?case
  proof (cases "n < 10")
    case True
    then show ?thesis by (simp add: digits_of.simps isdigit_digit of_char_digit)
  next
    case False
    then have "digits_val 0 (digits_of (n div 10)) = n div 10" by (rule 1)
    moreover have "digits_of n = digits_of (n div 10) @ [char_of (48 + n mod 10)]"
      using False by (subst digits_of.simps) simp
    ultimately show ?thesis
      by (simp add: digits_val_append digits_of_isdigit isdigit_digit of_char_digit)
  qed
qed

lemma digits_of_nonempty: "digits_of n \<noteq> []"
  by (subst digits_of.simps) simp

lemma digits_of_inject [simp]: "digits_of m = digits_of n \<longleftrightarrow> m = n"
  using digits_val_digits_of by metis

lemma signed_val_digits_of: "signed_val (digits_of n) = int n"
proof -
  obtain c cs where c: "digits_of n = c # cs" using digits_of_nonempty by (cases "digits_of n") auto
  then have "isdigit c" using digits_of_isdigit [of n] by simp
  then have "c \<noteq> CHR ''-''" "c \<noteq> CHR ''+''" by (auto simp: isdigit_def)
  then show ?thesis using digits_val_digits_of [of n] by (simp add: c)
qed

lemma isdigit_not_space: "isdigit c \<Longrightarrow> \<not> isspace c"
  by (auto simp: isdigit_def isspace_def)

text \<open>Printing an \<open>int\<close> with \<open>%d\<close> and reading it with \<open>strtol\<close> gives it back.\<close>

lemma strtol_show_int:
  assumes "- 2147483648 \<le> k" "k < 2147483648"
  shows "strtol (show_int k) = k"
proof -
  have "dropWhile isspace (show_int k) = show_int k"
  proof (cases "k < 0")
    case True
    then show ?thesis by (simp add: show_int_def isspace_def)
  next
    case False
    then show ?thesis
      using digits_of_isdigit [of "nat k"] isdigit_not_space
      by (auto simp: show_int_def dropWhile_eq_self_iff digits_of_nonempty)
  qed
  moreover have "signed_val (show_int k) = k"
    by (simp add: show_int_def digits_val_digits_of signed_val_digits_of)
  ultimately show ?thesis using assms by (simp add: strtol_def)
qed

section \<open>C strings\<close>

text \<open>
  A \<open>char\<close> object is the list of its characters, the terminator included. \<open>c_string\<close> reads the
  string at its start; there is none when no terminator is left in the object.
\<close>

definition NUL :: char where "NUL = CHR 0x00"

definition c_string :: "string \<Rightarrow> string option" where
  "c_string obj = (if NUL \<in> set obj then Some (takeWhile (\<lambda>c. c \<noteq> NUL) obj) else None)"

lemma c_string_append [simp]: "NUL \<notin> set s \<Longrightarrow> c_string (s @ NUL # rest) = Some s"
  by (simp add: c_string_def takeWhile_tail)
     (induction s; auto)

text \<open>\<open>snprintf (buf, n, \<dots>)\<close> keeps at most \<open>n - 1\<close> characters.\<close>

definition snprintf :: "nat \<Rightarrow> string \<Rightarrow> string" where
  "snprintf n s = take (n - 1) s"

section \<open>Writing bytes into a buffer\<close>

text \<open>
  \<open>overwrite pos xs ys\<close> is what a buffer or file holding \<open>ys\<close> contains after \<open>xs\<close> is
  stored at offset \<open>pos\<close>; a gap past the end reads as zero bytes.
\<close>

definition overwrite :: "nat \<Rightarrow> byte list \<Rightarrow> byte list \<Rightarrow> byte list" where
  "overwrite pos xs ys =
     take pos ys @ replicate (pos - length ys) 0 @ xs @ drop (pos + length xs) ys"

lemma overwrite_end [simp]: "overwrite (length ys) xs ys = ys @ xs"
  by (simp add: overwrite_def)

lemma overwrite_Nil [simp]: "pos \<le> length ys \<Longrightarrow> overwrite pos [] ys = ys"
  by (simp add: overwrite_def)

lemma length_overwrite: "length (overwrite pos xs ys) = max (pos + length xs) (length ys)"
  by (simp add: overwrite_def)

lemma take_overwrite_0: "take (length xs) (overwrite 0 xs ys) = xs"
  by (simp add: overwrite_def)

section \<open>Lists\<close>

lemma find_fresh_nat: "\<exists>n. find (\<lambda>n. n \<notin> set ks) [0..<Suc (length ks)] = Some n"
proof (rule ccontr)
  assume "\<nexists>n. find (\<lambda>n. n \<notin> set ks) [0..<Suc (length ks)] = Some n"
  then have "find (\<lambda>n. n \<notin> set ks) [0..<Suc (length ks)] = None"
    by (cases "find (\<lambda>n. n \<notin> set ks) [0..<Suc (length ks)]") auto
  then have "set [0..<Suc (length ks)] \<subseteq> set ks"
    unfolding find_None_iff by blast
  then have "card (set [0..<Suc (length ks)]) \<le> card (set ks)"
    by (rule card_mono [rotated]) simp
  moreover have "card (set ks) \<le> length ks" by (rule card_length)
  ultimately show False by simp
qed

end
