(* ===== verification/File_System.thy ===== *)
theory File_System
  imports C_Prelude "HOL-Library.AList"
begin

text \<open>
  The part of the C library and of WASI that the sources call on files: \<open>fopen\<close>, \<open>fclose\<close>,
  \<open>fseek\<close>, \<open>fread\<close>, \<open>write\<close>, \<open>rename\<close>, \<open>unlink\<close>/\<open>remove\<close>, \<open>stat\<close> and \<open>fd_seek\<close>. A name
  leads to an inode and an open stream refers to the inode, so that a stream survives the
  renaming or removal of its name. The theory also models \<open>sdk_fdtell\<close> and \<open>sdk_ftell\<close> of
  \<open>patch.h\<close>, which replace \<open>ftell\<close>.

  \<open>fopen\<close> fails only for a path that cannot be resolved and for a missing file; that descriptors or the
  space for a new file run out is not modelled.

  The locale \<open>file_store\<close> is the interface the other components rely on: what each name
  contains after a file is written, moved or removed.
\<close>

section \<open>State\<close>

record ofile =
  of_ino :: nat
  of_pos :: nat
  of_rd :: bool
  of_wr :: bool

text \<open>
  \<open>opened\<close> is the descriptor table (a stream and its descriptor are the same number);
  \<open>lookup_err\<close> says for which paths resolution fails, and with which error, because the
  directory is missing or outside the preopened directories; \<open>quota\<close> is how many more bytes
  the host accepts in \<open>write\<close>.
\<close>

record libc =
  errno :: errno_t
  entries :: "path \<Rightarrow> nat option"
  inodes :: "nat \<Rightarrow> byte list"
  next_ino :: nat
  opened :: "(nat \<times> ofile) list"
  quota :: nat
  lookup_err :: "path \<Rightarrow> errno_t option"

datatype fmode = ReadMode | WriteMode | WritePlusMode
datatype whence = SEEK_SET | SEEK_END

definition contents :: "libc \<Rightarrow> path \<Rightarrow> byte list option" where
  "contents s p = map_option (inodes s) (entries s p)"

definition path_err :: "libc \<Rightarrow> path \<Rightarrow> errno_t option" where
  "path_err s p = (if p = [] then Some ENOENT else lookup_err s p)"

section \<open>Operations\<close>

text \<open>POSIX gives the lowest descriptor that is not open.\<close>

definition alloc_fd :: "(nat \<times> ofile) list \<Rightarrow> nat" where
  "alloc_fd os = the (find (\<lambda>n. n \<notin> set (map fst os)) [0..<Suc (length os)])"

definition open_ino :: "nat \<Rightarrow> fmode \<Rightarrow> libc \<Rightarrow> nat option \<times> libc" where
  "open_ino i m s =
     (let fd = alloc_fd (opened s);
          f = \<lparr>of_ino = i, of_pos = 0, of_rd = (m \<noteq> WriteMode), of_wr = (m \<noteq> ReadMode)\<rparr>
      in (Some fd, s\<lparr>opened := (fd, f) # opened s\<rparr>))"

definition fopen :: "path \<Rightarrow> fmode \<Rightarrow> libc \<Rightarrow> nat option \<times> libc" where
  "fopen p m s =
     (case path_err s p of
        Some e \<Rightarrow> (None, s\<lparr>errno := e\<rparr>)
      | None \<Rightarrow>
        (case entries s p of
           Some i \<Rightarrow>
             (if m = ReadMode then open_ino i m s
              else open_ino i m (s\<lparr>inodes := (inodes s)(i := [])\<rparr>))
         | None \<Rightarrow>
             (if m = ReadMode then (None, s\<lparr>errno := ENOENT\<rparr>)
              else open_ino (next_ino s) m
                     (s\<lparr>entries := (entries s)(p \<mapsto> next_ino s),
                        inodes := (inodes s)(next_ino s := []),
                        next_ino := Suc (next_ino s)\<rparr>))))"

definition fclose :: "nat \<Rightarrow> libc \<Rightarrow> libc" where
  "fclose fd s = s\<lparr>opened := AList.delete fd (opened s)\<rparr>"

definition fseek :: "nat \<Rightarrow> int \<Rightarrow> whence \<Rightarrow> libc \<Rightarrow> int \<times> libc" where
  "fseek fd off w s =
     (case map_of (opened s) fd of
        None \<Rightarrow> (- 1, s\<lparr>errno := EBADF\<rparr>)
      | Some f \<Rightarrow>
        (let base = (case w of SEEK_SET \<Rightarrow> 0 | SEEK_END \<Rightarrow> int (length (inodes s (of_ino f))))
         in if base + off < 0 then (- 1, s\<lparr>errno := EINVAL\<rparr>)
            else (0, s\<lparr>opened := AList.update fd (f\<lparr>of_pos := nat (base + off)\<rparr>) (opened s)\<rparr>)))"

definition fread :: "nat \<Rightarrow> nat \<Rightarrow> libc \<Rightarrow> byte list \<times> libc" where
  "fread fd n s =
     (case map_of (opened s) fd of
        None \<Rightarrow> ([], s\<lparr>errno := EBADF\<rparr>)
      | Some f \<Rightarrow>
        if of_rd f
        then (let data = take n (drop (of_pos f) (inodes s (of_ino f)))
              in (data, s\<lparr>opened := AList.update fd (f\<lparr>of_pos := of_pos f + length data\<rparr>) (opened s)\<rparr>))
        else ([], s\<lparr>errno := EBADF\<rparr>))"

text \<open>
  \<open>write\<close> stores as many bytes as the host still accepts and returns their number; it
  returns \<open>-1\<close> on a descriptor that is not open for writing and when nothing is accepted.
\<close>

definition fd_write :: "int \<Rightarrow> byte list \<Rightarrow> libc \<Rightarrow> int \<times> libc" where
  "fd_write fd bs s =
     (case (if fd < 0 then None else map_of (opened s) (nat fd)) of
        None \<Rightarrow> (- 1, s\<lparr>errno := EBADF\<rparr>)
      | Some f \<Rightarrow>
        if \<not> of_wr f then (- 1, s\<lparr>errno := EBADF\<rparr>)
        else if bs \<noteq> [] \<and> quota s = 0 then (- 1, s\<lparr>errno := ENOSPC\<rparr>)
        else (let out = take (quota s) bs
              in (int (length out),
                  s\<lparr>inodes := (inodes s)(of_ino f := overwrite (of_pos f) out (inodes s (of_ino f))),
                    quota := quota s - length out,
                    opened := AList.update (nat fd) (f\<lparr>of_pos := of_pos f + length out\<rparr>) (opened s)\<rparr>)))"

definition rename :: "path \<Rightarrow> path \<Rightarrow> libc \<Rightarrow> int \<times> libc" where
  "rename p q s =
     (case (path_err s p, path_err s q, entries s p) of
        (Some e, _, _) \<Rightarrow> (- 1, s\<lparr>errno := e\<rparr>)
      | (None, Some e, _) \<Rightarrow> (- 1, s\<lparr>errno := e\<rparr>)
      | (None, None, None) \<Rightarrow> (- 1, s\<lparr>errno := ENOENT\<rparr>)
      | (None, None, Some i) \<Rightarrow> (0, s\<lparr>entries := (entries s)(p := None, q := Some i)\<rparr>))"

definition unlink :: "path \<Rightarrow> libc \<Rightarrow> int \<times> libc" where
  "unlink p s =
     (case (path_err s p, entries s p) of
        (Some e, _) \<Rightarrow> (- 1, s\<lparr>errno := e\<rparr>)
      | (None, None) \<Rightarrow> (- 1, s\<lparr>errno := ENOENT\<rparr>)
      | (None, Some i) \<Rightarrow> (0, s\<lparr>entries := (entries s)(p := None)\<rparr>))"

definition stat :: "path \<Rightarrow> libc \<Rightarrow> int \<times> libc" where
  "stat p s =
     (case (path_err s p, entries s p) of
        (Some e, _) \<Rightarrow> (- 1, s\<lparr>errno := e\<rparr>)
      | (None, None) \<Rightarrow> (- 1, s\<lparr>errno := ENOENT\<rparr>)
      | (None, Some i) \<Rightarrow> (0, s))"

text \<open>The WASI call behind \<open>lseek\<close>, for offset 0 from the current position.\<close>

definition wasi_fd_seek_cur :: "int \<Rightarrow> libc \<Rightarrow> nat option" where
  "wasi_fd_seek_cur fd s =
     (if fd < 0 then None else map_option of_pos (map_of (opened s) (nat fd)))"

definition sdk_fdtell :: "int \<Rightarrow> libc \<Rightarrow> int \<times> libc" where
  "sdk_fdtell fd s =
     (case wasi_fd_seek_cur fd s of
        None \<Rightarrow> (- 1, s\<lparr>errno := EIO\<rparr>)
      | Some position \<Rightarrow> (i32 (int position), s))"

definition sdk_ftell :: "nat \<Rightarrow> libc \<Rightarrow> int \<times> libc" where
  "sdk_ftell stream s = sdk_fdtell (int stream) s"

text \<open>A whole file written by one process: open, write, close.\<close>

definition put_file :: "path \<Rightarrow> byte list \<Rightarrow> libc \<Rightarrow> libc" where
  "put_file p bs s =
     (case fopen p WriteMode s of
        (None, s') \<Rightarrow> s'
      | (Some fd, s') \<Rightarrow> fclose fd (snd (fd_write (int fd) bs s')))"

text \<open>An empty file system with the three standard streams.\<close>

definition init_libc :: libc where
  "init_libc = \<lparr>errno = E_OK, entries = (\<lambda>_. None), inodes = (\<lambda>_. []), next_ino = 1,
     opened = map (\<lambda>fd. (fd, \<lparr>of_ino = 0, of_pos = 0, of_rd = True, of_wr = True\<rparr>)) [0, 1, 2],
     quota = 4096, lookup_err = (\<lambda>_. None)\<rparr>"

section \<open>The invariant and that every operation keeps it\<close>

definition wf_libc :: "libc \<Rightarrow> bool" where
  "wf_libc s \<longleftrightarrow>
     distinct (map fst (opened s)) \<and>
     (\<forall>fd f. map_of (opened s) fd = Some f \<longrightarrow> of_ino f < next_ino s) \<and>
     (\<forall>p i. entries s p = Some i \<longrightarrow> i < next_ino s) \<and>
     (\<forall>p q i. entries s p = Some i \<longrightarrow> entries s q = Some i \<longrightarrow> p = q)"

lemma alloc_fd_fresh: "alloc_fd os \<notin> set (map fst os)"
proof -
  obtain n where n: "find (\<lambda>n. n \<notin> set (map fst os)) [0..<Suc (length (map fst os))] = Some n"
    using find_fresh_nat by blast
  then have "n \<notin> set (map fst os)" unfolding find_Some_iff by blast
  with n show ?thesis by (simp add: alloc_fd_def)
qed

lemma map_of_alloc_fd [simp]: "map_of os (alloc_fd os) = None"
  using alloc_fd_fresh [of os] by (simp add: map_of_eq_None_iff)

lemma wf_libcI:
  assumes "distinct (map fst (opened s))"
    and "\<And>fd f. map_of (opened s) fd = Some f \<Longrightarrow> of_ino f < next_ino s"
    and "\<And>p i. entries s p = Some i \<Longrightarrow> i < next_ino s"
    and "\<And>p q i. entries s p = Some i \<Longrightarrow> entries s q = Some i \<Longrightarrow> p = q"
  shows "wf_libc s"
  using assms unfolding wf_libc_def by blast

lemma wf_libcD:
  assumes "wf_libc s"
  shows "distinct (map fst (opened s))"
    and "map_of (opened s) fd = Some f \<Longrightarrow> of_ino f < next_ino s"
    and "entries s p = Some i \<Longrightarrow> i < next_ino s"
    and "entries s p = Some i \<Longrightarrow> entries s q = Some i \<Longrightarrow> p = q"
  using assms unfolding wf_libc_def by blast+

lemma wf_errno [simp]: "wf_libc (s\<lparr>errno := e\<rparr>) = wf_libc s"
  by (simp add: wf_libc_def)

lemma contents_errno [simp]: "contents (s\<lparr>errno := e\<rparr>) = contents s"
  by (rule ext) (simp add: contents_def)

lemma path_err_upd [simp]:
  "path_err (s\<lparr>errno := e\<rparr>) = path_err s" "path_err (s\<lparr>opened := os\<rparr>) = path_err s"
  "path_err (s\<lparr>entries := es\<rparr>) = path_err s" "path_err (s\<lparr>inodes := is\<rparr>) = path_err s"
  "path_err (s\<lparr>next_ino := n\<rparr>) = path_err s" "path_err (s\<lparr>quota := n\<rparr>) = path_err s"
  by (simp_all add: path_err_def fun_eq_iff)

lemma wf_open_ino:
  assumes "wf_libc s" "i < next_ino s"
  shows "wf_libc (snd (open_ino i m s))"
  using wf_libcD [OF assms(1)] assms(2) alloc_fd_fresh [of "opened s"]
  by (intro wf_libcI) (auto simp: open_ino_def Let_def split: if_splits)

lemma wf_inodes [simp]: "wf_libc (s\<lparr>inodes := is\<rparr>) = wf_libc s"
  by (simp add: wf_libc_def)

lemma wf_new_entry:
  assumes "wf_libc s" "entries s p = None"
  shows "wf_libc (s\<lparr>entries := (entries s)(p \<mapsto> next_ino s), inodes := is,
                    next_ino := Suc (next_ino s)\<rparr>)"
  using wf_libcD [OF assms(1)] assms(2)
  by (intro wf_libcI) (fastforce split: if_splits intro: less_SucI)+

lemma wf_fopen: "wf_libc s \<Longrightarrow> wf_libc (snd (fopen p m s))"
  using wf_open_ino wf_new_entry wf_libcD(3)
  by (simp add: fopen_def split: option.split)

lemma wf_fclose: "wf_libc s \<Longrightarrow> wf_libc (fclose fd s)"
  using wf_libcD [of s]
  by (intro wf_libcI) (auto simp: fclose_def distinct_delete delete_conv' split: if_splits)

lemma wf_quota [simp]: "wf_libc (s\<lparr>quota := n\<rparr>) = wf_libc s"
  by (simp add: wf_libc_def)

lemma wf_upd_opened:
  assumes "wf_libc s" "opened s = os" "map_of os fd = Some f" "of_ino g = of_ino f"
  shows "wf_libc (s\<lparr>opened := AList.update fd g os\<rparr>)"
  using wf_libcD [OF assms(1)] assms(2-)
  by (intro wf_libcI) (auto simp: distinct_update update_conv' split: if_splits)

lemma wf_fseek: "wf_libc s \<Longrightarrow> wf_libc (snd (fseek fd off w s))"
  by (auto simp: fseek_def Let_def split: option.split intro: wf_upd_opened)

lemma wf_fread: "wf_libc s \<Longrightarrow> wf_libc (snd (fread fd n s))"
  by (auto simp: fread_def Let_def split: option.split intro: wf_upd_opened)

lemma wf_write: "wf_libc s \<Longrightarrow> wf_libc (snd (fd_write fd bs s))"
  by (auto simp: fd_write_def Let_def intro!: wf_upd_opened split: option.split)

lemma wf_rename: "wf_libc s \<Longrightarrow> wf_libc (snd (rename p q s))"
  by (auto simp: rename_def wf_libc_def split: option.split)

lemma wf_unlink: "wf_libc s \<Longrightarrow> wf_libc (snd (unlink p s))"
  by (auto simp: unlink_def wf_libc_def split: option.split)

lemma wf_sdk_fdtell: "wf_libc s \<Longrightarrow> wf_libc (snd (sdk_fdtell fd s))"
  by (auto simp: sdk_fdtell_def split: option.split)

lemma wf_put_file: "wf_libc s \<Longrightarrow> wf_libc (put_file p bs s)"
  using wf_fopen [of s p WriteMode]
  by (auto simp: put_file_def intro!: wf_fclose wf_write split: prod.split option.split)

lemmas wf_ops [wf_intros] = wf_fopen wf_fclose wf_fseek wf_fread wf_write wf_rename wf_unlink wf_sdk_fdtell
  wf_put_file

section \<open>What the names contain after each operation\<close>

lemma contents_opened [simp]: "contents (s\<lparr>opened := os\<rparr>) = contents s"
  by (rule ext) (simp add: contents_def)

lemma contents_quota [simp]: "contents (s\<lparr>quota := n\<rparr>) = contents s"
  by (rule ext) (simp add: contents_def)

lemma contents_inode_upd:
  assumes "wf_libc s" "entries s p = Some i"
  shows "contents (s\<lparr>inodes := (inodes s)(i := bs)\<rparr>) = (contents s)(p \<mapsto> bs)"
proof (rule ext)
  fix q
  have "entries s q = Some i \<Longrightarrow> q = p" using assms wf_libcD(4) by blast
  then show "contents (s\<lparr>inodes := (inodes s)(i := bs)\<rparr>) q = ((contents s)(p \<mapsto> bs)) q"
    by (cases "entries s q") (auto simp: contents_def assms(2))
qed

lemma contents_new_entry:
  assumes "wf_libc s"
  shows "contents (s\<lparr>entries := (entries s)(p \<mapsto> next_ino s),
           inodes := (inodes s)(next_ino s := bs), next_ino := n\<rparr>) = (contents s)(p \<mapsto> bs)"
proof (rule ext)
  fix q
  have "entries s q \<noteq> Some (next_ino s)" using assms wf_libcD(3) by blast
  then show "contents (s\<lparr>entries := (entries s)(p \<mapsto> next_ino s),
           inodes := (inodes s)(next_ino s := bs), next_ino := n\<rparr>) q = ((contents s)(p \<mapsto> bs)) q"
    by (cases "entries s q") (auto simp: contents_def)
qed

text \<open>Opening for writing: the stream is at the start of an empty file with that name.\<close>

lemma fopen_write:
  assumes "wf_libc s" "path_err s p = None" "m \<noteq> ReadMode"
  obtains i s' where
    "fopen p m s = (Some (alloc_fd (opened s)), s')"
    and "opened s' = (alloc_fd (opened s),
           \<lparr>of_ino = i, of_pos = 0, of_rd = (m \<noteq> WriteMode), of_wr = True\<rparr>) # opened s"
    and "entries s' p = Some i" and "contents s' = (contents s)(p \<mapsto> [])"
    and "path_err s' = path_err s" and "quota s' = quota s" and "errno s' = errno s"
    and "wf_libc s'"
proof (cases "entries s p")
  case None
  show ?thesis
    using that [of "snd (fopen p m s)" "next_ino s"] None assms contents_new_entry [OF assms(1)]
      wf_fopen [OF assms(1), of p m]
    by (simp add: fopen_def open_ino_def Let_def)
next
  case (Some i)
  show ?thesis
    using that [of "snd (fopen p m s)" i] Some assms contents_inode_upd [OF assms(1) Some]
      wf_fopen [OF assms(1), of p m]
    by (simp add: fopen_def open_ino_def Let_def)
qed

lemma fopen_writes:
  assumes "wf_libc s" "path_err s p = None" "m \<noteq> ReadMode"
  shows "\<exists>fd s'. fopen p m s = (Some fd, s') \<and> contents s' = (contents s)(p \<mapsto> []) \<and>
    path_err s' = path_err s \<and> quota s' = quota s \<and> errno s' = errno s \<and> wf_libc s'"
proof -
  from fopen_write [OF assms] obtain i s' where "fopen p m s = (Some (alloc_fd (opened s)), s')"
    "contents s' = (contents s)(p \<mapsto> [])" "path_err s' = path_err s" "quota s' = quota s"
    "errno s' = errno s" "wf_libc s'" .
  then show ?thesis by blast
qed

lemma contents_rename:
  assumes "path_err s p = None" "path_err s q = None" "contents s p \<noteq> None"
  shows "contents (snd (rename p q s)) = (contents s)(p := None, q := contents s p)"
  using assms by (auto simp: rename_def contents_def fun_eq_iff split: option.split)

lemma contents_unlink:
  assumes "path_err s p = None"
  shows "contents (snd (unlink p s)) = (contents s)(p := None)"
  using assms by (auto simp: unlink_def contents_def fun_eq_iff split: option.split)

text \<open>A write at the end of a named file appends what the host accepts.\<close>

lemma write_at_end:
  assumes "wf_libc s" "map_of (opened s) fd = Some f" "of_wr f" "entries s p = Some (of_ino f)"
    and "contents s p = Some bs" "of_pos f = length bs" "xs = [] \<or> 0 < quota s"
  defines "out \<equiv> take (quota s) xs"
  shows "fst (fd_write (int fd) xs s) = int (length out)"
    and "contents (snd (fd_write (int fd) xs s)) = (contents s)(p \<mapsto> bs @ out)"
    and "opened (snd (fd_write (int fd) xs s)) =
           AList.update fd (f\<lparr>of_pos := length (bs @ out)\<rparr>) (opened s)"
    and "entries (snd (fd_write (int fd) xs s)) = entries s"
    and "path_err (snd (fd_write (int fd) xs s)) = path_err s"
    and "errno (snd (fd_write (int fd) xs s)) = errno s"
    and "quota (snd (fd_write (int fd) xs s)) = quota s - length out"
proof -
  have bs: "inodes s (of_ino f) = bs" using assms(4,5) by (simp add: contents_def)
  have eq: "fd_write (int fd) xs s =
      (int (length out), s\<lparr>inodes := (inodes s)(of_ino f := bs @ out), quota := quota s - length out,
         opened := AList.update fd (f\<lparr>of_pos := length (bs @ out)\<rparr>) (opened s)\<rparr>)"
    using assms(2,3,6,7) by (auto simp: fd_write_def Let_def bs out_def)
  show "contents (snd (fd_write (int fd) xs s)) = (contents s)(p \<mapsto> bs @ out)"
    unfolding eq using contents_inode_upd [OF assms(1,4)] by simp
qed (use assms in \<open>auto simp: fd_write_def Let_def out_def contents_def\<close>)

lemma contents_put_file:
  assumes "wf_libc s" "path_err s p = None" "length bs \<le> quota s"
  shows "contents (put_file p bs s) = (contents s)(p \<mapsto> bs)"
proof -
  from fopen_write [OF assms(1,2), of WriteMode] obtain i s' where
    o: "fopen p WriteMode s = (Some (alloc_fd (opened s)), s')"
    "opened s' = (alloc_fd (opened s), \<lparr>of_ino = i, of_pos = 0, of_rd = False, of_wr = True\<rparr>) # opened s"
    "entries s' p = Some i" "contents s' = (contents s)(p \<mapsto> [])" "quota s' = quota s" "wf_libc s'"
    by (metis fmode.distinct(1))
  let ?f = "\<lparr>of_ino = i, of_pos = 0, of_rd = False, of_wr = True\<rparr>"
  have "contents (snd (fd_write (int (alloc_fd (opened s))) bs s')) = (contents s')(p \<mapsto> [] @ take (quota s') bs)"
    using o assms(3) by (intro write_at_end(2) [where f = ?f]) auto
  then show ?thesis using o assms(3) by (simp add: put_file_def fclose_def)
qed

section \<open>The interface of the file system\<close>

text \<open>
  What a client of the file system relies on. \<open>publish\<close> is the pattern the sources use to hand
  a file over: write it under a private name, then move it to the name the reader watches.
\<close>

locale file_store =
  fixes invar :: "'s \<Rightarrow> bool"
    and accessible :: "'s \<Rightarrow> path \<Rightarrow> bool"
    and room :: "'s \<Rightarrow> nat"
    and content :: "'s \<Rightarrow> path \<Rightarrow> byte list option"
    and put :: "path \<Rightarrow> byte list \<Rightarrow> 's \<Rightarrow> 's"
    and move :: "path \<Rightarrow> path \<Rightarrow> 's \<Rightarrow> 's"
    and del :: "path \<Rightarrow> 's \<Rightarrow> 's"
  assumes content_put: "invar s \<Longrightarrow> accessible s p \<Longrightarrow> length bs \<le> room s \<Longrightarrow>
      content (put p bs s) = (content s)(p \<mapsto> bs)"
    and content_move: "invar s \<Longrightarrow> accessible s p \<Longrightarrow> accessible s q \<Longrightarrow> content s p \<noteq> None \<Longrightarrow>
      content (move p q s) = (content s)(p := None, q := content s p)"
    and content_del: "invar s \<Longrightarrow> accessible s p \<Longrightarrow> content (del p s) = (content s)(p := None)"
    and accessible_put: "accessible (put p bs s) = accessible s"
    and invar_put: "invar s \<Longrightarrow> invar (put p bs s)"
    and invar_move: "invar s \<Longrightarrow> invar (move p q s)"
    and invar_del: "invar s \<Longrightarrow> invar (del p s)"
begin

text \<open>Until the move the reader's name is as it was; the move gives it the whole new file.\<close>

lemma publish:
  assumes "invar s" "accessible s p" "accessible s q" "p \<noteq> q" "length bs \<le> room s"
  shows "content (put p bs s) q = content s q"
    and "content (move p q (put p bs s)) = (content s)(p := None, q \<mapsto> bs)"
    and "invar (move p q (put p bs s))"
  using assms by (simp_all add: content_put content_move accessible_put invar_put invar_move)

lemma put_del: "invar s \<Longrightarrow> accessible s p \<Longrightarrow> length bs \<le> room s \<Longrightarrow> content s p = None \<Longrightarrow>
    content (del p (put p bs s)) = content s"
  by (simp add: content_put content_del accessible_put invar_put fun_upd_idem)

end

lemma path_err_put_file [simp]: "path_err (put_file p bs s) = path_err s"
  by (auto simp: put_file_def fclose_def fd_write_def fopen_def open_ino_def Let_def
      split: option.split)

interpretation fs: file_store wf_libc "\<lambda>s p. path_err s p = None" quota contents put_file
  "\<lambda>p q s. snd (rename p q s)" "\<lambda>p s. snd (unlink p s)"
  by unfold_locales
    (simp_all add: contents_put_file contents_rename contents_unlink wf_intros)

lemma init_libc [simp]:
  "wf_libc init_libc" "contents init_libc p = None" "path_err init_libc p = (if p = [] then Some ENOENT else None)"
  by (simp_all add: init_libc_def wf_libc_def contents_def path_err_def)

end
