(* ===== verification/Socket.thy ===== *)
theory Socket
  imports File_System
begin

text \<open>
  \<open>sdk/hotfix/sdk_socket.c\<close>: the client's socket, emulated by files. Bytes the client sends are
  collected in the file \<open>PGS_ILOCK\<close>; before the client waits for an answer the file is renamed
  to \<open>PGS_IN\<close> and \<open>sched_yield\<close> lets the server run, which leaves its answer in \<open>PGS_OUT\<close>; the
  client then reads \<open>PGS_OUT\<close> in chunks and removes it.

  The server is the parameter \<open>peer\<close>, the effect of one \<open>sched_yield\<close> on the file system. The
  debugging output of \<open>printf\<close> and \<open>puts\<close> is not modelled; the calls in their arguments that
  change state (\<open>sdk_fdtell\<close> sets \<open>errno\<close>) are.
\<close>

unbundle bit_operations_syntax

section \<open>Paths and state\<close>

definition PGS_ILOCK :: path where "PGS_ILOCK = ''/tmp/pglite/base/.s.PGSQL.5432.lock.in''"
definition PGS_IN :: path where "PGS_IN = ''/tmp/pglite/base/.s.PGSQL.5432.in''"
definition PGS_OLOCK :: path where "PGS_OLOCK = ''/tmp/pglite/base/.s.PGSQL.5432.lock.out''"
definition PGS_OUT :: path where "PGS_OUT = ''/tmp/pglite/base/.s.PGSQL.5432.out''"
definition PGS_SOCK :: path where "PGS_SOCK = ''/tmp/pglite/base/.s.PGSQL.5432''"

lemmas pgs_defs = PGS_ILOCK_def PGS_IN_def PGS_OLOCK_def PGS_OUT_def PGS_SOCK_def

lemma pgs_distinct [simp]:
  "PGS_ILOCK \<noteq> PGS_IN" "PGS_IN \<noteq> PGS_ILOCK" "PGS_ILOCK \<noteq> PGS_OUT" "PGS_OUT \<noteq> PGS_ILOCK"
  "PGS_IN \<noteq> PGS_OUT" "PGS_OUT \<noteq> PGS_IN" "PGS_SOCK \<noteq> PGS_ILOCK" "PGS_SOCK \<noteq> PGS_IN"
  "PGS_SOCK \<noteq> PGS_OUT"
  by (simp_all add: pgs_defs)

text \<open>
  The globals of \<open>sdk_port-wasi.c\<close> (lines 398 to 401) and of \<open>sdk_socket.c\<close> (lines 96 to 107).
  \<open>mem0\<close> is the byte at address 0 of the linear memory, which \<open>sdk_exit\<close> writes.
\<close>

record sock =
  os :: libc
  fd_sock :: int
  fd_FILE :: "nat option"
  fd_out :: int
  fd_queue :: int
  watchdog :: int
  fd_current_pos :: int
  fd_filesize :: int
  web_warned :: bool
  mem0 :: byte

definition init_sock :: "libc \<Rightarrow> sock" where
  "init_sock l = \<lparr>os = l, fd_sock = 0, fd_FILE = None, fd_out = 2, fd_queue = 0, watchdog = 0,
     fd_current_pos = 0, fd_filesize = 0, web_warned = False, mem0 = 0\<rparr>"

section \<open>Operations\<close>

definition AF_UNIX :: "32 word" where "AF_UNIX = 1"

text \<open>
  \<open>exit\<close> of \<open>patch.h\<close>: it stores the code at address 0, which is an ordinary location of a WebAssembly memory, and
  aborts. In C the store through a null pointer is itself undefined: a compiler may put a trap in its place. Both end
  the instance, and the model's \<^const>\<open>Aborted\<close> stands for either: no property of this development takes a run that ends
  there for defined behaviour of the C program.
\<close>

definition sdk_exit :: "int \<Rightarrow> sock \<Rightarrow> (unit, sock) cres" where
  "sdk_exit ec s = Aborted (s\<lparr>mem0 := word_of_int ec\<rparr>)"

text \<open>\<open>fileno\<close> of a null stream is undefined; the source does not test \<open>fopen\<close>'s result here.\<close>

definition sdk_socket :: "32 word \<Rightarrow> int \<Rightarrow> int \<Rightarrow> sock \<Rightarrow> (int, sock) cres" where
  "sdk_socket domain ty protocol s =
     cbind
       (if fd_sock s = 0
        then (case fopen PGS_SOCK WritePlusMode (os s) of
                (None, l) \<Rightarrow> Undefined
              | (Some select_file, l) \<Rightarrow> Return () (s\<lparr>os := l, fd_sock := int select_file\<rparr>))
        else Return () s)
       (\<lambda>_ s. if fd_sock s = 0 then Aborted s
              else if domain OR AF_UNIX \<noteq> 0 then Return (fd_sock s) s
              else Aborted s)"

definition sdk_connect :: "int \<Rightarrow> sock \<Rightarrow> (int, sock) cres" where
  "sdk_connect socket s =
     (case fopen PGS_ILOCK WriteMode (os s) of
        (Some f, l) \<Rightarrow>
          Return 0 (s\<lparr>fd_queue := 0, os := l, fd_FILE := Some f, fd_out := int f\<rparr>)
      | (None, l) \<Rightarrow> Aborted (s\<lparr>fd_queue := 0, os := l, fd_FILE := None\<rparr>))"

definition sdk_sock_flush :: "(libc \<Rightarrow> libc) \<Rightarrow> sock \<Rightarrow> (unit, sock) cres" where
  "sdk_sock_flush peer s =
     (if fd_queue s \<noteq> 0
      then (case fd_FILE s of
              None \<Rightarrow> Aborted (s\<lparr>web_warned := True\<rparr>)
            | Some f \<Rightarrow>
                (let l1 = snd (sdk_fdtell (fd_out s) (os s));
                     l2 = fclose f l1;
                     l3 = snd (rename PGS_ILOCK PGS_IN l2);
                     l4 = peer l3
                 in case fopen PGS_ILOCK WriteMode l4 of
                      (None, l5) \<Rightarrow> Undefined
                    | (Some g, l5) \<Rightarrow>
                        Return () (s\<lparr>os := l5, fd_FILE := Some g, fd_out := int g, fd_queue := 0\<rparr>)))
      else (let s' = s\<lparr>watchdog := i32 (watchdog s + 1)\<rparr>
            in if watchdog s > 32 then sdk_exit 0 s' else Return () s'))"

text \<open>
  The second half of \<open>sdk_recvfrom\<close>, from the \<open>fopen\<close> of \<open>PGS_OUT\<close> on. The caller's buffer is a
  byte list; \<open>buf[0] = 0\<close> and the bytes \<open>fread\<close> stores must lie inside it. The result is the
  returned count and the buffer.
\<close>

definition recv_file :: "byte list \<Rightarrow> nat \<Rightarrow> sock \<Rightarrow> (int \<times> byte list, sock) cres" where
  "recv_file buffer len s =
     (case fopen PGS_OUT ReadMode (os s) of
        (None, l) \<Rightarrow> Return (- 1, buffer) (s\<lparr>os := l\<lparr>errno := EINTR\<rparr>\<rparr>)
      | (Some sock_in, l) \<Rightarrow>
          (let (size, l1) =
                 (if fd_filesize s = 0
                  then sdk_ftell sock_in (snd (fseek sock_in 0 SEEK_END l))
                  else (fd_filesize s, l));
               l2 = snd (fseek sock_in (fd_current_pos s) SEEK_SET l1);
               (data, l3) = fread sock_in len l2;
               rcv = i32 (int (length data));
               pos = i32 (fd_current_pos s + rcv);
               buf = overwrite 0 data (buffer[0 := 0])
           in if buffer = [] \<or> length buffer < length data then Undefined
              else if pos < size
              then Return (rcv, buf)
                     (s\<lparr>os := fclose sock_in l3, fd_filesize := size, fd_current_pos := pos\<rparr>)
              else Return (rcv, buf)
                     (s\<lparr>os := snd (unlink PGS_OUT (fclose sock_in l3)), fd_queue := 0,
                        fd_filesize := 0, fd_current_pos := 0, watchdog := 0\<rparr>)))"

definition sdk_recvfrom ::
    "(libc \<Rightarrow> libc) \<Rightarrow> byte list \<Rightarrow> nat \<Rightarrow> sock \<Rightarrow> (int \<times> byte list, sock) cres" where
  "sdk_recvfrom peer buffer len s =
     cbind (if fd_current_pos s = 0 then sdk_sock_flush peer s
            else Return () (s\<lparr>watchdog := 0\<rparr>))
       (\<lambda>_ s. recv_file buffer len s)"

definition sdk_sendto :: "byte list \<Rightarrow> sock \<Rightarrow> int \<times> sock" where
  "sdk_sendto buf s =
     (let (sent, l) = fd_write (fd_out s) buf (os s)
      in (sent, s\<lparr>os := l, watchdog := 0, fd_queue := i32 (fd_queue s + i32 sent)\<rparr>))"

definition sdk_send :: "byte list \<Rightarrow> sock \<Rightarrow> int \<times> sock" where
  "sdk_send buf s = sdk_sendto buf s"

definition sdk_recv :: "(libc \<Rightarrow> libc) \<Rightarrow> byte list \<Rightarrow> nat \<Rightarrow> sock \<Rightarrow> (int \<times> byte list, sock) cres" where
  "sdk_recv peer buf len s = sdk_recvfrom peer buf len s"

text \<open>The calls a client needs around the connection; all of them only report success.\<close>

definition bind_sock :: "int \<Rightarrow> sock \<Rightarrow> int \<times> sock" where "bind_sock socket s = (0, s)"
definition setsockopt :: "int \<Rightarrow> int \<Rightarrow> int \<Rightarrow> sock \<Rightarrow> int \<times> sock" where
  "setsockopt socket level option_name s = (0, s)"
definition sdk_getsockopt :: "int \<Rightarrow> int \<Rightarrow> int \<Rightarrow> sock \<Rightarrow> int \<times> sock" where
  "sdk_getsockopt sockfd level optname s = (0, s)"
definition sdk_getsockname :: "int \<Rightarrow> sock \<Rightarrow> int \<times> sock" where
  "sdk_getsockname sockfd s = (0, s)"

section \<open>The invariant of a connected socket\<close>

text \<open>
  \<open>outbox\<close> is what the client has sent and not yet handed over, \<open>unread\<close> what it can still
  read of the answer.
\<close>

definition outbox :: "sock \<Rightarrow> byte list option" where
  "outbox s = contents (os s) PGS_ILOCK"

definition unread :: "sock \<Rightarrow> byte list" where
  "unread s = (case contents (os s) PGS_OUT of
                 None \<Rightarrow> [] | Some out \<Rightarrow> drop (nat (fd_current_pos s)) out)"

definition sock_paths :: "libc \<Rightarrow> bool" where
  "sock_paths l \<longleftrightarrow> wf_libc l \<and> path_err l PGS_ILOCK = None \<and> path_err l PGS_IN = None \<and>
     path_err l PGS_OUT = None"

text \<open>The stream of the outbox is open for writing at the end of \<open>PGS_ILOCK\<close>.\<close>

definition out_stream :: "sock \<Rightarrow> bool" where
  "out_stream s \<longleftrightarrow>
     (\<exists>f h bs. fd_FILE s = Some f \<and> fd_out s = int f \<and> map_of (opened (os s)) f = Some h \<and>
        of_wr h \<and> entries (os s) PGS_ILOCK = Some (of_ino h) \<and> outbox s = Some bs \<and>
        of_pos h = length bs)"

text \<open>
  Between two chunks of an answer the cached size is the file's size and the position lies
  strictly inside it; otherwise both are 0. A file of 2 GB or more does not fit the \<open>int\<close>s.
\<close>

definition reading_ok :: "sock \<Rightarrow> bool" where
  "reading_ok s \<longleftrightarrow>
     (fd_current_pos s = 0 \<and> fd_filesize s = 0) \<or>
     (\<exists>out. contents (os s) PGS_OUT = Some out \<and> fd_filesize s = int (length out) \<and>
        0 < fd_current_pos s \<and> fd_current_pos s < int (length out) \<and> length out < 2 ^ 31)"

definition sock_inv :: "sock \<Rightarrow> bool" where
  "sock_inv s \<longleftrightarrow> sock_paths (os s) \<and> out_stream s \<and> reading_ok s"

text \<open>What the client relies on of the server: it leaves a well-formed file system behind.\<close>

definition peer_ok :: "(libc \<Rightarrow> libc) \<Rightarrow> bool" where
  "peer_ok peer \<longleftrightarrow>
     (\<forall>l. wf_libc l \<longrightarrow> wf_libc (peer l) \<and> path_err (peer l) = path_err l)"


section \<open>What the operations do on a connected socket\<close>

lemma watchdog_frame [simp]:
  "outbox (s\<lparr>watchdog := w\<rparr>) = outbox s" "unread (s\<lparr>watchdog := w\<rparr>) = unread s"
  "sock_inv (s\<lparr>watchdog := w\<rparr>) = sock_inv s"
  by (simp_all add: outbox_def unread_def sock_inv_def out_stream_def reading_ok_def
      cong: option.case_cong)

text \<open>A read from any position: the position need not lie inside the file that is there now.\<close>

lemma recv_file_run:
  assumes "path_err (os s) PGS_OUT = None" "contents (os s) PGS_OUT = Some out"
    and "length out < 2 ^ 31" "fd_current_pos s = int pos" "pos < 2 ^ 31"
    and "n \<le> length buffer" "buffer \<noteq> []"
  defines "d \<equiv> take n (drop pos out)"
    and "sz \<equiv> if fd_filesize s = 0 then int (length out) else fd_filesize s"
  shows "recv_file buffer n s =
    Return (int (length d), overwrite 0 d (buffer[0 := 0]))
      (if int (pos + length d) < sz
       then s\<lparr>fd_filesize := sz, fd_current_pos := int (pos + length d)\<rparr>
       else s\<lparr>os := (os s)\<lparr>entries := (entries (os s))(PGS_OUT := None)\<rparr>, fd_queue := 0,
              fd_filesize := 0, fd_current_pos := 0, watchdog := 0\<rparr>)"
proof -
  obtain i where i: "entries (os s) PGS_OUT = Some i" "inodes (os s) i = out"
    using assms(2) by (auto simp: contents_def)
  define fd where "fd = alloc_fd (opened (os s))"
  let ?f = "\<lambda>p. \<lparr>of_ino = i, of_pos = p, of_rd = True, of_wr = False\<rparr>"
  let ?l = "\<lambda>p. (os s)\<lparr>opened := (fd, ?f p) # opened (os s)\<rparr>"
  have o: "fopen PGS_OUT ReadMode (os s) = (Some fd, ?l 0)"
    using assms(1) i by (simp add: fopen_def open_ino_def Let_def fd_def)
  have sk: "snd (fseek fd (int k) SEEK_SET (?l p)) = ?l k" for k p
    by (simp add: fseek_def)
  have se: "sdk_ftell fd (snd (fseek fd 0 SEEK_END (?l 0))) = (int (length out), ?l (length out))"
    using i assms(3) by (simp add: fseek_def sdk_ftell_def sdk_fdtell_def wasi_fd_seek_cur_def)
  have rd: "fread fd n (?l pos) = (d, ?l (pos + length d))"
    using i by (simp add: fread_def d_def)
  have cl: "fclose fd (?l p) = os s" for p
    using alloc_fd_fresh [of "opened (os s)"] by (simp add: fclose_def fd_def delete_id)
  have un: "snd (unlink PGS_OUT (os s)) = (os s)\<lparr>entries := (entries (os s))(PGS_OUT := None)\<rparr>"
    using assms(1) i by (simp add: unlink_def)
  have len: "length d \<le> length out" "pos + length d \<le> max pos (length out)" "length d \<le> length buffer"
    using assms(6) by (auto simp: d_def)
  then have int: "i32 (int (length d)) = int (length d)"
    "i32 (int pos + int (length d)) = int (pos + length d)"
    using assms(3,5) i32_id by simp_all
  show ?thesis
    using len int assms(7)
    by (cases "fd_filesize s = 0") (simp_all add: recv_file_def o se sk rd cl un assms(4) Let_def sz_def)
qed

lemma recv_file_eq:
  assumes "path_err (os s) PGS_OUT = None" "contents (os s) PGS_OUT = Some out"
    and "length out < 2 ^ 31" "fd_current_pos s = int pos" "pos \<le> length out"
    and "fd_filesize s = 0 \<or> fd_filesize s = int (length out)"
    and "n \<le> length buffer" "buffer \<noteq> []"
  defines "d \<equiv> take n (drop pos out)"
  shows "recv_file buffer n s =
    Return (int (length d), overwrite 0 d (buffer[0 := 0]))
      (if pos + length d < length out
       then s\<lparr>fd_filesize := int (length out), fd_current_pos := int (pos + length d)\<rparr>
       else s\<lparr>os := (os s)\<lparr>entries := (entries (os s))(PGS_OUT := None)\<rparr>, fd_queue := 0,
              fd_filesize := 0, fd_current_pos := 0, watchdog := 0\<rparr>)"
proof -
  have "pos < 2 ^ 31" using assms(3,5) by linarith
  moreover have "(if fd_filesize s = 0 then int (length out) else fd_filesize s) = int (length out)"
    using assms(6) by auto
  ultimately show ?thesis
    using recv_file_run [OF assms(1-4) _ assms(7,8)] unfolding d_def by (simp only: of_nat_less_iff)
qed

text \<open>A send appends to the outbox what the host accepts.\<close>

lemma sendto_eq:
  assumes "sock_inv s" "outbox s = Some bs" "buf = [] \<or> 0 < quota (os s)"
  defines "out \<equiv> take (quota (os s)) buf"
  obtains s' where "sdk_sendto buf s = (int (length out), s')" and "outbox s' = Some (bs @ out)"
    and "sock_inv s'" and "unread s' = unread s" and "watchdog s' = 0"
    and "fd_queue s' = i32 (fd_queue s + i32 (int (length out)))"
    and "fd_current_pos s' = fd_current_pos s" and "fd_filesize s' = fd_filesize s"
    and "contents (os s') = (contents (os s))(PGS_ILOCK \<mapsto> bs @ out)"
    and "quota (os s') = quota (os s) - length out"
proof -
  from assms(1,2) obtain f h where
    fh: "fd_FILE s = Some f" "fd_out s = int f" "map_of (opened (os s)) f = Some h" "of_wr h"
      "entries (os s) PGS_ILOCK = Some (of_ino h)" "of_pos h = length bs"
    and p: "sock_paths (os s)" "reading_ok s"
    by (auto simp: sock_inv_def out_stream_def)
  have wf: "wf_libc (os s)" using p by (simp add: sock_paths_def)
  note w = write_at_end [OF wf fh(3,4,5) assms(2) [unfolded outbox_def] fh(6) assms(3), folded out_def]
  define l where "l = snd (fd_write (int f) buf (os s))"
  define s' where "s' = s\<lparr>os := l, watchdog := 0, fd_queue := i32 (fd_queue s + i32 (int (length out)))\<rparr>"
  have eq: "sdk_sendto buf s = (int (length out), s')"
    using w(1) fh(2) by (auto simp: sdk_sendto_def l_def s'_def split: prod.split)
  have c: "contents l = (contents (os s))(PGS_ILOCK \<mapsto> bs @ out)" using w(2) by (simp add: l_def)
  have "sock_paths l" using p(1) wf w(5) by (simp add: sock_paths_def l_def wf_write)
  moreover have "out_stream s'"
    unfolding out_stream_def
    by (rule exI [of _ f], rule exI [of _ "h\<lparr>of_pos := length (bs @ out)\<rparr>"], rule exI [of _ "bs @ out"])
      (use fh w in \<open>simp add: s'_def l_def outbox_def update_conv'\<close>)
  moreover have "reading_ok s'" using p(2) c by (simp add: reading_ok_def s'_def)
  moreover have "unread s' = unread s" using c by (simp add: unread_def s'_def split: option.split)
  ultimately show ?thesis
    using that [OF eq] c w(7) by (simp add: s'_def l_def sock_inv_def outbox_def)
qed

text \<open>The file system the server finds: the outbox became \<open>PGS_IN\<close>.\<close>

lemma handover_eq:
  assumes "sock_inv s" "outbox s = Some bs"
  obtains f l where "fd_FILE s = Some f"
    and "l = snd (rename PGS_ILOCK PGS_IN (fclose f (snd (sdk_fdtell (fd_out s) (os s)))))"
    and "contents l = (contents (os s))(PGS_ILOCK := None, PGS_IN \<mapsto> bs)" and "sock_paths l"
    and "errno l = errno (os s)"
proof -
  from assms obtain f h where
    fh: "fd_FILE s = Some f" "fd_out s = int f" "map_of (opened (os s)) f = Some h"
    and p: "sock_paths (os s)"
    by (auto simp: sock_inv_def out_stream_def)
  define l where "l = snd (rename PGS_ILOCK PGS_IN (fclose f (os s)))"
  have "snd (sdk_fdtell (fd_out s) (os s)) = os s"
    using fh by (simp add: sdk_fdtell_def wasi_fd_seek_cur_def)
  then have l: "l = snd (rename PGS_ILOCK PGS_IN (fclose f (snd (sdk_fdtell (fd_out s) (os s)))))"
    by (simp add: l_def)
  have cl: "contents (fclose f (os s)) = contents (os s)" "path_err (fclose f (os s)) = path_err (os s)"
    by (simp_all add: fclose_def)
  have c: "contents l = (contents (os s))(PGS_ILOCK := None, PGS_IN \<mapsto> bs)"
    using p assms(2) unfolding l_def
    by (subst fs.content_move) (auto simp: cl sock_paths_def outbox_def wf_intros)
  have "path_err l = path_err (os s)" "errno l = errno (os s)"
    using p assms(2) by (auto simp: l_def rename_def cl fclose_def sock_paths_def outbox_def contents_def
        split: option.split)
  then show ?thesis
    using that [OF fh(1) l c] p by (simp add: sock_paths_def l_def wf_intros)
qed

lemma flush_eq:
  assumes "sock_inv s" "outbox s = Some bs" "fd_queue s \<noteq> 0" "peer_ok peer"
    and "fd_current_pos s = 0"
  obtains l s' where "sdk_sock_flush peer s = Return () s'"
    and "contents l = (contents (os s))(PGS_ILOCK := None, PGS_IN \<mapsto> bs)" and "sock_paths l"
    and "contents (os s') = (contents (peer l))(PGS_ILOCK \<mapsto> [])"
    and "sock_inv s'" and "fd_queue s' = 0" and "fd_current_pos s' = 0" and "fd_filesize s' = 0"
    and "watchdog s' = watchdog s"
proof -
  from handover_eq [OF assms(1,2)] obtain f l where
    l: "fd_FILE s = Some f" "l = snd (rename PGS_ILOCK PGS_IN (fclose f (snd (sdk_fdtell (fd_out s) (os s)))))"
      "contents l = (contents (os s))(PGS_ILOCK := None, PGS_IN \<mapsto> bs)" "sock_paths l" .
  have p: "wf_libc (peer l)" "path_err (peer l) = path_err l"
    using assms(4) l(4) by (auto simp: peer_ok_def sock_paths_def)
  then have pe: "path_err (peer l) PGS_ILOCK = None" using l(4) by (simp add: sock_paths_def)
  from fopen_write [OF p(1) pe, of WriteMode] obtain i l' where
    o: "fopen PGS_ILOCK WriteMode (peer l) = (Some (alloc_fd (opened (peer l))), l')"
    "opened l' = (alloc_fd (opened (peer l)),
       \<lparr>of_ino = i, of_pos = 0, of_rd = False, of_wr = True\<rparr>) # opened (peer l)"
    "entries l' PGS_ILOCK = Some i" "contents l' = (contents (peer l))(PGS_ILOCK \<mapsto> [])"
    "path_err l' = path_err (peer l)" "wf_libc l'"
    by (metis fmode.distinct(1))
  define g where "g = alloc_fd (opened (peer l))"
  define s' where "s' = s\<lparr>os := l', fd_FILE := Some g, fd_out := int g, fd_queue := 0\<rparr>"
  have "sdk_sock_flush peer s = Return () s'"
    using assms(3) l(1) o(1) by (simp add: sdk_sock_flush_def Let_def flip: l(2)) (simp add: s'_def g_def)
  moreover have "fd_filesize s = 0" using assms(1,5) by (auto simp: sock_inv_def reading_ok_def)
  moreover have "sock_inv s'"
    using o p l(4) assms(5) calculation(2)
    by (simp add: sock_inv_def sock_paths_def out_stream_def reading_ok_def s'_def outbox_def g_def)
  ultimately show ?thesis using that [OF _ l(3,4)] o(4) assms(5) by (simp add: s'_def)
qed

section \<open>Reading in chunks\<close>

fun read_chunks :: "(nat \<Rightarrow> 's \<Rightarrow> (byte list \<times> 's) option) \<Rightarrow> nat list \<Rightarrow> 's \<Rightarrow> (byte list \<times> 's) option"
where
  "read_chunks recv [] s = Some ([], s)"
| "read_chunks recv (n # ns) s =
     (case recv n s of
        None \<Rightarrow> None
      | Some (xs, s') \<Rightarrow> map_option (\<lambda>(ys, t). (xs @ ys, t)) (read_chunks recv ns s'))"

text \<open>
  The interface of a source of bytes: while it is \<open>ready\<close>, a read of at most \<open>n\<close> bytes takes
  the first \<open>n\<close> of what is available, and the source stays ready until nothing is left.
\<close>

locale byte_source =
  fixes recv :: "nat \<Rightarrow> 's \<Rightarrow> (byte list \<times> 's) option"
    and avail :: "'s \<Rightarrow> byte list"
    and ready :: "'s \<Rightarrow> bool"
    and invar :: "'s \<Rightarrow> bool"
  assumes recv_spec: "ready s \<Longrightarrow> 0 < n \<Longrightarrow>
      \<exists>s'. recv n s = Some (take n (avail s), s') \<and> avail s' = drop n (avail s) \<and> invar s' \<and>
           (n < length (avail s) \<longrightarrow> ready s')"
begin

text \<open>Chunks that together reach the end of the data, and not before the last one, deliver it.\<close>

lemma read_chunks_all:
  assumes "ready s" "0 \<notin> set ns" "ns \<noteq> []" "sum_list (butlast ns) < length (avail s)"
    "length (avail s) \<le> sum_list ns"
  shows "\<exists>s'. read_chunks recv ns s = Some (avail s, s') \<and> avail s' = [] \<and> invar s'"
  using assms
proof (induction ns arbitrary: s)
  case Nil
  then show ?case by simp
next
  case (Cons n ns)
  then have "0 < n" by auto
  from recv_spec [OF Cons.prems(1) this] obtain s' where
    s': "recv n s = Some (take n (avail s), s')" "avail s' = drop n (avail s)" "invar s'"
      "n < length (avail s) \<longrightarrow> ready s'" by blast
  show ?case
  proof (cases "ns = []")
    case True
    with s' Cons.prems(5) show ?thesis by simp
  next
    case False
    with s' Cons.prems have "ready s'" "sum_list (butlast ns) < length (avail s')"
      "length (avail s') \<le> sum_list ns" "0 \<notin> set ns"
      by auto
    from Cons.IH [OF this(1,4) False this(2,3)] s' show ?thesis
      by (auto simp: append_take_drop_id)
  qed
qed

end

text \<open>One \<open>recv\<close> of \<open>n\<close> bytes into a fresh buffer, as libpq calls it: the bytes received.\<close>

definition recv_bytes :: "(libc \<Rightarrow> libc) \<Rightarrow> nat \<Rightarrow> sock \<Rightarrow> (byte list \<times> sock) option" where
  "recv_bytes peer n s =
     (case sdk_recv peer (replicate n 0) n s of
        Return (rcv, buf) s' \<Rightarrow> if rcv < 0 then None else Some (take (nat rcv) buf, s')
      | _ \<Rightarrow> None)"

lemma recv_file_bytes:
  assumes "sock_paths (os s)" "out_stream s" "contents (os s) PGS_OUT = Some out"
    and "length out < 2 ^ 31" "fd_current_pos s = int pos" "pos \<le> length out"
    and "fd_filesize s = 0 \<or> fd_filesize s = int (length out)" "0 < n" "n \<le> length buffer"
  obtains buf s' where
    "recv_file buffer n s = Return (int (length (take n (unread s))), buf) s'"
    and "take (length (take n (unread s))) buf = take n (unread s)"
    and "unread s' = drop n (unread s)" and "sock_inv s'"
    and "n < length (unread s) \<longrightarrow> 0 < fd_current_pos s' \<and> fd_queue s' = fd_queue s"
    and "length (unread s) \<le> n \<longrightarrow> contents (os s') PGS_OUT = None \<and> fd_queue s' = 0 \<and>
           fd_current_pos s' = 0 \<and> watchdog s' = 0"
    and "outbox s' = outbox s"
    and "contents (os s') PGS_OUT = None \<or> contents (os s') PGS_OUT = contents (os s) PGS_OUT"
proof -
  let ?u = "drop pos out"
  have u: "unread s = ?u" using assms(3,5) by (simp add: unread_def)
  have paths: "wf_libc (os s)" "path_err (os s) PGS_OUT = None"
    using assms(1) by (simp_all add: sock_paths_def)
  define s' where "s' = (if n < length ?u
       then s\<lparr>fd_filesize := int (length out), fd_current_pos := int (pos + n)\<rparr>
       else s\<lparr>os := (os s)\<lparr>entries := (entries (os s))(PGS_OUT := None)\<rparr>, fd_queue := 0,
              fd_filesize := 0, fd_current_pos := 0, watchdog := 0\<rparr>)"
  have ne: "buffer \<noteq> []" using assms(8,9) by auto
  have eq: "recv_file buffer n s =
      Return (int (length (take n ?u)), overwrite 0 (take n ?u) (buffer[0 := 0])) s'"
    using recv_file_eq [OF paths(2) assms(3-7,9) ne] assms(8)
    by (auto simp: s'_def min_def)
  have un: "(os s)\<lparr>entries := (entries (os s))(PGS_OUT := None)\<rparr> = snd (unlink PGS_OUT (os s))"
    using paths(2) assms(3) by (auto simp: unlink_def contents_def split: option.split)
  have c: "contents ((os s)\<lparr>entries := (entries (os s))(PGS_OUT := None)\<rparr>) = (contents (os s))(PGS_OUT := None)"
    unfolding un using fs.content_del [OF paths] .
  have wf: "wf_libc ((os s)\<lparr>entries := (entries (os s))(PGS_OUT := None)\<rparr>)"
    unfolding un using wf_unlink [OF paths(1)] .
  have "sock_inv s'"
    using assms(1-4,6,8) c wf
    by (auto simp: sock_inv_def s'_def sock_paths_def out_stream_def reading_ok_def outbox_def)
  moreover have "unread s' = drop n ?u"
    using assms(3) c by (auto simp: s'_def unread_def nat_add_distrib add.commute)
  moreover have "outbox s' = outbox s"
    using c by (simp add: s'_def outbox_def)
  moreover have "n < length ?u \<longrightarrow> 0 < fd_current_pos s' \<and> fd_queue s' = fd_queue s"
    using assms(8) by (simp add: s'_def)
  moreover have "length ?u \<le> n \<longrightarrow> contents (os s') PGS_OUT = None \<and> fd_queue s' = 0 \<and>
      fd_current_pos s' = 0 \<and> watchdog s' = 0"
    using c by (simp add: s'_def)
  moreover have "contents (os s') PGS_OUT = None \<or> contents (os s') PGS_OUT = contents (os s) PGS_OUT"
    using c by (simp add: s'_def)
  ultimately show ?thesis
    using that [OF eq [folded u] take_overwrite_0] unfolding u by blast
qed

text \<open>An answer is being read: everything sent was handed over, and the file goes at its end.\<close>

definition answered :: "sock \<Rightarrow> bool" where
  "answered s \<longleftrightarrow> sock_inv s \<and> fd_queue s = 0 \<and> outbox s = Some [] \<and>
     (unread s = [] \<longrightarrow> contents (os s) PGS_OUT = None)"

definition mid_answer :: "sock \<Rightarrow> bool" where
  "mid_answer s \<longleftrightarrow> answered s \<and> 0 < fd_current_pos s"

lemma recv_bytes_Return:
  assumes "sdk_recv peer (replicate n 0) n s = Return (int (length d), buf) s'"
    and "take (length d) buf = d"
  shows "recv_bytes peer n s = Some (d, s')"
  using assms by (simp add: recv_bytes_def)

lemma recv_bytes_of_file:
  assumes "sdk_recv peer (replicate n 0) n s = recv_file (replicate n 0) n t"
    and "answered t" "contents (os t) PGS_OUT = Some out" "length out < 2 ^ 31"
    and "fd_current_pos t = int pos" "pos \<le> length out"
    and "fd_filesize t = 0 \<or> fd_filesize t = int (length out)" "0 < n"
  shows "\<exists>s'. recv_bytes peer n s = Some (take n (unread t), s') \<and> unread s' = drop n (unread t) \<and>
     answered s' \<and> (n < length (unread t) \<longrightarrow> mid_answer s')"
proof -
  have t: "sock_paths (os t)" "out_stream t" "fd_queue t = 0" "outbox t = Some []"
    using assms(2) by (simp_all add: answered_def sock_inv_def)
  have len: "n \<le> length (replicate n (0 :: byte))" by simp
  from recv_file_bytes [OF t(1,2) assms(3-8) len] obtain buf s' where
    r: "recv_file (replicate n 0) n t = Return (int (length (take n (unread t))), buf) s'"
      "take (length (take n (unread t))) buf = take n (unread t)"
      "unread s' = drop n (unread t)" "sock_inv s'"
      "n < length (unread t) \<longrightarrow> 0 < fd_current_pos s' \<and> fd_queue s' = fd_queue t"
      "length (unread t) \<le> n \<longrightarrow> contents (os s') PGS_OUT = None \<and> fd_queue s' = 0 \<and>
         fd_current_pos s' = 0 \<and> watchdog s' = 0"
      "outbox s' = outbox t" .
  have "answered s'" using r t(3,4) by (auto simp: answered_def not_less)
  moreover have "recv_bytes peer n s = Some (take n (unread t), s')"
    by (rule recv_bytes_Return) (use r(1,2) assms(1) in simp_all)
  ultimately show ?thesis using r(3,5) by (auto simp: mid_answer_def)
qed

interpretation answer: byte_source "recv_bytes peer" unread mid_answer answered for peer
proof unfold_locales
  fix s :: sock and n :: nat
  assume m: "mid_answer s" and n: "0 < n"
  let ?t = "s\<lparr>watchdog := 0\<rparr>"
  obtain out pos where o: "contents (os s) PGS_OUT = Some out" "fd_filesize s = int (length out)"
    "fd_current_pos s = int pos" "0 < pos" "pos \<le> length out" "length out < 2 ^ 31"
    using m by (fastforce simp: mid_answer_def answered_def sock_inv_def reading_ok_def
        dest: zero_less_imp_eq_int)
  have t: "answered ?t" "unread ?t = unread s"
    using m by (simp_all add: mid_answer_def answered_def)
  show "\<exists>s'. recv_bytes peer n s = Some (take n (unread s), s') \<and> unread s' = drop n (unread s) \<and>
          answered s' \<and> (n < length (unread s) \<longrightarrow> mid_answer s')"
    using recv_bytes_of_file [of peer n s ?t out pos] o t n
    by (simp add: sdk_recv_def sdk_recvfrom_def)
qed

text \<open>Several \<open>send\<close>s in a row.\<close>

fun send_all :: "byte list list \<Rightarrow> sock \<Rightarrow> sock" where
  "send_all [] s = s"
| "send_all (b # bs) s = send_all bs (snd (sdk_send b s))"

lemma send_all_outbox:
  assumes "sock_inv s" "outbox s = Some bs" "fd_queue s = int (length bs)"
    and "length (concat bufs) \<le> quota (os s)" "length bs + length (concat bufs) < 2 ^ 31"
  shows "sock_inv (send_all bufs s) \<and> outbox (send_all bufs s) = Some (bs @ concat bufs) \<and>
     fd_queue (send_all bufs s) = int (length (bs @ concat bufs)) \<and>
     fd_current_pos (send_all bufs s) = fd_current_pos s"
  using assms
proof (induction bufs arbitrary: s bs)
  case Nil
  then show ?case by simp
next
  case (Cons b bufs)
  have q: "take (quota (os s)) b = b" "b = [] \<or> 0 < quota (os s)" using Cons.prems(4) by auto
  from sendto_eq [OF Cons.prems(1,2) q(2), unfolded q(1)] obtain s' where
    s': "sdk_sendto b s = (int (length b), s')" "outbox s' = Some (bs @ b)" "sock_inv s'"
      "fd_queue s' = i32 (fd_queue s + i32 (int (length b)))" "fd_current_pos s' = fd_current_pos s"
      "quota (os s') = quota (os s) - length b" .
  have "fd_queue s' = int (length (bs @ b))"
    using s'(4) Cons.prems(3,5) by (simp add: i32_id)
  from Cons.IH [OF s'(3,2) this] show ?case
    using s' Cons.prems(4,5) by (simp add: sdk_send_def)
qed

text \<open>The server's answer depends only on the request it finds in \<open>PGS_IN\<close>.\<close>

definition answers :: "(libc \<Rightarrow> libc) \<Rightarrow> byte list \<Rightarrow> byte list \<Rightarrow> bool" where
  "answers peer req out \<longleftrightarrow>
     (\<forall>l. sock_paths l \<longrightarrow> contents l PGS_IN = Some req \<longrightarrow> contents (peer l) PGS_OUT = Some out)"

lemma connect_inv:
  assumes "sock_paths (os s)" "fd_current_pos s = 0" "fd_filesize s = 0"
  obtains s' where "sdk_connect fd s = Return 0 s'" and "sock_inv s'" and "outbox s' = Some []"
    and "fd_queue s' = 0" and "fd_current_pos s' = 0" and "watchdog s' = watchdog s"
    and "quota (os s') = quota (os s)"
    and "contents (os s') = (contents (os s))(PGS_ILOCK \<mapsto> [])"
proof -
  have p: "wf_libc (os s)" "path_err (os s) PGS_ILOCK = None"
    using assms(1) by (simp_all add: sock_paths_def)
  from fopen_write [OF p, of WriteMode] obtain i l where
    o: "fopen PGS_ILOCK WriteMode (os s) = (Some (alloc_fd (opened (os s))), l)"
    "opened l = (alloc_fd (opened (os s)),
       \<lparr>of_ino = i, of_pos = 0, of_rd = False, of_wr = True\<rparr>) # opened (os s)"
    "entries l PGS_ILOCK = Some i" "contents l = (contents (os s))(PGS_ILOCK \<mapsto> [])"
    "path_err l = path_err (os s)" "wf_libc l" "quota l = quota (os s)"
    by (metis fmode.distinct(1))
  let ?s' = "s\<lparr>fd_queue := 0, os := l, fd_FILE := Some (alloc_fd (opened (os s))),
      fd_out := int (alloc_fd (opened (os s)))\<rparr>"
  have "sock_inv ?s'"
    using o assms by (simp add: sock_inv_def sock_paths_def out_stream_def reading_ok_def outbox_def)
  then show ?thesis using that [of ?s'] o assms(2) by (simp add: sdk_connect_def outbox_def)
qed

section \<open>Waiting for an answer that never comes\<close>

text \<open>\<open>k\<close> calls of \<open>recv\<close> in a row.\<close>

primrec poll :: "(libc \<Rightarrow> libc) \<Rightarrow> nat \<Rightarrow> sock \<Rightarrow> (unit, sock) cres" where
  "poll peer 0 s = Return () s"
| "poll peer (Suc k) s = cbind (poll peer k s) (\<lambda>_ s. cbind (sdk_recv peer [0] 1 s) (\<lambda>_. Return ()))"

lemma recv_nothing:
  assumes "fd_queue s = 0" "fd_current_pos s = 0" "path_err (os s) PGS_OUT = None"
    and "entries (os s) PGS_OUT = None" "watchdog s \<le> 32" "- 2 \<le> watchdog s"
  shows "sdk_recv peer buf n s =
    Return (- 1, buf) (s\<lparr>os := (os s)\<lparr>errno := EINTR\<rparr>, watchdog := watchdog s + 1\<rparr>)"
  using assms
  by (simp add: sdk_recv_def sdk_recvfrom_def sdk_sock_flush_def recv_file_def fopen_def Let_def i32_id)

lemma recv_watchdog:
  assumes "fd_queue s = 0" "fd_current_pos s = 0" "watchdog s = 33"
  shows "sdk_recv peer buf n s = Aborted (s\<lparr>watchdog := 34, mem0 := 0\<rparr>)"
  using assms
  by (simp add: sdk_recv_def sdk_recvfrom_def sdk_sock_flush_def sdk_exit_def Let_def i32_id)

lemma poll_nothing:
  assumes "fd_queue s = 0" "fd_current_pos s = 0" "path_err (os s) PGS_OUT = None"
    and "entries (os s) PGS_OUT = None" "watchdog s = 0"
  shows "Suc k \<le> 33 \<Longrightarrow> poll peer (Suc k) s =
      Return () (s\<lparr>os := (os s)\<lparr>errno := EINTR\<rparr>, watchdog := int (Suc k)\<rparr>)"
proof (induction k)
  case 0
  then show ?case using assms by (simp add: recv_nothing)
next
  case (Suc k)
  then show ?case using assms by (subst poll.simps(2)) (simp add: recv_nothing del: poll.simps)
qed

lemma flush_idle: "fd_queue s = 0 \<Longrightarrow> watchdog s = 0 \<Longrightarrow> sdk_sock_flush peer s = Return () (s\<lparr>watchdog := 1\<rparr>)"
  by (simp add: sdk_sock_flush_def Let_def)


section \<open>The client as a transition system\<close>

definition small_answer :: "libc \<Rightarrow> bool" where
  "small_answer l \<longleftrightarrow> (\<forall>out. contents l PGS_OUT = Some out \<longrightarrow> length out < 2 ^ 31)"

definition client_inv :: "sock \<Rightarrow> bool" where
  "client_inv s \<longleftrightarrow> sock_inv s \<and> small_answer (os s)"

inductive client_step :: "(libc \<Rightarrow> libc) \<Rightarrow> sock \<Rightarrow> sock \<Rightarrow> bool" for peer where
  send: "sdk_send buf s = (r, s') \<Longrightarrow> client_step peer s s'"
| recv: "0 < n \<Longrightarrow> n \<le> length buf \<Longrightarrow> sdk_recv peer buf n s = Return r s' \<Longrightarrow> client_step peer s s'"
| flush: "sdk_sock_flush peer s = Return () s' \<Longrightarrow> client_step peer s s'"

text \<open>A client that flushes only between answers, as \<open>sdk_recvfrom\<close> does; libpq's \<open>pqFlush\<close> does not test for it.\<close>

inductive orderly_step :: "(libc \<Rightarrow> libc) \<Rightarrow> sock \<Rightarrow> sock \<Rightarrow> bool" for peer where
  send: "sdk_send buf s = (r, s') \<Longrightarrow> orderly_step peer s s'"
| recv: "0 < n \<Longrightarrow> n \<le> length buf \<Longrightarrow> sdk_recv peer buf n s = Return r s' \<Longrightarrow> orderly_step peer s s'"
| flush: "fd_current_pos s = 0 \<Longrightarrow> sdk_sock_flush peer s = Return () s' \<Longrightarrow> orderly_step peer s s'"

lemma errno_frame:
  "sock_inv (s\<lparr>os := (os s)\<lparr>errno := e\<rparr>\<rparr>) = sock_inv s"
  "small_answer (l\<lparr>errno := e\<rparr>) = small_answer l"
  by (simp_all add: sock_inv_def sock_paths_def out_stream_def reading_ok_def outbox_def small_answer_def)

lemma queue_frame: "sock_inv (s\<lparr>watchdog := w, fd_queue := q\<rparr>) = sock_inv s"
  by (simp add: sock_inv_def out_stream_def reading_ok_def outbox_def)

lemma send_client_inv:
  assumes "client_inv s"
  shows "client_inv (snd (sdk_send buf s))"
proof (cases "buf = [] \<or> 0 < quota (os s)")
  case True
  obtain bs where bs: "outbox s = Some bs" "sock_inv s"
    using assms by (auto simp: client_inv_def sock_inv_def out_stream_def)
  from sendto_eq [OF bs(2,1) True] obtain s' where
    "snd (sdk_send buf s) = s'" "sock_inv s'"
    "contents (os s') = (contents (os s))(PGS_ILOCK \<mapsto> bs @ take (quota (os s)) buf)"
    unfolding sdk_send_def by (metis snd_conv)
  then show ?thesis using assms by (simp add: client_inv_def small_answer_def)
next
  case False
  from assms obtain f h where "fd_out s = int f" "map_of (opened (os s)) f = Some h" "of_wr h"
    by (auto simp: client_inv_def sock_inv_def out_stream_def)
  with False have "snd (sdk_send buf s) =
      s\<lparr>os := (os s)\<lparr>errno := ENOSPC\<rparr>, watchdog := 0, fd_queue := i32 (fd_queue s - 1)\<rparr>"
    by (simp add: sdk_send_def sdk_sendto_def fd_write_def)
  then show ?thesis using assms errno_frame queue_frame by (simp add: client_inv_def)
qed

lemma recv_file_client_inv:
  assumes "client_inv s" "0 < n" "n \<le> length buffer"
  shows "\<exists>r s'. recv_file buffer n s = Return r s' \<and> client_inv s'"
proof (cases "contents (os s) PGS_OUT")
  case None
  then have "recv_file buffer n s = Return (- 1, buffer) (s\<lparr>os := (os s)\<lparr>errno := EINTR\<rparr>\<rparr>)"
    using assms(1) by (simp add: recv_file_def fopen_def contents_def client_inv_def sock_inv_def
        sock_paths_def)
  then show ?thesis using assms(1) errno_frame by (simp add: client_inv_def)
next
  case (Some out)
  have p: "sock_paths (os s)" "out_stream s" "length out < 2 ^ 31"
    using assms(1) Some by (simp_all add: client_inv_def sock_inv_def small_answer_def)
  obtain pos where pos: "fd_current_pos s = int pos" "pos \<le> length out"
      "fd_filesize s = 0 \<or> fd_filesize s = int (length out)"
    using assms(1) Some
    by (fastforce simp: client_inv_def sock_inv_def reading_ok_def dest: zero_less_imp_eq_int)
  from recv_file_bytes [OF p(1,2) Some p(3) pos assms(2,3)] obtain buf s' where
    "recv_file buffer n s = Return (int (length (take n (unread s))), buf) s'" "sock_inv s'"
    "contents (os s') PGS_OUT = None \<or> contents (os s') PGS_OUT = contents (os s) PGS_OUT" .
  then show ?thesis using assms(1) by (auto simp: client_inv_def small_answer_def)
qed

lemma flush_client_inv:
  assumes "client_inv s" "peer_ok peer" "\<And>l. sock_paths l \<Longrightarrow> small_answer (peer l)" "fd_current_pos s = 0"
  shows "(\<exists>s'. sdk_sock_flush peer s = Return () s' \<and> client_inv s' \<and> fd_current_pos s' = 0) \<or>
     (\<exists>t. sdk_sock_flush peer s = Aborted t \<and> 32 < watchdog s)"
proof (cases "fd_queue s = 0")
  case True
  then show ?thesis using assms(1,4)
    by (simp add: sdk_sock_flush_def sdk_exit_def Let_def client_inv_def)
next
  case False
  obtain bs where bs: "outbox s = Some bs" "sock_inv s"
    using assms(1) by (auto simp: client_inv_def sock_inv_def out_stream_def)
  from flush_eq [OF bs(2,1) False assms(2,4)] obtain l s' where
    "sdk_sock_flush peer s = Return () s'" "sock_paths l"
    "contents (os s') = (contents (peer l))(PGS_ILOCK \<mapsto> [])" "sock_inv s'" "fd_current_pos s' = 0" .
  then show ?thesis using assms(3) [of l] by (simp add: client_inv_def small_answer_def)
qed

text \<open>Every call of the client returns in a good state or is the watchdog's abort.\<close>

lemma recv_client_inv:
  assumes "client_inv s" "peer_ok peer" "\<And>l. sock_paths l \<Longrightarrow> small_answer (peer l)" "0 < n" "n \<le> length buf"
  shows "(\<exists>r s'. sdk_recv peer buf n s = Return r s' \<and> client_inv s') \<or>
     (\<exists>t. sdk_recv peer buf n s = Aborted t \<and> 32 < watchdog s)"
proof (cases "fd_current_pos s = 0")
  case True
  from flush_client_inv [OF assms(1-3) True] consider
      s' where "sdk_sock_flush peer s = Return () s'" "client_inv s'"
    | t where "sdk_sock_flush peer s = Aborted t" "32 < watchdog s" by blast
  then show ?thesis
  proof cases
    case 1
    with True recv_file_client_inv [OF 1(2) assms(4,5)] show ?thesis
      by (simp add: sdk_recv_def sdk_recvfrom_def)
  next
    case 2
    with True show ?thesis by (simp add: sdk_recv_def sdk_recvfrom_def)
  qed
next
  case False
  have "client_inv (s\<lparr>watchdog := 0\<rparr>)" using assms(1) by (simp add: client_inv_def)
  from recv_file_client_inv [OF this assms(4,5)] False show ?thesis
    by (simp add: sdk_recv_def sdk_recvfrom_def)
qed

lemma orderly_step_inv:
  assumes "orderly_step peer s s'" "peer_ok peer" "\<And>l. sock_paths l \<Longrightarrow> small_answer (peer l)" "client_inv s"
  shows "client_inv s'"
  using assms(1)
proof cases
  case (send buf r)
  then show ?thesis using send_client_inv [OF assms(4), of buf] by simp
next
  case (recv n buf r)
  from recv_client_inv [OF assms(4,2,3) recv(1,2)] recv(3) show ?thesis by simp
next
  case flush
  from flush_client_inv [OF assms(4,2,3) flush(1)] flush(2) show ?thesis by simp
qed

text \<open>
  What remains true when a flush comes in the middle of an answer: the outbox is open, and the position is that of
  some answer, though not necessarily of the one that is there now.
\<close>

definition conn_inv :: "sock \<Rightarrow> bool" where
  "conn_inv s \<longleftrightarrow> sock_paths (os s) \<and> out_stream s \<and> small_answer (os s) \<and>
     0 \<le> fd_current_pos s \<and> fd_current_pos s < 2 ^ 31"

text \<open>The read position plays no part in sending and flushing.\<close>

definition rewound :: "sock \<Rightarrow> sock" where
  "rewound s = s\<lparr>fd_current_pos := 0, fd_filesize := 0\<rparr>"

lemma rewound_inv: "client_inv (rewound s) \<longleftrightarrow> sock_paths (os s) \<and> out_stream s \<and> small_answer (os s)"
  by (simp add: client_inv_def sock_inv_def rewound_def reading_ok_def out_stream_def outbox_def)

lemma conn_rewound: "conn_inv s \<longleftrightarrow> client_inv (rewound s) \<and> 0 \<le> fd_current_pos s \<and> fd_current_pos s < 2 ^ 31"
  by (auto simp: conn_inv_def rewound_inv)

lemma client_conn: "client_inv s \<Longrightarrow> conn_inv s"
  by (auto simp: client_inv_def conn_inv_def sock_inv_def reading_ok_def)

lemma send_rewound: "snd (sdk_send buf (rewound s)) = rewound (snd (sdk_send buf s))"
  "fd_current_pos (snd (sdk_send buf s)) = fd_current_pos s"
  by (simp_all add: sdk_send_def sdk_sendto_def rewound_def split: prod.split)

lemma flush_rewound:
  "sdk_sock_flush peer (rewound s) = (case sdk_sock_flush peer s of
     Return u t \<Rightarrow> Return u (rewound t) | Aborted t \<Rightarrow> Aborted (rewound t) | Undefined \<Rightarrow> Undefined)"
  "sdk_sock_flush peer s = Return () t \<Longrightarrow> fd_current_pos t = fd_current_pos s"
  by (auto simp: sdk_sock_flush_def sdk_exit_def rewound_def Let_def split: option.splits prod.splits if_splits)

lemma send_conn_inv: "conn_inv s \<Longrightarrow> conn_inv (snd (sdk_send buf s))"
  using send_client_inv [of "rewound s" buf] by (simp add: conn_rewound send_rewound)

lemma flush_conn_inv:
  assumes "conn_inv s" "peer_ok peer" "\<And>l. sock_paths l \<Longrightarrow> small_answer (peer l)"
  shows "(\<exists>s'. sdk_sock_flush peer s = Return () s' \<and> conn_inv s') \<or>
    (\<exists>t. sdk_sock_flush peer s = Aborted t \<and> 32 < watchdog s)"
proof -
  have "client_inv (rewound s)" "fd_current_pos (rewound s) = 0" "watchdog (rewound s) = watchdog s"
    using assms(1) by (simp_all add: conn_rewound rewound_def)
  from flush_client_inv [OF this(1) assms(2,3) this(2)] this(3) consider
      t where "sdk_sock_flush peer (rewound s) = Return () t" "client_inv t"
    | t where "sdk_sock_flush peer (rewound s) = Aborted t" "32 < watchdog s" by metis
  then show ?thesis
  proof cases
    case 1
    then obtain s' where "sdk_sock_flush peer s = Return () s'" "t = rewound s'"
      by (auto simp: flush_rewound(1) split: cres.splits)
    then show ?thesis using 1(2) assms(1) flush_rewound(2) [of peer s s'] by (auto simp: conn_rewound)
  next
    case 2
    then show ?thesis by (auto simp: flush_rewound(1) split: cres.splits)
  qed
qed

lemma recv_file_conn_inv:
  assumes "conn_inv s" "0 < n" "n \<le> length buffer"
  shows "\<exists>r s'. recv_file buffer n s = Return r s' \<and> conn_inv s'"
proof (cases "contents (os s) PGS_OUT")
  case None
  then have "recv_file buffer n s = Return (- 1, buffer) (s\<lparr>os := (os s)\<lparr>errno := EINTR\<rparr>\<rparr>)"
    using assms(1) by (simp add: recv_file_def fopen_def contents_def conn_inv_def sock_paths_def)
  then show ?thesis using assms(1)
    by (simp add: conn_inv_def sock_paths_def out_stream_def outbox_def small_answer_def)
next
  case (Some out)
  have out: "wf_libc (os s)" "path_err (os s) PGS_OUT = None" "length out < 2 ^ 31"
    using assms(1) Some by (simp_all add: conn_inv_def small_answer_def sock_paths_def)
  define pos where "pos = nat (fd_current_pos s)"
  have pos: "fd_current_pos s = int pos" "pos < 2 ^ 31" using assms(1) by (auto simp: pos_def conn_inv_def)
  define d where "d = take n (drop pos out)"
  have "pos + length d \<le> max pos (length out)" by (auto simp: d_def)
  with out(3) pos(2) have "pos + length d < 2 ^ 31" by linarith
  then have small: "int (pos + length d) < 2 ^ 31" by simp
  have ne: "buffer \<noteq> []" using assms(2,3) by auto
  let ?del = "(os s)\<lparr>entries := (entries (os s))(PGS_OUT := None)\<rparr>"
  have "?del = snd (unlink PGS_OUT (os s))"
    using out(2) Some by (auto simp: unlink_def contents_def split: option.split)
  then have del: "contents ?del = (contents (os s))(PGS_OUT := None)" "wf_libc ?del"
    using fs.content_del [OF out(1,2)] wf_unlink [OF out(1), of PGS_OUT] by simp_all
  from recv_file_run [OF out(2) Some out(3) pos assms(3) ne] show ?thesis
    unfolding d_def [symmetric] using assms(1) small del
    by (auto simp: conn_inv_def sock_paths_def out_stream_def outbox_def small_answer_def)
qed

lemma recv_conn_inv:
  assumes "conn_inv s" "peer_ok peer" "\<And>l. sock_paths l \<Longrightarrow> small_answer (peer l)" "0 < n" "n \<le> length buf"
  shows "(\<exists>r s'. sdk_recv peer buf n s = Return r s' \<and> conn_inv s') \<or>
    (\<exists>t. sdk_recv peer buf n s = Aborted t \<and> 32 < watchdog s)"
proof (cases "fd_current_pos s = 0")
  case True
  from flush_conn_inv [OF assms(1-3)] consider
      s' where "sdk_sock_flush peer s = Return () s'" "conn_inv s'"
    | t where "sdk_sock_flush peer s = Aborted t" "32 < watchdog s" by blast
  then show ?thesis
  proof cases
    case 1
    with True recv_file_conn_inv [OF 1(2) assms(4,5)] show ?thesis by (simp add: sdk_recv_def sdk_recvfrom_def)
  next
    case 2
    with True show ?thesis by (simp add: sdk_recv_def sdk_recvfrom_def)
  qed
next
  case False
  have "conn_inv (s\<lparr>watchdog := 0\<rparr>)" using assms(1) by (simp add: conn_inv_def out_stream_def)
  from recv_file_conn_inv [OF this assms(4,5)] False show ?thesis by (simp add: sdk_recv_def sdk_recvfrom_def)
qed

lemma client_step_inv:
  assumes "client_step peer s s'" "peer_ok peer" "\<And>l. sock_paths l \<Longrightarrow> small_answer (peer l)" "conn_inv s"
  shows "conn_inv s'"
  using assms(1)
proof cases
  case (send buf r)
  then show ?thesis using send_conn_inv [OF assms(4), of buf] by simp
next
  case (recv n buf r)
  from recv_conn_inv [OF assms(4,2,3) recv(1,2)] recv(3) show ?thesis by simp
next
  case flush
  from flush_conn_inv [OF assms(4,2,3)] flush show ?thesis by simp
qed


section \<open>A concrete system for the witnesses\<close>

text \<open>A server that answers a request with its bytes, each increased by one.\<close>

definition echo :: "libc \<Rightarrow> libc" where
  "echo l = (case contents l PGS_IN of
               None \<Rightarrow> l
             | Some req \<Rightarrow> put_file PGS_OUT (map (\<lambda>b. b + 1) req) (l\<lparr>quota := length req\<rparr>))"

lemma echo_peer_ok: "peer_ok echo"
  by (auto simp: peer_ok_def echo_def wf_put_file split: option.split)

lemma echo_answers: "answers echo req (map (\<lambda>b. b + 1) req)"
  by (simp add: answers_def echo_def sock_paths_def fs.content_put)

lemma init_libc_paths: "sock_paths init_libc"
  by (simp add: sock_paths_def init_libc_def wf_libc_def path_err_def pgs_defs)

lemma init_connected:
  obtains s where "sdk_connect 3 (init_sock init_libc) = Return 0 s" and "sock_inv s"
    and "outbox s = Some []" and "fd_queue s = 0" and "fd_current_pos s = 0"
    and "quota (os s) = 4096" and "watchdog s = 0" and "contents (os s) PGS_OUT = None"
proof -
  let ?s = "init_sock init_libc"
  have i: "sock_paths (os ?s)" "fd_current_pos ?s = 0" "fd_filesize ?s = 0" "watchdog ?s = 0"
    "quota (os ?s) = 4096" "contents (os ?s) PGS_OUT = None"
    using init_libc_paths by (simp_all add: init_sock_def) (simp_all add: init_libc_def contents_def)
  from connect_inv [OF i(1-3), of 3] obtain s where
    "sdk_connect 3 ?s = Return 0 s" "sock_inv s" "outbox s = Some []" "fd_queue s = 0"
    "fd_current_pos s = 0" "watchdog s = watchdog ?s" "quota (os s) = quota (os ?s)"
    "contents (os s) = (contents (os ?s))(PGS_ILOCK \<mapsto> [])" .
  then show ?thesis using that i(4-6) by simp
qed

text \<open>The state after one chunk of one byte of the answer to a request of two bytes.\<close>

lemma mid_answer_example:
  obtains s where "sock_inv s" and "0 < fd_current_pos s" and "outbox s = Some []"
    and "unread s = [21]" and "fd_current_pos s = 1"
proof -
  obtain s0 where s0: "sock_inv s0" "outbox s0 = Some []" "fd_queue s0 = 0" "fd_current_pos s0 = 0"
    "quota (os s0) = 4096" by (rule init_connected)
  define s1 where "s1 = send_all [[10, 20]] s0"
  have s1: "sock_inv s1" "outbox s1 = Some [10, 20]" "fd_queue s1 \<noteq> 0" "fd_current_pos s1 = 0"
    using send_all_outbox [OF s0(1,2), of "[[10, 20]]"] s0 by (simp_all add: s1_def)
  from flush_eq [OF s1(1,2,3) echo_peer_ok s1(4)] obtain l s2 where
    s2: "sdk_sock_flush echo s1 = Return () s2"
      "contents l = (contents (os s1))(PGS_ILOCK := None, PGS_IN \<mapsto> [10, 20])" "sock_paths l"
      "contents (os s2) = (contents (echo l))(PGS_ILOCK \<mapsto> [])" "sock_inv s2" "fd_queue s2 = 0"
      "fd_current_pos s2 = 0" "fd_filesize s2 = 0" .
  have out: "contents (os s2) PGS_OUT = Some [11, 21]"
    using echo_answers [of "[10, 20]"] s2(2,3,4) by (simp add: answers_def)
  have u: "unread s2 = [11, 21]" using out s2(7) by (simp add: unread_def)
  have a: "answered s2" using s2 u by (simp add: answered_def outbox_def)
  have r: "sdk_recv echo (replicate 1 0) 1 s1 = recv_file (replicate 1 0) 1 s2"
    using s1(4) s2(1) by (simp add: sdk_recv_def sdk_recvfrom_def)
  from recv_bytes_of_file [OF r a out, of 0] s2(7,8) u obtain s where
    s: "recv_bytes echo 1 s1 = Some ([11], s)" "unread s = [21]" "mid_answer s" by auto
  have "path_err (os s2) PGS_OUT = None" using s2(5) by (simp add: sock_inv_def sock_paths_def)
  from recv_file_eq [OF this out, of 0 1 "replicate 1 0"] s2(7,8) have
    "recv_file (replicate 1 0) 1 s2 = Return (1, overwrite 0 [11] [0]) (s2\<lparr>fd_filesize := 2, fd_current_pos := 1\<rparr>)"
    by simp
  with r s(1) have "fd_current_pos s = 1" by (auto simp: recv_bytes_def split: prod.splits if_splits)
  then show ?thesis using that [of s] s by (simp add: mid_answer_def answered_def)
qed

section \<open>Properties\<close>

text \<open>
  C1. A complete exchange over the emulated socket: from a connected state with nothing
  pending, whatever chunks the client sends, the server finds exactly their concatenation in
  \<open>PGS_IN\<close>; reading with any sizes that just reach the end of the answer returns exactly the
  server's answer, in order and without loss, removes \<open>PGS_OUT\<close> and leaves the socket in the
  state the exchange started from.
\<close>

theorem request_reply:
  assumes "sock_inv s" "outbox s = Some []" "fd_queue s = 0" "fd_current_pos s = 0"
    and "concat bufs \<noteq> []" "length (concat bufs) \<le> quota (os s)" "length (concat bufs) < 2 ^ 31"
    and "peer_ok peer" "answers peer (concat bufs) out" "out \<noteq> []" "length out < 2 ^ 31"
    and "ns \<noteq> []" "0 \<notin> set ns" "sum_list (butlast ns) < length out" "length out \<le> sum_list ns"
  shows "\<exists>s'. read_chunks (recv_bytes peer) ns (send_all bufs s) = Some (out, s') \<and>
           sock_inv s' \<and> outbox s' = Some [] \<and> fd_queue s' = 0 \<and> fd_current_pos s' = 0 \<and>
           contents (os s') PGS_OUT = None"
proof -
  define s1 where "s1 = send_all bufs s"
  have s1: "sock_inv s1" "outbox s1 = Some (concat bufs)" "fd_queue s1 \<noteq> 0" "fd_current_pos s1 = 0"
    using send_all_outbox [OF assms(1,2), of bufs] assms(3-7) by (simp_all add: s1_def)
  from flush_eq [OF s1(1,2,3) assms(8) s1(4)] obtain l s2 where
    s2: "sdk_sock_flush peer s1 = Return () s2"
      "contents l = (contents (os s1))(PGS_ILOCK := None, PGS_IN \<mapsto> concat bufs)" "sock_paths l"
      "contents (os s2) = (contents (peer l))(PGS_ILOCK \<mapsto> [])"
      "sock_inv s2" "fd_queue s2 = 0" "fd_current_pos s2 = 0" "fd_filesize s2 = 0" .
  have out: "contents (os s2) PGS_OUT = Some out"
    using assms(9) s2(2,3,4) by (simp add: answers_def)
  then have u: "unread s2 = out" using s2(7) by (simp add: unread_def)
  have a2: "answered s2" using s2 u assms(10) by (simp add: answered_def outbox_def)
  obtain n ns' where ns: "ns = n # ns'" "0 < n" using assms(12,13) by (cases ns) auto
  have "sdk_recv peer (replicate n 0) n s1 = recv_file (replicate n 0) n s2"
    using s1(4) s2(1) by (simp add: sdk_recv_def sdk_recvfrom_def)
  from recv_bytes_of_file [OF this a2 out assms(11), of 0] s2(7,8) ns(2) u obtain s3 where
    s3: "recv_bytes peer n s1 = Some (take n out, s3)" "unread s3 = drop n out" "answered s3"
      "n < length out \<longrightarrow> mid_answer s3" by auto
  have "\<exists>s'. read_chunks (recv_bytes peer) ns s1 = Some (out, s') \<and> unread s' = [] \<and> answered s'"
  proof (cases "ns' = []")
    case True
    with s3 ns assms(15) show ?thesis by simp
  next
    case False
    with s3 ns assms(13-15) have "\<exists>s'. read_chunks (recv_bytes peer) ns' s3 = Some (unread s3, s') \<and>
        unread s' = [] \<and> answered s'"
      by (intro answer.read_chunks_all) auto
    with s3 ns show ?thesis by auto
  qed
  then show ?thesis by (auto simp: s1_def answered_def sock_inv_def reading_ok_def)
qed

theorem request_reply_witness:
  "\<exists>s s'. sdk_connect 3 (init_sock init_libc) = Return 0 s \<and>
     read_chunks (recv_bytes echo) [2, 1, 5] (send_all [[10, 20], [30, 40]] s) = Some ([11, 21, 31, 41], s')"
proof -
  obtain s where "sdk_connect 3 (init_sock init_libc) = Return 0 s" "sock_inv s" "outbox s = Some []"
    "fd_queue s = 0" "fd_current_pos s = 0" "quota (os s) = 4096" by (rule init_connected)
  with request_reply [of s "[[10, 20], [30, 40]]" echo "[11, 21, 31, 41]" "[2, 1, 5]"]
    echo_peer_ok echo_answers [of "[10, 20, 30, 40]"]
  show ?thesis by auto
qed

text \<open>
  C2. Safety of the client: after any sequence of sends, receives of at least one byte and flushes that
  returned, at any point of an answer, the outbox is still open at its end and the read position is in range, and
  so they are after one more send; unless the watchdog has counted more than 32 fruitless flushes, the next receive and the next flush return,
  and in such a state again. When every flush came between answers, as those of \<open>sdk_recvfrom\<close> do, the
  read position also belongs to the answer that is there. The server is only assumed to keep the file system
  well-formed and to answer with less than 2 GB. Nothing is said of a call that reaches \<open>sdk_exit\<close>.
\<close>

theorem client_safe:
  assumes "sdk_connect fd (init_sock l) = Return r s0" "sock_paths l" "small_answer l"
    and "peer_ok peer" "\<forall>l. sock_paths l \<longrightarrow> small_answer (peer l)" "(client_step peer)\<^sup>*\<^sup>* s0 s"
    and "0 < n" "n \<le> length buf"
  shows "conn_inv s \<and> conn_inv (snd (sdk_send xs s)) \<and>
    (watchdog s \<le> 32 \<longrightarrow> (\<exists>r t. sdk_recv peer buf n s = Return r t \<and> conn_inv t) \<and>
       (\<exists>t. sdk_sock_flush peer s = Return () t \<and> conn_inv t)) \<and>
    ((orderly_step peer)\<^sup>*\<^sup>* s0 s \<longrightarrow> sock_inv s)"
proof -
  have small: "\<And>l. sock_paths l \<Longrightarrow> small_answer (peer l)" using assms(5) by simp
  have i: "sock_paths (os (init_sock l))" "fd_current_pos (init_sock l) = 0"
    "fd_filesize (init_sock l) = 0" "os (init_sock l) = l"
    using assms(2) by (simp_all add: init_sock_def)
  from connect_inv [OF i(1-3), of fd] assms(1) obtain s' where
    "s' = s0" "sock_inv s'" "contents (os s') = (contents l)(PGS_ILOCK \<mapsto> [])"
    unfolding i(4) by (metis cres.inject(1))
  then have s0: "client_inv s0" using assms(3) by (simp add: client_inv_def small_answer_def)
  from assms(6) have s: "conn_inv s"
  proof (induction rule: rtranclp_induct)
    case (step y z)
    from step.hyps(2) assms(4) small step.IH show ?case by (rule client_step_inv)
  qed (rule client_conn [OF s0])
  have "client_inv s" if "(orderly_step peer)\<^sup>*\<^sup>* s0 s"
    using that
  proof (induction rule: rtranclp_induct)
    case (step y z)
    from step.hyps(2) assms(4) small step.IH show ?case by (rule orderly_step_inv)
  qed (rule s0)
  then show ?thesis
    using recv_conn_inv [OF s assms(4) small assms(7,8)] flush_conn_inv [OF s assms(4) small]
      send_conn_inv [OF s, of xs] s by (auto simp: client_inv_def)
qed

definition silent :: "libc \<Rightarrow> libc" where
  "silent l = snd (unlink PGS_OUT l)"

lemma silent_ok: "peer_ok silent" "sock_paths l \<Longrightarrow> small_answer (silent l)"
  using wf_unlink fs.content_del [of l PGS_OUT]
  by (auto simp: peer_ok_def silent_def small_answer_def sock_paths_def unlink_def split: option.split)

theorem client_safe_witness:
  "\<exists>s0. sdk_connect 3 (init_sock init_libc) = Return 0 s0 \<and>
     sock_inv (snd (sdk_send [1, 2, 3] s0)) \<and>
     (\<exists>r t. sdk_recv silent [0, 0] 2 (snd (sdk_send [1, 2, 3] s0)) = Return r t \<and> conn_inv t)"
proof -
  obtain s0 where c: "sdk_connect 3 (init_sock init_libc) = Return 0 s0" "watchdog s0 = 0" by (rule init_connected)
  let ?s = "snd (sdk_send [1, 2, 3] s0)"
  have step: "(client_step silent)\<^sup>*\<^sup>* s0 ?s" "(orderly_step silent)\<^sup>*\<^sup>* s0 ?s"
    by (rule r_into_rtranclp, rule client_step.send orderly_step.send, rule prod.collapse [symmetric])+
  have "watchdog ?s \<le> 32" by (simp add: sdk_send_def sdk_sendto_def split: prod.split)
  moreover have "small_answer init_libc" by (simp add: small_answer_def init_libc_def contents_def)
  ultimately show ?thesis
    using client_safe [OF c(1) init_libc_paths _ silent_ok(1) _ step(1), of 2 "[0, 0]"] silent_ok(2) c(1) step(2)
    by auto
qed

text \<open>
  C3. Connecting: with \<open>PGS_ILOCK\<close> accessible, \<open>sdk_connect\<close> returns 0 and establishes the socket
  invariant with an empty outbox and an empty queue; otherwise it aborts, with the stream null
  and the error of the path in \<open>errno\<close>.
\<close>

theorem connect_outcome:
  assumes "wf_libc (os s)" "path_err (os s) PGS_IN = None" "path_err (os s) PGS_OUT = None"
    and "fd_current_pos s = 0" "fd_filesize s = 0"
  shows "case path_err (os s) PGS_ILOCK of
      None \<Rightarrow> \<exists>s'. sdk_connect fd s = Return 0 s' \<and> sock_inv s' \<and> outbox s' = Some [] \<and> fd_queue s' = 0
    | Some e \<Rightarrow> \<exists>t. sdk_connect fd s = Aborted t \<and> errno (os t) = e \<and> fd_FILE t = None"
proof (cases "path_err (os s) PGS_ILOCK")
  case None
  then have "sock_paths (os s)" using assms by (simp add: sock_paths_def)
  from connect_inv [OF this assms(4,5), of fd] None show ?thesis by auto
next
  case (Some e)
  then show ?thesis by (simp add: sdk_connect_def fopen_def)
qed

theorem connect_outcome_witness:
  "(\<exists>s'. sdk_connect 3 (init_sock init_libc) = Return 0 s' \<and> sock_inv s') \<and>
   (\<exists>t. sdk_connect 3 (init_sock (init_libc\<lparr>lookup_err := [PGS_ILOCK \<mapsto> ENOENT]\<rparr>)) = Aborted t)"
proof -
  let ?l = "init_libc\<lparr>lookup_err := [PGS_ILOCK \<mapsto> ENOENT]\<rparr>"
  have wf: "wf_libc init_libc" "wf_libc ?l"
    using init_libc_paths by (simp_all add: sock_paths_def wf_libc_def)
  have ok: "path_err init_libc p = None" if "p \<in> {PGS_ILOCK, PGS_IN, PGS_OUT}" for p
    using that init_libc_paths by (auto simp: sock_paths_def)
  have bad: "path_err ?l PGS_ILOCK = Some ENOENT" "path_err ?l PGS_IN = None" "path_err ?l PGS_OUT = None"
    by (simp_all add: path_err_def) (simp_all add: pgs_defs)
  show ?thesis
    using connect_outcome [of "init_sock init_libc" 3] connect_outcome [of "init_sock ?l" 3] wf ok bad
    by (auto simp: init_sock_def)
qed

text \<open>
  C4. Flushing hands the request over atomically: the server runs on a file system in which
  \<open>PGS_IN\<close> holds all the bytes sent, \<open>PGS_ILOCK\<close> does not exist and every other file is as the
  client left it; afterwards the client has a new, empty outbox, the queue is empty and the
  socket invariant holds.
\<close>

theorem flush_hands_over:
  assumes "sock_inv s" "outbox s = Some bs" "fd_queue s \<noteq> 0" "fd_current_pos s = 0" "peer_ok peer"
  shows "\<exists>l s'. sdk_sock_flush peer s = Return () s' \<and>
     contents l = (contents (os s))(PGS_ILOCK := None, PGS_IN \<mapsto> bs) \<and>
     contents (os s') = (contents (peer l))(PGS_ILOCK \<mapsto> []) \<and> fd_queue s' = 0 \<and> sock_inv s'"
  using flush_eq [OF assms(1,2,3,5,4)] by metis

theorem flush_hands_over_witness:
  "\<exists>s s'. sock_inv s \<and> outbox s = Some [10, 20] \<and> sdk_sock_flush echo s = Return () s' \<and> fd_queue s' = 0"
proof -
  obtain s0 where s0: "sock_inv s0" "outbox s0 = Some []" "fd_queue s0 = 0" "fd_current_pos s0 = 0"
    "quota (os s0) = 4096" by (rule init_connected)
  have "sock_inv (send_all [[10, 20]] s0)" "outbox (send_all [[10, 20]] s0) = Some [10, 20]"
    "fd_queue (send_all [[10, 20]] s0) \<noteq> 0" "fd_current_pos (send_all [[10, 20]] s0) = 0"
    using send_all_outbox [OF s0(1,2), of "[[10, 20]]"] s0 by simp_all
  from flush_hands_over [OF this echo_peer_ok] this(1,2) show ?thesis by blast
qed

text \<open>
  C5. The watchdog ends busy waiting: with nothing queued and no answer, exactly 33 receives in
  a row return \<open>-1\<close> with \<open>EINTR\<close>, and every longer run is ended by an abort.
\<close>

theorem poll_bounded:
  assumes "fd_queue s = 0" "fd_current_pos s = 0" "path_err (os s) PGS_OUT = None"
    and "entries (os s) PGS_OUT = None" "watchdog s = 0"
  shows "(\<exists>t. poll peer 33 s = Return () t \<and> errno (os t) = EINTR) \<and>
         (\<exists>t. poll peer (34 + k) s = Aborted t)"
proof -
  have p: "poll peer 33 s = Return () (s\<lparr>os := (os s)\<lparr>errno := EINTR\<rparr>, watchdog := 33\<rparr>)"
    using poll_nothing [OF assms, of 32 peer] by simp
  moreover have "\<exists>t. poll peer (34 + k) s = Aborted t"
  proof (induction k)
    case 0
    have "poll peer (Suc 33) s = Aborted (s\<lparr>os := (os s)\<lparr>errno := EINTR\<rparr>, watchdog := 34, mem0 := 0\<rparr>)"
      by (subst poll.simps(2)) (simp add: p recv_watchdog assms)
    then show ?case by simp
  next
    case (Suc k)
    then show ?case by (metis add_Suc_right poll.simps(2) cbind.simps(2))
  qed
  ultimately show ?thesis by simp
qed

theorem poll_bounded_witness:
  "\<exists>s t u. sdk_connect 3 (init_sock init_libc) = Return 0 s \<and> poll echo 33 s = Return () t \<and>
     poll echo (34 + 0) s = Aborted u"
proof -
  obtain s where s: "sdk_connect 3 (init_sock init_libc) = Return 0 s" "sock_inv s" "fd_queue s = 0"
    "fd_current_pos s = 0" "watchdog s = 0" "contents (os s) PGS_OUT = None" by (rule init_connected)
  have "entries (os s) PGS_OUT = None" using s(6) by (simp add: contents_def)
  from poll_bounded [OF s(3,4) _ this s(5), of echo 0] s(1,2)
  show ?thesis by (auto simp: sock_inv_def sock_paths_def)
qed

text \<open>
  C6. A send between two chunks of an answer is not handed over: the receive that finishes the
  answer resets the queue counter although the outbox holds the new bytes, so the next flush
  only counts the watchdog up and leaves the request where it is.
\<close>

theorem send_while_reading_stalls:
  assumes "sock_inv s" "0 < fd_current_pos s" "outbox s = Some bs" "0 < quota (os s)"
    and "buf \<noteq> []" "0 < n" "length (unread s) \<le> n"
  defines "t \<equiv> snd (sdk_send buf s)"
  shows "\<exists>s'. recv_bytes peer n t = Some (unread s, s') \<and> fd_queue s' = 0 \<and>
           outbox s' = Some (bs @ take (quota (os s)) buf) \<and>
           sdk_sock_flush peer s' = Return () (s'\<lparr>watchdog := 1\<rparr>)"
proof -
  have q: "buf = [] \<or> 0 < quota (os s)" using assms(4) by simp
  from sendto_eq [OF assms(1,3) q] obtain t' where
    t': "t = t'" "outbox t' = Some (bs @ take (quota (os s)) buf)" "sock_inv t'"
      "unread t' = unread s" "fd_current_pos t' = fd_current_pos s" "watchdog t' = 0"
    unfolding t_def sdk_send_def by (metis snd_conv)
  obtain out pos where o: "contents (os t') PGS_OUT = Some out" "fd_filesize t' = int (length out)"
    "fd_current_pos t' = int pos" "pos \<le> length out" "length out < 2 ^ 31"
    using t'(3,5) assms(2)
    by (fastforce simp: sock_inv_def reading_ok_def dest: zero_less_imp_eq_int)
  have p: "sock_paths (os t')" "out_stream t'" using t'(3) by (simp_all add: sock_inv_def)
  have f: "fd_filesize t' = 0 \<or> fd_filesize t' = int (length out)" using o(2) by simp
  have w: "t'\<lparr>watchdog := 0\<rparr> = t'" using t'(6) by simp
  have len: "n \<le> length (replicate n (0 :: byte))" by simp
  have all: "take n (unread t') = unread s" using assms(7) t'(4) by simp
  from recv_file_bytes [OF p o(1,5,3,4) f assms(6) len, unfolded all] obtain u s' where
    r: "recv_file (replicate n 0) n t' = Return (int (length (unread s)), u) s'"
      "take (length (unread s)) u = unread s" "outbox s' = outbox t'"
      "length (unread t') \<le> n \<longrightarrow> contents (os s') PGS_OUT = None \<and> fd_queue s' = 0 \<and>
         fd_current_pos s' = 0 \<and> watchdog s' = 0" .
  have "sdk_recv peer (replicate n 0) n t = recv_file (replicate n 0) n t'"
    using t'(1,5) assms(2) w by (simp add: sdk_recv_def sdk_recvfrom_def)
  then have "recv_bytes peer n t = Some (unread s, s')"
    by (intro recv_bytes_Return) (use r in simp_all)
  with r(3,4) t'(2,4) assms(7) show ?thesis by (simp add: flush_idle)
qed

theorem send_while_reading_stalls_witness:
  "\<exists>s s'. 0 < fd_current_pos s \<and> recv_bytes echo 8 (snd (sdk_send [7] s)) = Some ([21], s') \<and>
     fd_queue s' = 0 \<and> outbox s' \<noteq> Some []"
proof -
  obtain s0 where s0: "sock_inv s0" "0 < fd_current_pos s0" "outbox s0 = Some []" "unread s0 = [21]"
    by (rule mid_answer_example)
  define s where "s = s0\<lparr>os := (os s0)\<lparr>quota := 1\<rparr>\<rparr>"
  have s: "sock_inv s" "0 < fd_current_pos s" "outbox s = Some []" "unread s = [21]" "quota (os s) = 1"
    using s0 by (simp_all add: s_def sock_inv_def sock_paths_def out_stream_def reading_ok_def
        outbox_def unread_def split: option.splits)
  from send_while_reading_stalls [OF s(1-3), of "[7]" 8 echo] s show ?thesis by auto
qed

text \<open>
  C7. A failed \<open>write\<close> is added to the queue counter as \<open>-1\<close>: with one byte queued, a send that
  the host refuses sets the counter to 0, and the byte in the outbox is no longer handed over.
\<close>

theorem failed_send_corrupts_queue:
  assumes "sock_inv s" "quota (os s) = 0" "buf \<noteq> []" "fd_queue s = 1"
  shows "fst (sdk_send buf s) = - 1 \<and> fd_queue (snd (sdk_send buf s)) = 0 \<and>
         outbox (snd (sdk_send buf s)) = outbox s \<and>
         sdk_sock_flush peer (snd (sdk_send buf s)) =
           Return () (snd (sdk_send buf s)\<lparr>watchdog := 1\<rparr>)"
proof -
  from assms(1) obtain f h where fh: "fd_out s = int f" "map_of (opened (os s)) f = Some h" "of_wr h"
    by (auto simp: sock_inv_def out_stream_def)
  then have "sdk_send buf s = (- 1, s\<lparr>os := (os s)\<lparr>errno := ENOSPC\<rparr>, watchdog := 0, fd_queue := 0\<rparr>)"
    using assms by (simp add: sdk_send_def sdk_sendto_def fd_write_def)
  then show ?thesis by (simp add: outbox_def flush_idle)
qed

theorem failed_send_corrupts_queue_witness:
  "\<exists>s. fd_queue s = 1 \<and> outbox s = Some [5] \<and> fst (sdk_send [6] s) = - 1 \<and>
     fd_queue (snd (sdk_send [6] s)) = 0 \<and> outbox (snd (sdk_send [6] s)) = Some [5]"
proof -
  obtain s0 where s0: "sock_inv s0" "outbox s0 = Some []" "fd_queue s0 = 0" "quota (os s0) = 4096"
    by (rule init_connected)
  define s1 where "s1 = send_all [[5]] s0"
  have s1: "sock_inv s1" "outbox s1 = Some [5]" "fd_queue s1 = 1"
    using send_all_outbox [OF s0(1,2), of "[[5]]"] s0 by (simp_all add: s1_def)
  define s where "s = s1\<lparr>os := (os s1)\<lparr>quota := 0\<rparr>\<rparr>"
  have s: "sock_inv s" "outbox s = Some [5]" "fd_queue s = 1" "quota (os s) = 0"
    using s1 by (simp_all add: s_def sock_inv_def sock_paths_def out_stream_def reading_ok_def outbox_def)
  from failed_send_corrupts_queue [OF s(1,4) _ s(3), of "[6]"] s show ?thesis by auto
qed

text \<open>
  C8. A flush in the middle of an answer, as \<open>pqFlush\<close> makes it when libpq sends before it has read everything:
  the request is handed over, and the server's new answer replaces the old one, but the read position stays. The
  rest of the old answer is lost, and the next receive starts inside the new answer and skips its first bytes.
\<close>

theorem flush_while_reading_skips:
  assumes "sock_inv s" "0 < fd_current_pos s" "outbox s = Some bs" "fd_queue s \<noteq> 0"
    and "peer_ok peer" "answers peer bs out" "length out < 2 ^ 31" "0 < n"
  shows "\<exists>s1 s2. sdk_sock_flush peer s = Return () s1 \<and> fd_queue s1 = 0 \<and>
    recv_bytes peer n s1 = Some (take n (drop (nat (fd_current_pos s)) out), s2)"
proof -
  define r where "r = rewound s"
  have r: "sock_inv r" "outbox r = Some bs" "fd_queue r \<noteq> 0" "fd_current_pos r = 0"
    using assms(1,3,4) by (simp_all add: r_def rewound_def sock_inv_def reading_ok_def out_stream_def outbox_def)
  from flush_eq [OF r(1-3) assms(5) r(4)] obtain l s' where
    s': "sdk_sock_flush peer r = Return () s'" "contents l = (contents (os r))(PGS_ILOCK := None, PGS_IN \<mapsto> bs)"
      "sock_paths l" "contents (os s') = (contents (peer l))(PGS_ILOCK \<mapsto> [])" "sock_inv s'" "fd_queue s' = 0" .
  then obtain s1 where s1: "sdk_sock_flush peer s = Return () s1" "s' = rewound s1" "fd_current_pos s1 = fd_current_pos s"
    using flush_rewound(2) by (auto simp: r_def flush_rewound(1) split: cres.splits)
  let ?t = "s1\<lparr>watchdog := 0\<rparr>"
  have os: "os s1 = os s'" "fd_queue s1 = 0" using s1(2) s'(6) by (simp_all add: rewound_def)
  have out: "path_err (os ?t) PGS_OUT = None" "contents (os ?t) PGS_OUT = Some out"
    using s'(2-5) assms(6) os(1) by (simp_all add: answers_def sock_inv_def sock_paths_def)
  define pos where "pos = nat (fd_current_pos s)"
  have pos: "fd_current_pos ?t = int pos" "pos < 2 ^ 31"
    using assms(1,2) s1(3) by (auto simp: pos_def sock_inv_def reading_ok_def)
  have len: "n \<le> length (replicate n (0 :: byte))" "replicate n (0 :: byte) \<noteq> []" using assms(8) by auto
  define d where "d = take n (drop pos out)"
  obtain s2 where "recv_file (replicate n 0) n ?t = Return (int (length d), overwrite 0 d ((replicate n 0)[0 := 0])) s2"
    using recv_file_run [OF out assms(7) pos len] unfolding d_def by blast
  moreover have "sdk_recv peer (replicate n 0) n s1 = recv_file (replicate n 0) n ?t"
    using assms(2) s1(3) by (simp add: sdk_recv_def sdk_recvfrom_def)
  ultimately have "recv_bytes peer n s1 = Some (d, s2)"
    using recv_bytes_Return take_overwrite_0 by metis
  then show ?thesis using s1(1) os(2) by (auto simp: d_def pos_def)
qed

theorem flush_while_reading_skips_witness:
  "\<exists>s s1 s2. outbox s = Some [7, 8, 9] \<and> sdk_sock_flush echo s = Return () s1 \<and>
     recv_bytes echo 8 s1 = Some ([9, 10], s2)"
proof -
  obtain s0 where s0: "sock_inv s0" "fd_current_pos s0 = 1" "outbox s0 = Some []" "unread s0 = [21]"
    by (rule mid_answer_example)
  define s1 where "s1 = s0\<lparr>os := (os s0)\<lparr>quota := 9\<rparr>, fd_queue := 0\<rparr>"
  have s1: "sock_inv s1" "outbox s1 = Some []" "fd_queue s1 = int (length ([] :: byte list))" "fd_current_pos s1 = 1"
      "quota (os s1) = 9"
    using s0 by (simp_all add: s1_def sock_inv_def sock_paths_def out_stream_def reading_ok_def outbox_def
        split: option.splits)
  define s where "s = send_all [[7, 8, 9]] s1"
  have s: "sock_inv s" "outbox s = Some [7, 8, 9]" "fd_queue s \<noteq> 0" "fd_current_pos s = 1"
    using send_all_outbox [OF s1(1-3), of "[[7, 8, 9]]"] s1(4,5) by (simp_all add: s_def)
  have "length (map (\<lambda>b. b + 1) [7, 8, 9 :: byte]) < 2 ^ 31" by simp
  from flush_while_reading_skips [OF s(1) _ s(2,3) echo_peer_ok echo_answers this, of 8] s(4) obtain s1 s2 where
    "sdk_sock_flush echo s = Return () s1" "recv_bytes echo 8 s1 = Some ([9, 10], s2)" by auto
  with s(2) show ?thesis by blast
qed

text \<open>
  C9. \<open>sdk_socket\<close> serves every domain alike: it returns the descriptor of the socket file, which the first call
  creates; it is undefined when that file cannot be opened, and it aborts only when the file gets descriptor 0. The
  branch for domains other than \<open>AF_UNIX\<close> is never taken, because \<open>domain|AF_UNIX\<close> is not 0.
\<close>

theorem socket_outcome:
  "(fd_sock s \<noteq> 0 \<longrightarrow> sdk_socket domain ty protocol s = Return (fd_sock s) s) \<and>
   (fd_sock s = 0 \<longrightarrow> (case fopen PGS_SOCK WritePlusMode (os s) of
      (None, l) \<Rightarrow> sdk_socket domain ty protocol s = Undefined
    | (Some 0, l) \<Rightarrow> sdk_socket domain ty protocol s = Aborted (s\<lparr>os := l\<rparr>)
    | (Some (Suc fd), l) \<Rightarrow> sdk_socket domain ty protocol s = Return (int (Suc fd)) (s\<lparr>os := l, fd_sock := int (Suc fd)\<rparr>)))"
proof -
  have "bit (domain OR AF_UNIX) 0" by (simp add: AF_UNIX_def bit_simps)
  then have "domain OR AF_UNIX \<noteq> 0" by (metis bit_0_eq bot_apply bot_bool_def)
  then show ?thesis by (auto simp: sdk_socket_def split: option.splits nat.splits)
qed

theorem socket_outcome_witness:
  "\<exists>s. sdk_socket 2 1 0 (init_sock init_libc) = Return 3 s \<and> sdk_socket 10 1 0 s = Return 3 s"
proof -
  let ?s = "init_sock init_libc"
  have "alloc_fd [(0, f), (1, g), (2, h)] = 3" for f g h
    by (simp add: alloc_fd_def upt_rec)
  then obtain l where l: "fopen PGS_SOCK WritePlusMode (os ?s) = (Some 3, l)"
    by (simp add: init_sock_def init_libc_def fopen_def open_ino_def path_err_def pgs_defs Let_def)
  have "fd_sock ?s = 0" by (simp add: init_sock_def)
  with socket_outcome [of ?s 2 1 0] l have "sdk_socket 2 1 0 ?s = Return 3 (?s\<lparr>os := l, fd_sock := 3\<rparr>)"
    by (simp add: numeral_3_eq_3)
  then show ?thesis using socket_outcome [of "?s\<lparr>os := l, fd_sock := 3\<rparr>" 10 1 0] by auto
qed

end
