(* ===== verification/Signals.thy ===== *)
theory Signals
  imports C_Prelude
begin

text \<open>
  The signal emulation of \<open>sdk_port-wasi.c\<close>: signal sets, \<open>sigprocmask\<close> and the handler that
  stands in for a blocked signal's own. \<open>sigset_t\<close> is \<open>unsigned char\<close> (\<open>sdk_port.h\<close>), so it is
  an 8-bit word here, and the shifts are 32-bit shifts, undefined from 32 on.

  \<open>NSIG\<close> and which signals \<open>signal()\<close> accepts belong to the C library: they are the parameters
  \<open>nsig\<close> and \<open>sig_ok\<close>. The library's table of handlers is \<open>disposition\<close>; \<open>delivered\<close> records
  the actions that \<open>raise\<close> started, in order, and is all that is modelled of them: a handler is taken to return
  without touching the signal state, and a default action, which may end the process, is only recorded.
  \<open>SIGABRT_COMPAT\<close> is not defined on WASI, so its mask
  is 0.
\<close>

unbundle bit_operations_syntax

section \<open>State\<close>

type_synonym sigset = "8 word"

datatype handler = SIG_DFL | SIG_IGN | SIG_ERR | Blocked_handler | App nat

record sigstate =
  sig_errno :: errno_t
  blocked_set :: sigset
  pending_array :: "nat \<Rightarrow> bool"
  old_handlers :: "nat \<Rightarrow> handler"
  disposition :: "nat \<Rightarrow> handler"
  delivered :: "(nat \<times> handler) list"

definition SIG_BLOCK :: int where "SIG_BLOCK = 0"
definition SIG_UNBLOCK :: int where "SIG_UNBLOCK = 1"
definition SIG_SETMASK :: int where "SIG_SETMASK = 2"

lemmas sig_how_defs = SIG_BLOCK_def SIG_UNBLOCK_def SIG_SETMASK_def

section \<open>Operations on signal sets\<close>

definition sigemptyset :: "sigset \<Rightarrow> int \<times> sigset" where
  "sigemptyset sset = (0, 0)"

definition sigfillset :: "nat \<Rightarrow> sigset \<Rightarrow> sigstate \<Rightarrow> (int \<times> sigset, sigstate) cres" where
  "sigfillset nsig sset s =
     (if nsig - 1 < 32
      then Return (0, ucast ((push_bit (nsig - 1) (2 :: 32 word) - 1) AND NOT 0)) s
      else Undefined)"

definition sigaddset :: "nat \<Rightarrow> sigset \<Rightarrow> int \<Rightarrow> sigstate \<Rightarrow> (int \<times> sigset, sigstate) cres" where
  "sigaddset nsig sset sig s =
     (if 0 \<le> sig \<and> sig < int nsig
      then (if sig < 32
            then Return (0, ucast ((ucast sset :: 32 word) OR push_bit (nat sig) 1)) s
            else Undefined)
      else Return (- 1, sset) (s\<lparr>sig_errno := EINVAL\<rparr>))"

definition sigdelset :: "nat \<Rightarrow> sigset \<Rightarrow> int \<Rightarrow> sigstate \<Rightarrow> (int \<times> sigset, sigstate) cres" where
  "sigdelset nsig sset sig s =
     (if 0 \<le> sig \<and> sig < int nsig
      then (if sig < 32
            then Return (0, ucast ((ucast sset :: 32 word) AND NOT (push_bit (nat sig) 1))) s
            else Undefined)
      else Return (- 1, sset) (s\<lparr>sig_errno := EINVAL\<rparr>))"

section \<open>The C library's \<open>signal\<close> and \<open>raise\<close>\<close>

definition c_signal :: "(nat \<Rightarrow> bool) \<Rightarrow> nat \<Rightarrow> handler \<Rightarrow> sigstate \<Rightarrow> handler \<times> sigstate" where
  "c_signal sig_ok sig h s =
     (if sig_ok sig then (disposition s sig, s\<lparr>disposition := (disposition s)(sig := h)\<rparr>)
      else (SIG_ERR, s\<lparr>sig_errno := EINVAL\<rparr>))"

definition blocked_handler :: "nat \<Rightarrow> (nat \<Rightarrow> bool) \<Rightarrow> nat \<Rightarrow> sigstate \<Rightarrow> sigstate" where
  "blocked_handler nsig sig_ok sig s =
     (let s1 = snd (c_signal sig_ok sig Blocked_handler s)
      in if sig < nsig then s1\<lparr>pending_array := (pending_array s1)(sig := True)\<rparr> else s1)"

definition c_raise :: "nat \<Rightarrow> (nat \<Rightarrow> bool) \<Rightarrow> nat \<Rightarrow> sigstate \<Rightarrow> sigstate" where
  "c_raise nsig sig_ok sig s =
     (if disposition s sig = Blocked_handler then blocked_handler nsig sig_ok sig s
      else s\<lparr>delivered := delivered s @ [(sig, disposition s sig)]\<rparr>)"

section \<open>\<open>sigprocmask\<close>\<close>

text \<open>\<open>(m >> sig) & 1\<close>, with the set promoted to \<open>int\<close>.\<close>

definition shifted_bit :: "sigset \<Rightarrow> nat \<Rightarrow> bool" where
  "shifted_bit m sig \<longleftrightarrow> (drop_bit sig (ucast m :: 32 word)) AND 1 \<noteq> 0"

fun block_loop :: "(nat \<Rightarrow> bool) \<Rightarrow> sigset \<Rightarrow> nat list \<Rightarrow> sigstate \<Rightarrow> (unit, sigstate) cres" where
  "block_loop sig_ok to_block [] s = Return () s"
| "block_loop sig_ok to_block (sig # sigs) s =
     (if 32 \<le> sig then Undefined
      else if shifted_bit to_block sig
      then (let s1 = s\<lparr>pending_array := (pending_array s)(sig := False)\<rparr>;
                (h, s2) = c_signal sig_ok sig Blocked_handler s1;
                s3 = s2\<lparr>old_handlers := (old_handlers s2)(sig := h)\<rparr>;
                s4 = (if h \<noteq> SIG_ERR
                      then s3\<lparr>blocked_set := ucast ((ucast (blocked_set s3) :: 32 word) OR push_bit sig 1)\<rparr>
                      else s3)
            in block_loop sig_ok to_block sigs s4)
      else block_loop sig_ok to_block sigs s)"

text \<open>The first unblocking loop; its value is the array \<open>received\<close>.\<close>

fun unblock_loop :: "(nat \<Rightarrow> bool) \<Rightarrow> sigset \<Rightarrow> nat list \<Rightarrow> sigstate \<Rightarrow> (bool list, sigstate) cres" where
  "unblock_loop sig_ok to_unblock [] s = Return [] s"
| "unblock_loop sig_ok to_unblock (sig # sigs) s =
     (if 32 \<le> sig then Undefined
      else if shifted_bit to_unblock sig
      then (let (h, s1) = c_signal sig_ok sig (old_handlers s sig) s
            in if h \<noteq> Blocked_handler then Aborted s1
               else cbind (unblock_loop sig_ok to_unblock sigs
                       (s1\<lparr>blocked_set := ucast ((ucast (blocked_set s1) :: 32 word) AND NOT (push_bit sig 1)),
                           pending_array := (pending_array s1)(sig := False)\<rparr>))
                     (\<lambda>received. Return (pending_array s1 sig # received)))
      else cbind (unblock_loop sig_ok to_unblock sigs s) (\<lambda>received. Return (False # received)))"

fun raise_loop :: "nat \<Rightarrow> (nat \<Rightarrow> bool) \<Rightarrow> (nat \<times> bool) list \<Rightarrow> sigstate \<Rightarrow> sigstate" where
  "raise_loop nsig sig_ok [] s = s"
| "raise_loop nsig sig_ok ((sig, r) # received) s =
     raise_loop nsig sig_ok received (if r then c_raise nsig sig_ok sig s else s)"

definition new_blocked :: "int \<Rightarrow> sigset \<Rightarrow> sigset \<Rightarrow> sigset option" where
  "new_blocked operation blocked sset =
     (if operation = SIG_BLOCK then Some (blocked OR sset)
      else if operation = SIG_SETMASK then Some sset
      else if operation = SIG_UNBLOCK then Some (blocked AND NOT sset)
      else None)"

text \<open>
  \<open>sset\<close> is \<open>None\<close> for a null pointer. The value is the return code and what the call stores
  through \<open>old_set\<close> (the two pointers do not alias).
\<close>

definition sigprocmask ::
    "nat \<Rightarrow> (nat \<Rightarrow> bool) \<Rightarrow> int \<Rightarrow> sigset option \<Rightarrow> sigstate \<Rightarrow> (int \<times> sigset, sigstate) cres" where
  "sigprocmask nsig sig_ok operation sset s =
     (let old_set = blocked_set s
      in case sset of
           None \<Rightarrow> Return (0, old_set) s
         | Some m \<Rightarrow>
           (case new_blocked operation (blocked_set s) m of
              None \<Rightarrow> Return (- 1, old_set) (s\<lparr>sig_errno := EINVAL\<rparr>)
            | Some new_blocked_set \<Rightarrow>
              (let to_unblock = blocked_set s AND NOT new_blocked_set;
                   to_block = new_blocked_set AND NOT (blocked_set s)
               in cbind (if to_block \<noteq> 0 then block_loop sig_ok to_block [0..<nsig] s else Return () s)
                    (\<lambda>_ s. if to_unblock \<noteq> 0
                           then cbind (unblock_loop sig_ok to_unblock [0..<nsig] s)
                                  (\<lambda>received s. Return (0, old_set)
                                     (raise_loop nsig sig_ok (zip [0..<nsig] received) s))
                           else Return (0, old_set) s))))"

text \<open>The stubs: a member test that always fails, and calls that only report success.\<close>

definition sigaction :: "nat \<Rightarrow> handler \<Rightarrow> sigstate \<Rightarrow> int \<times> sigstate" where
  "sigaction signum act s = (0, s)"

definition sigismember :: "sigset \<Rightarrow> nat \<Rightarrow> int" where "sigismember sset signum = - 1"

definition sigwait :: "sigset \<Rightarrow> sigstate \<Rightarrow> int \<times> sigstate" where "sigwait sset s = (0, s)"

definition alarm :: "nat \<Rightarrow> sigstate \<Rightarrow> nat \<times> sigstate" where "alarm seconds s = (0, s)"

text \<open>From \<open>patch.h\<close>: \<open>pthread_sigmask\<close> reports success and \<open>sigpending\<close> fails, and neither writes a set.\<close>

definition sdk_pthread_sigmask :: "int \<Rightarrow> sigset option \<Rightarrow> sigstate \<Rightarrow> int \<times> sigstate" where
  "sdk_pthread_sigmask how sset s = (0, s)"

definition sdk_sigpending :: "sigset \<Rightarrow> int \<times> sigset" where "sdk_sigpending sset = (- 1, sset)"

text \<open>A state in which nothing is blocked and each signal has a handler of its own.\<close>

definition no_signals :: sigstate where
  "no_signals = \<lparr>sig_errno = E_OK, blocked_set = 0, pending_array = (\<lambda>_. False),
     old_handlers = (\<lambda>_. SIG_DFL), disposition = App, delivered = []\<rparr>"

section \<open>Bits\<close>

lemma shifted_bit_iff: "shifted_bit m sig = bit m sig"
proof -
  have "shifted_bit m sig = bit (drop_bit sig (ucast m :: 32 word)) 0"
    unfolding shifted_bit_def by (simp add: and_one_eq mod_2_eq_odd bit_0)
  then show ?thesis by (auto simp: bit_simps dest: bit_imp_le_length)
qed

lemma bit_set8: "bit (ucast ((ucast (m :: sigset) :: 32 word) OR push_bit sig 1) :: sigset) n =
    (n < 8 \<and> (bit m n \<or> n = sig))"
  by (auto simp: bit_simps dest: bit_imp_le_length)

lemma bit_clear8: "bit (ucast ((ucast (m :: sigset) :: 32 word) AND NOT (push_bit sig 1)) :: sigset) n =
    (bit m n \<and> n \<noteq> sig)"
  by (auto simp: bit_simps dest: bit_imp_le_length)

lemma bit8_lt: "bit (m :: sigset) n \<Longrightarrow> n < 8"
  by (auto dest: bit_imp_le_length)

lemma set8_neq0: "(m :: sigset) \<noteq> 0 \<longleftrightarrow> (\<exists>n < 8. bit m n)"
  by (auto simp: bit_eq_iff dest: bit8_lt)

section \<open>What the loops compute\<close>

lemma block_loop_spec:
  assumes "\<forall>x \<in> set sigs. x < 32" "distinct sigs" "\<forall>x. disposition s x \<noteq> SIG_ERR"
  shows "\<exists>s'. block_loop sig_ok tb sigs s = Return () s' \<and>
    (\<forall>x. pending_array s' x = (pending_array s x \<and> \<not> (x \<in> set sigs \<and> bit tb x))) \<and>
    (\<forall>x. disposition s' x = (if x \<in> set sigs \<and> bit tb x \<and> sig_ok x then Blocked_handler else disposition s x)) \<and>
    (\<forall>x. old_handlers s' x = (if x \<in> set sigs \<and> bit tb x
           then (if sig_ok x then disposition s x else SIG_ERR) else old_handlers s x)) \<and>
    (\<forall>x. bit (blocked_set s') x = (bit (blocked_set s) x \<or> (x \<in> set sigs \<and> bit tb x \<and> sig_ok x))) \<and>
    delivered s' = delivered s"
  using assms
proof (induction sigs arbitrary: s)
  case Nil
  then show ?case by simp
next
  case (Cons sig sigs)
  show ?case
  proof (cases "bit tb sig")
    case False
    then show ?thesis using Cons.IH [of s] Cons.prems by (auto simp: shifted_bit_iff)
  next
    case True
    then have "sig < 8" by (rule bit8_lt)
    define s1 where "s1 = snd (c_signal sig_ok sig Blocked_handler (s\<lparr>pending_array := (pending_array s)(sig := False)\<rparr>))"
    define h where "h = (if sig_ok sig then disposition s sig else SIG_ERR)"
    define t where "t = (if sig_ok sig
       then s1\<lparr>old_handlers := (old_handlers s)(sig := h),
               blocked_set := ucast ((ucast (blocked_set s) :: 32 word) OR push_bit sig 1)\<rparr>
       else s1\<lparr>old_handlers := (old_handlers s)(sig := h)\<rparr>)"
    have "block_loop sig_ok tb (sig # sigs) s = block_loop sig_ok tb sigs t"
      using Cons.prems True
      by (auto simp: shifted_bit_iff c_signal_def Let_def t_def s1_def h_def)
    moreover have "\<forall>x. disposition t x \<noteq> SIG_ERR"
      using Cons.prems by (auto simp: t_def s1_def c_signal_def)
    moreover have
      "pending_array t x = (pending_array s x \<and> x \<noteq> sig)"
      "disposition t x = (if x = sig \<and> sig_ok sig then Blocked_handler else disposition s x)"
      "old_handlers t x = (if x = sig then h else old_handlers s x)"
      "bit (blocked_set t) x = (bit (blocked_set s) x \<or> x = sig \<and> sig_ok sig)"
      "delivered t = delivered s" for x
      using \<open>sig < 8\<close> bit8_lt [of "blocked_set s" x]
      by (auto simp: t_def s1_def c_signal_def bit_set8 [unfolded push_bit_of_1])
    ultimately show ?thesis
      using Cons.IH [of t] Cons.prems True by (auto simp: h_def)
  qed
qed

lemma unblock_loop_spec:
  assumes "\<forall>x \<in> set sigs. x < 32" "distinct sigs"
    and "\<forall>x \<in> set sigs. bit tu x \<longrightarrow> sig_ok x \<and> disposition s x = Blocked_handler"
  shows "\<exists>s'. unblock_loop sig_ok tu sigs s = Return (map (\<lambda>x. bit tu x \<and> pending_array s x) sigs) s' \<and>
    (\<forall>x. pending_array s' x = (pending_array s x \<and> \<not> (x \<in> set sigs \<and> bit tu x))) \<and>
    (\<forall>x. disposition s' x = (if x \<in> set sigs \<and> bit tu x then old_handlers s x else disposition s x)) \<and>
    old_handlers s' = old_handlers s \<and>
    (\<forall>x. bit (blocked_set s') x = (bit (blocked_set s) x \<and> \<not> (x \<in> set sigs \<and> bit tu x))) \<and>
    delivered s' = delivered s"
  using assms
proof (induction sigs arbitrary: s)
  case Nil
  then show ?case by simp
next
  case (Cons sig sigs)
  show ?case
  proof (cases "bit tu sig")
    case False
    obtain s' where "unblock_loop sig_ok tu sigs s = Return (map (\<lambda>x. bit tu x \<and> pending_array s x) sigs) s' \<and>
      (\<forall>x. pending_array s' x = (pending_array s x \<and> \<not> (x \<in> set sigs \<and> bit tu x))) \<and>
      (\<forall>x. disposition s' x = (if x \<in> set sigs \<and> bit tu x then old_handlers s x else disposition s x)) \<and>
      old_handlers s' = old_handlers s \<and>
      (\<forall>x. bit (blocked_set s') x = (bit (blocked_set s) x \<and> \<not> (x \<in> set sigs \<and> bit tu x))) \<and>
      delivered s' = delivered s" using Cons.IH [of s] Cons.prems by auto
    then show ?thesis using False Cons.prems by (auto simp: shifted_bit_iff)
  next
    case True
    define t where "t = s\<lparr>disposition := (disposition s)(sig := old_handlers s sig),
       blocked_set := ucast ((ucast (blocked_set s) :: 32 word) AND NOT (push_bit sig 1)),
       pending_array := (pending_array s)(sig := False)\<rparr>"
    have step: "unblock_loop sig_ok tu (sig # sigs) s =
        cbind (unblock_loop sig_ok tu sigs t) (\<lambda>received. Return (pending_array s sig # received))"
      using Cons.prems True by (simp add: shifted_bit_iff c_signal_def t_def)
    have t: "pending_array t x = (pending_array s x \<and> x \<noteq> sig)"
      "disposition t x = (if x = sig then old_handlers s x else disposition s x)"
      "old_handlers t = old_handlers s"
      "bit (blocked_set t) x = (bit (blocked_set s) x \<and> x \<noteq> sig)"
      "delivered t = delivered s" for x
      by (auto simp: t_def bit_clear8 [unfolded push_bit_of_1])
    have same: "map (\<lambda>x. bit tu x \<and> pending_array t x) sigs = map (\<lambda>x. bit tu x \<and> pending_array s x) sigs"
      using Cons.prems(2) by (auto simp: t(1))
    have pre: "\<forall>x \<in> set sigs. bit tu x \<longrightarrow> sig_ok x \<and> disposition t x = Blocked_handler"
      using Cons.prems by (auto simp: t(2))
    obtain s' where u: "unblock_loop sig_ok tu sigs t = Return (map (\<lambda>x. bit tu x \<and> pending_array s x) sigs) s'"
      "\<forall>x. pending_array s' x = (pending_array t x \<and> \<not> (x \<in> set sigs \<and> bit tu x))"
      "\<forall>x. disposition s' x = (if x \<in> set sigs \<and> bit tu x then old_handlers t x else disposition t x)"
      "old_handlers s' = old_handlers t"
      "\<forall>x. bit (blocked_set s') x = (bit (blocked_set t) x \<and> \<not> (x \<in> set sigs \<and> bit tu x))"
      "delivered s' = delivered t"
      using Cons.IH [OF _ _ pre] Cons.prems unfolding same by auto
    show ?thesis
      unfolding step by (rule exI [of _ s']) (use True in \<open>auto simp: u t\<close>)
  qed
qed

lemma raise_loop_spec:
  assumes "\<forall>x \<in> set sigs. P x \<longrightarrow> disposition s x \<noteq> Blocked_handler"
  shows "raise_loop nsig sig_ok (zip sigs (map P sigs)) s =
    s\<lparr>delivered := delivered s @ map (\<lambda>x. (x, disposition s x)) (filter P sigs)\<rparr>"
  using assms by (induction sigs arbitrary: s) (auto simp: c_raise_def)

section \<open>The invariant\<close>

text \<open>
  A signal is in \<open>blocked_set\<close> exactly when the stand-in handler is installed for it, and the
  handler saved for a blocked signal is a real one.
\<close>

definition sig_inv :: "(nat \<Rightarrow> bool) \<Rightarrow> sigstate \<Rightarrow> bool" where
  "sig_inv sig_ok s \<longleftrightarrow>
     (\<forall>x. disposition s x \<noteq> SIG_ERR) \<and>
     (\<forall>x. bit (blocked_set s) x \<longleftrightarrow> disposition s x = Blocked_handler) \<and>
     (\<forall>x. bit (blocked_set s) x \<longrightarrow> sig_ok x \<and> old_handlers s x \<noteq> Blocked_handler \<and> old_handlers s x \<noteq> SIG_ERR)"

lemma sigprocmask_new:
  assumes "sig_inv sig_ok s" "8 \<le> nsig" "nsig \<le> 32" "new_blocked how (blocked_set s) m = Some nb"
  obtains s' where "sigprocmask nsig sig_ok how (Some m) s = Return (0, blocked_set s) s'"
    and "\<forall>x. bit (blocked_set s') x = (bit nb x \<and> sig_ok x)"
    and "\<forall>x. disposition s' x =
      (if bit nb x \<and> \<not> bit (blocked_set s) x \<and> sig_ok x then Blocked_handler
       else if bit (blocked_set s) x \<and> \<not> bit nb x then old_handlers s x
       else disposition s x)"
    and "\<forall>x. pending_array s' x = (pending_array s x \<and> bit nb x = bit (blocked_set s) x)"
    and "delivered s' = delivered s @
       map (\<lambda>x. (x, old_handlers s x))
         (filter (\<lambda>x. bit (blocked_set s) x \<and> \<not> bit nb x \<and> pending_array s x) [0..<nsig])"
    and "\<forall>x. bit (blocked_set s') x \<longrightarrow>
      old_handlers s' x = (if bit (blocked_set s) x then old_handlers s x else disposition s x)"
    and "sig_inv sig_ok s'"
proof -
  let ?B = "blocked_set s" and ?L = "[0..<nsig]"
  let ?tu = "?B AND NOT nb" and ?tb = "nb AND NOT ?B"
  have bits: "bit ?tu x = (bit ?B x \<and> \<not> bit nb x)" "bit ?tb x = (bit nb x \<and> \<not> bit ?B x)" for x
    by (auto simp: bit_simps dest: bit8_lt)
  have inL: "x \<in> set ?L \<and> bit m' x \<longleftrightarrow> bit m' x" for m' :: sigset and x
    using assms(2) by (auto dest: bit8_lt)
  have L: "\<forall>x \<in> set ?L. x < 32" "distinct ?L" using assms(3) by auto
  have err: "\<forall>x. disposition s x \<noteq> SIG_ERR" using assms(1) by (simp add: sig_inv_def)
  have inv: "\<And>x. bit ?B x \<longleftrightarrow> disposition s x = Blocked_handler"
    "\<And>x. bit ?B x \<Longrightarrow> sig_ok x \<and> old_handlers s x \<noteq> Blocked_handler \<and> old_handlers s x \<noteq> SIG_ERR"
    using assms(1) by (auto simp: sig_inv_def)
  have "\<exists>s1. (if ?tb \<noteq> 0 then block_loop sig_ok ?tb ?L s else Return () s) = Return () s1 \<and>
    (\<forall>x. pending_array s1 x = (pending_array s x \<and> \<not> bit ?tb x)) \<and>
    (\<forall>x. disposition s1 x = (if bit ?tb x \<and> sig_ok x then Blocked_handler else disposition s x)) \<and>
    (\<forall>x. old_handlers s1 x = (if bit ?tb x then (if sig_ok x then disposition s x else SIG_ERR) else old_handlers s x)) \<and>
    (\<forall>x. bit (blocked_set s1) x = (bit ?B x \<or> bit ?tb x \<and> sig_ok x)) \<and>
    delivered s1 = delivered s"
  proof (cases "?tb = 0")
    case True
    then show ?thesis by (intro exI [of _ s]) (simp del: bit_and_iff)
  next
    case False
    then show ?thesis
      using block_loop_spec [OF L err, of sig_ok ?tb]
      unfolding conj_assoc [symmetric] inL by (simp only: if_True not_False_eq_True simp_thms)
  qed
  then obtain s1 where b: "(if ?tb \<noteq> 0 then block_loop sig_ok ?tb ?L s else Return () s) = Return () s1"
    "\<And>x. pending_array s1 x = (pending_array s x \<and> \<not> bit ?tb x)"
    "\<And>x. disposition s1 x = (if bit ?tb x \<and> sig_ok x then Blocked_handler else disposition s x)"
    "\<And>x. old_handlers s1 x = (if bit ?tb x then (if sig_ok x then disposition s x else SIG_ERR) else old_handlers s x)"
    "\<And>x. bit (blocked_set s1) x = (bit ?B x \<or> bit ?tb x \<and> sig_ok x)"
    "delivered s1 = delivered s" by blast
  have pre: "\<forall>x \<in> set ?L. bit ?tu x \<longrightarrow> sig_ok x \<and> disposition s1 x = Blocked_handler"
    using inv by (auto simp: b(3) bits)
  let ?recv = "\<lambda>x. bit ?tu x \<and> pending_array s1 x"
  obtain s2 where u: "unblock_loop sig_ok ?tu ?L s1 = Return (map ?recv ?L) s2"
    "\<And>x. pending_array s2 x = (pending_array s1 x \<and> \<not> bit ?tu x)"
    "\<And>x. disposition s2 x = (if bit ?tu x then old_handlers s1 x else disposition s1 x)"
    "old_handlers s2 = old_handlers s1"
    "\<And>x. bit (blocked_set s2) x = (bit (blocked_set s1) x \<and> \<not> bit ?tu x)"
    "delivered s2 = delivered s1"
    using unblock_loop_spec [OF L pre] unfolding inL by blast
  have ok: "\<forall>x \<in> set ?L. ?recv x \<longrightarrow> disposition s2 x \<noteq> Blocked_handler"
    using inv by (auto simp: u b bits)
  define s3 where "s3 = s2\<lparr>delivered := delivered s2 @ map (\<lambda>x. (x, disposition s2 x)) (filter ?recv ?L)\<rparr>"
  define s' where "s' = (if ?tu \<noteq> 0 then s3 else s1)"
  have run: "sigprocmask nsig sig_ok how (Some m) s = Return (0, ?B) s'"
    using b(1) u(1) raise_loop_spec [OF ok, of nsig sig_ok]
    by (simp add: sigprocmask_def assms(4) Let_def s'_def s3_def)
  have st: "pending_array s' x = (pending_array s x \<and> \<not> bit ?tb x \<and> \<not> bit ?tu x)"
    "disposition s' x = (if bit ?tu x then old_handlers s x
       else if bit ?tb x \<and> sig_ok x then Blocked_handler else disposition s x)"
    "old_handlers s' x = old_handlers s1 x"
    "bit (blocked_set s') x = ((bit ?B x \<or> bit ?tb x \<and> sig_ok x) \<and> \<not> bit ?tu x)" for x
    by (cases "?tu = 0"; auto simp: s'_def s3_def u b bits simp del: bit_and_iff)+
  have "filter ?recv ?L = filter (\<lambda>x. bit ?B x \<and> \<not> bit nb x \<and> pending_array s x) ?L"
    by (auto simp: b(2) bits intro!: filter_cong)
  then have out: "delivered s' = delivered s @ map (\<lambda>x. (x, old_handlers s x))
      (filter (\<lambda>x. bit ?B x \<and> \<not> bit nb x \<and> pending_array s x) ?L)"
    using bits by (cases "?tu = 0"; simp add: s'_def s3_def u b cong: filter_cong)
  show ?thesis
  proof (rule that [OF run _ _ _ out])
    show "\<forall>x. bit (blocked_set s') x = (bit nb x \<and> sig_ok x)"
      using inv by (auto simp: st bits)
    show "\<forall>x. disposition s' x = (if bit nb x \<and> \<not> bit ?B x \<and> sig_ok x then Blocked_handler
        else if bit ?B x \<and> \<not> bit nb x then old_handlers s x else disposition s x)"
      by (auto simp: st bits)
    show "\<forall>x. pending_array s' x = (pending_array s x \<and> bit nb x = bit ?B x)"
      by (auto simp: st bits)
    show "\<forall>x. bit (blocked_set s') x \<longrightarrow> old_handlers s' x = (if bit ?B x then old_handlers s x else disposition s x)"
      by (auto simp: st bits b(4))
    show "sig_inv sig_ok s'"
      using assms(1) inv by (auto simp: sig_inv_def st bits b(4) split: if_splits)
  qed
qed

section \<open>What signals promise\<close>

text \<open>
  The view of an application: which signals are masked, the handler it installed for each, the
  signals held back, and the handlers that ran. Nothing of the stand-in handler shows.
\<close>

record signal_view =
  v_mask :: "nat \<Rightarrow> bool"
  v_action :: "nat \<Rightarrow> handler"
  v_pending :: "nat \<Rightarrow> bool"
  v_log :: "(nat \<times> handler) list"

definition view_setmask :: "nat \<Rightarrow> (nat \<Rightarrow> bool) \<Rightarrow> signal_view \<Rightarrow> signal_view" where
  "view_setmask nsig held v =
     v\<lparr>v_mask := held,
       v_pending := (\<lambda>x. v_pending v x \<and> held x),
       v_log := v_log v @ map (\<lambda>x. (x, v_action v x))
                  (filter (\<lambda>x. v_pending v x \<and> \<not> held x) [0..<nsig])\<rparr>"

definition view_raise :: "nat \<Rightarrow> signal_view \<Rightarrow> signal_view" where
  "view_raise sig v =
     (if v_mask v sig then v\<lparr>v_pending := (v_pending v)(sig := True)\<rparr>
      else v\<lparr>v_log := v_log v @ [(sig, v_action v sig)]\<rparr>)"

definition signal_view_of :: "sigstate \<Rightarrow> signal_view" where
  "signal_view_of s =
     \<lparr>v_mask = bit (blocked_set s),
      v_action = (\<lambda>x. if bit (blocked_set s) x then old_handlers s x else disposition s x),
      v_pending = (\<lambda>x. bit (blocked_set s) x \<and> pending_array s x),
      v_log = delivered s\<rparr>"

lemma sigprocmask_view:
  assumes "sig_inv sig_ok s" "8 \<le> nsig" "nsig \<le> 32" "new_blocked how (blocked_set s) m = Some nb"
  shows "\<exists>s'. sigprocmask nsig sig_ok how (Some m) s = Return (0, blocked_set s) s' \<and>
    sig_inv sig_ok s' \<and>
    signal_view_of s' = view_setmask nsig (\<lambda>x. bit nb x \<and> sig_ok x) (signal_view_of s)"
proof -
  have inv: "\<And>x. bit (blocked_set s) x \<Longrightarrow> sig_ok x" using assms(1) by (simp add: sig_inv_def)
  from sigprocmask_new [OF assms] obtain s' where
    s': "sigprocmask nsig sig_ok how (Some m) s = Return (0, blocked_set s) s'"
    "\<forall>x. bit (blocked_set s') x = (bit nb x \<and> sig_ok x)"
    "\<forall>x. disposition s' x = (if bit nb x \<and> \<not> bit (blocked_set s) x \<and> sig_ok x then Blocked_handler
       else if bit (blocked_set s) x \<and> \<not> bit nb x then old_handlers s x else disposition s x)"
    "\<forall>x. pending_array s' x = (pending_array s x \<and> bit nb x = bit (blocked_set s) x)"
    "delivered s' = delivered s @ map (\<lambda>x. (x, old_handlers s x))
       (filter (\<lambda>x. bit (blocked_set s) x \<and> \<not> bit nb x \<and> pending_array s x) [0..<nsig])"
    "\<forall>x. bit (blocked_set s') x \<longrightarrow>
      old_handlers s' x = (if bit (blocked_set s) x then old_handlers s x else disposition s x)"
    "sig_inv sig_ok s'"
    .
  have "signal_view_of s' = view_setmask nsig (\<lambda>x. bit nb x \<and> sig_ok x) (signal_view_of s)"
  proof (rule signal_view.equality)
    have "filter (\<lambda>x. bit (blocked_set s) x \<and> \<not> bit nb x \<and> pending_array s x) [0..<nsig] =
        filter (\<lambda>x. (bit (blocked_set s) x \<and> pending_array s x) \<and> \<not> (bit nb x \<and> sig_ok x)) [0..<nsig]"
      using inv by (auto intro!: filter_cong)
    then show "v_log (signal_view_of s') = v_log (view_setmask nsig (\<lambda>x. bit nb x \<and> sig_ok x) (signal_view_of s))"
      by (auto simp: signal_view_of_def view_setmask_def s'(5))
  qed (use inv s' in \<open>auto simp: signal_view_of_def view_setmask_def fun_eq_iff\<close>)
  with s'(1,7) show ?thesis by blast
qed


lemma raise_view:
  assumes "sig_inv sig_ok s" "sig < nsig"
  shows "sig_inv sig_ok (c_raise nsig sig_ok sig s)"
    and "signal_view_of (c_raise nsig sig_ok sig s) = view_raise sig (signal_view_of s)"
  using assms
  by (auto simp: sig_inv_def c_raise_def blocked_handler_def c_signal_def Let_def signal_view_of_def
      view_raise_def fun_eq_iff)

section \<open>The interface of deferred signals\<close>

locale deferred_signals =
  fixes sound :: "'p \<Rightarrow> 's \<Rightarrow> bool"
    and nsig_of :: "'p \<Rightarrow> nat"
    and view :: "'s \<Rightarrow> signal_view"
    and member :: "'p \<Rightarrow> 'm \<Rightarrow> nat \<Rightarrow> bool"
    and setmask :: "'p \<Rightarrow> 'm \<Rightarrow> 's \<Rightarrow> (int \<times> 'm, 's) cres"
    and raise :: "'p \<Rightarrow> nat \<Rightarrow> 's \<Rightarrow> 's"
  assumes setmask_law: "sound p s \<Longrightarrow> \<exists>s' old. setmask p m s = Return (0, old) s' \<and> sound p s' \<and>
      view s' = view_setmask (nsig_of p) (member p m) (view s) \<and> member p old = v_mask (view s)"
    and raise_law: "sound p s \<Longrightarrow> sig < nsig_of p \<Longrightarrow>
      sound p (raise p sig s) \<and> view (raise p sig s) = view_raise sig (view s)"
    and pending_law: "sound p s \<Longrightarrow> v_pending (view s) x \<Longrightarrow> v_mask (view s) x \<and> x < nsig_of p"
begin

lemma raises_held:
  assumes "sound p s" "\<forall>x \<in> set sigs. x < nsig_of p \<and> v_mask (view s) x"
  shows "sound p (fold (raise p) sigs s) \<and>
    view (fold (raise p) sigs s) = (view s)\<lparr>v_pending := (\<lambda>x. v_pending (view s) x \<or> x \<in> set sigs)\<rparr>"
  using assms
proof (induction sigs arbitrary: s)
  case Nil
  then show ?case by simp
next
  case (Cons sig sigs)
  then have "sound p (raise p sig s)" "view (raise p sig s) = (view s)\<lparr>v_pending := (v_pending (view s))(sig := True)\<rparr>"
    using raise_law [of p s sig] by (auto simp: view_raise_def)
  then show ?case using Cons.IH [of "raise p sig s"] Cons.prems by (auto simp: fun_eq_iff)
qed

text \<open>
  A section that blocks more signals, in which some of them arrive any number of times, and that
  restores the mask: each signal that arrived and was not masked before is delivered once, at the end.
\<close>

lemma critical_section:
  assumes "sound p s" "\<forall>x. v_mask (view s) x \<longrightarrow> member p m x"
    and "\<forall>x \<in> set sigs. x < nsig_of p \<and> member p m x"
  shows "\<exists>old s1 m' s2. setmask p m s = Return (0, old) s1 \<and>
    setmask p old (fold (raise p) sigs s1) = Return (0, m') s2 \<and> sound p s2 \<and>
    view s2 = (view s)\<lparr>
      v_pending := (\<lambda>x. v_pending (view s) x \<or> x \<in> set sigs \<and> v_mask (view s) x),
      v_log := v_log (view s) @ map (\<lambda>x. (x, v_action (view s) x))
        (filter (\<lambda>x. x \<in> set sigs \<and> \<not> v_mask (view s) x) [0..<nsig_of p])\<rparr>"
proof -
  have pend: "v_pending (view s) x \<Longrightarrow> member p m x \<and> v_mask (view s) x" for x
    using pending_law [OF assms(1)] assms(2) by blast
  obtain s1 old where s1: "setmask p m s = Return (0, old) s1" "sound p s1" "member p old = v_mask (view s)"
    "view s1 = view_setmask (nsig_of p) (member p m) (view s)"
    using setmask_law [OF assms(1)] by blast
  have v1: "view s1 = (view s)\<lparr>v_mask := member p m\<rparr>"
    using pend by (auto simp: s1(4) view_setmask_def filter_empty_conv intro!: signal_view.equality)
  define t where "t = fold (raise p) sigs s1"
  have t: "sound p t" "view t = (view s)\<lparr>v_mask := member p m, v_pending := (\<lambda>x. v_pending (view s) x \<or> x \<in> set sigs)\<rparr>"
    using raises_held [OF s1(2), of sigs] assms(3) by (auto simp: t_def v1)
  obtain s2 m' where s2: "setmask p old t = Return (0, m') s2" "sound p s2"
    "view s2 = view_setmask (nsig_of p) (v_mask (view s)) (view t)"
    using setmask_law [OF t(1)] s1(3) by metis
  have "filter (\<lambda>x. (v_pending (view s) x \<or> x \<in> set sigs) \<and> \<not> v_mask (view s) x) [0..<nsig_of p] =
      filter (\<lambda>x. x \<in> set sigs \<and> \<not> v_mask (view s) x) [0..<nsig_of p]"
    using pend by (auto intro!: filter_cong)
  moreover have "(\<lambda>x. (v_pending (view s) x \<or> x \<in> set sigs) \<and> v_mask (view s) x) =
      (\<lambda>x. v_pending (view s) x \<or> x \<in> set sigs \<and> v_mask (view s) x)"
    using pend by auto
  ultimately have "view s2 = (view s)\<lparr>
      v_pending := (\<lambda>x. v_pending (view s) x \<or> x \<in> set sigs \<and> v_mask (view s) x),
      v_log := v_log (view s) @ map (\<lambda>x. (x, v_action (view s) x))
        (filter (\<lambda>x. x \<in> set sigs \<and> \<not> v_mask (view s) x) [0..<nsig_of p])\<rparr>"
    by (simp add: s2(3) t(2) view_setmask_def)
  with s1(1) s2(1,2) show ?thesis unfolding t_def by blast
qed

end

definition sig_setmask :: "nat \<times> (nat \<Rightarrow> bool) \<Rightarrow> sigset \<Rightarrow> sigstate \<Rightarrow> (int \<times> sigset, sigstate) cres" where
  "sig_setmask p m = sigprocmask (fst p) (snd p) SIG_SETMASK (Some m)"

definition sig_sound :: "nat \<times> (nat \<Rightarrow> bool) \<Rightarrow> sigstate \<Rightarrow> bool" where
  "sig_sound p s \<longleftrightarrow> 8 \<le> fst p \<and> fst p \<le> 32 \<and> sig_inv (snd p) s"

interpretation sigs: deferred_signals sig_sound fst signal_view_of
  "\<lambda>p m x. bit m x \<and> snd p x" sig_setmask "\<lambda>p. c_raise (fst p) (snd p)"
proof unfold_locales
  show "\<exists>s' old. sig_setmask p m s = Return (0, old) s' \<and> sig_sound p s' \<and>
      signal_view_of s' = view_setmask (fst p) (\<lambda>x. bit m x \<and> snd p x) (signal_view_of s) \<and>
      (\<lambda>x. bit old x \<and> snd p x) = v_mask (signal_view_of s)"
    if s: "sig_sound p s" for p m s
  proof -
    have "(\<lambda>x. bit (blocked_set s) x \<and> snd p x) = v_mask (signal_view_of s)"
      using s by (auto simp: sig_sound_def sig_inv_def signal_view_of_def)
    then show ?thesis
      using s sigprocmask_view [of "snd p" s "fst p" SIG_SETMASK m m]
      by (auto simp: sig_sound_def sig_setmask_def new_blocked_def sig_how_defs)
  qed
  show "sig_sound p (c_raise (fst p) (snd p) sig s) \<and>
      signal_view_of (c_raise (fst p) (snd p) sig s) = view_raise sig (signal_view_of s)"
    if "sig_sound p s" "sig < fst p" for p s sig
    using that raise_view by (simp add: sig_sound_def)
  show "v_mask (signal_view_of s) x \<and> x < fst p"
    if "sig_sound p s" "v_pending (signal_view_of s) x" for p s x
    using that bit8_lt by (fastforce simp: sig_sound_def signal_view_of_def)
qed

section \<open>Further branches\<close>

lemma block_loop_undefined:
  "\<exists>x \<in> set sigs. 32 \<le> x \<Longrightarrow> block_loop sig_ok tb sigs s = Undefined"
  by (induction sigs arbitrary: s) (auto simp: Let_def split: prod.split)

lemma unblock_loop_aborts:
  assumes "distinct sigs" "x \<in> set sigs" "bit tu x" "disposition s x \<noteq> Blocked_handler" "\<forall>y \<in> set sigs. y < 32"
  shows "\<exists>s'. unblock_loop sig_ok tu sigs s = Aborted s'"
  using assms
proof (induction sigs arbitrary: s)
  case Nil
  then show ?case by simp
next
  case (Cons sig sigs)
  show ?case
  proof (cases "x = sig")
    case True
    then show ?thesis using Cons.prems by (auto simp: shifted_bit_iff c_signal_def)
  next
    case False
    have down: "\<exists>s'. r = Aborted s' \<Longrightarrow> \<exists>s'. cbind r f = Aborted s'" for r :: "(bool list, sigstate) cres" and f
      by auto
    from False have keep: "\<And>h t. disposition (snd (c_signal sig_ok sig h t)) x = disposition t x"
      by (simp add: c_signal_def)
    show ?thesis
      using Cons.prems False
      by (auto simp: shifted_bit_iff keep case_prod_beta intro!: down Cons.IH)
  qed
qed

lemma unblock_loop_undefined:
  assumes "\<exists>x \<in> set sigs. 32 \<le> x" "distinct sigs"
    and "\<forall>x \<in> set sigs. bit tu x \<longrightarrow> sig_ok x \<and> disposition s x = Blocked_handler"
  shows "unblock_loop sig_ok tu sigs s = Undefined"
  using assms
proof (induction sigs arbitrary: s)
  case Nil
  then show ?case by simp
next
  case (Cons sig sigs)
  have down: "r = Undefined \<Longrightarrow> cbind r f = Undefined" for r :: "(bool list, sigstate) cres" and f
    by simp
  have keep: "disposition (snd (c_signal sig_ok sig h t)) x = disposition t x" if "x \<in> set sigs" for h t x
    using Cons.prems(2) that by (auto simp: c_signal_def)
  show ?case
    using Cons.prems by (auto simp: shifted_bit_iff keep case_prod_beta c_signal_def intro!: down Cons.IH)
qed

lemma sig_inv_no_signals: "sig_inv sig_ok no_signals"
  by (simp add: sig_inv_def no_signals_def)

section \<open>Properties\<close>

text \<open>
  C10. Refinement of \<open>sigprocmask\<close>: from a state that satisfies the invariant, with \<open>NSIG\<close> between 8
  and 32, every valid operation returns 0 and the previous mask, does not abort, keeps the
  invariant, and acts on the application's view as the specification does: the mask becomes the
  new set (less the signals that \<open>signal\<close> refuses), handlers stay as installed, and each pending
  signal that is unblocked is delivered once to its own handler, in increasing order.
\<close>

theorem sigprocmask_refines:
  assumes "sig_inv sig_ok s" "8 \<le> nsig" "nsig \<le> 32" "new_blocked how (blocked_set s) m = Some nb"
  shows "\<exists>s'. sigprocmask nsig sig_ok how (Some m) s = Return (0, blocked_set s) s' \<and>
    sig_inv sig_ok s' \<and>
    signal_view_of s' = view_setmask nsig (\<lambda>x. bit nb x \<and> sig_ok x) (signal_view_of s)"
  by (rule sigprocmask_view [OF assms])

theorem sigprocmask_refines_witness:
  "\<exists>s'. sigprocmask 16 (\<lambda>x. x \<noteq> 3) SIG_BLOCK (Some 12) no_signals = Return (0, 0) s' \<and>
    sig_inv (\<lambda>x. x \<noteq> 3) s' \<and>
    signal_view_of s' = view_setmask 16 (\<lambda>x. bit (12 :: sigset) x \<and> x \<noteq> 3) (signal_view_of no_signals)"
  using sigprocmask_refines [of "\<lambda>x. x \<noteq> 3" no_signals 16 SIG_BLOCK 12 12] sig_inv_no_signals
  by (simp add: new_blocked_def sig_how_defs no_signals_def)

text \<open>
  C11. Signals that arrive while blocked: between a \<open>sigprocmask\<close> that blocks more signals and the
  one that restores the mask, signals of the blocked set may be raised in any order and any number
  of times. Both calls succeed, no handler runs in between, and afterwards the mask and all
  handlers are as before while each signal that arrived and was not masked at the start has been
  delivered exactly once.
\<close>

theorem deferred_delivery:
  assumes "8 \<le> nsig" "nsig \<le> 32" "sig_inv sig_ok s" "\<forall>x. bit (blocked_set s) x \<longrightarrow> bit m x"
    and "\<forall>x \<in> set sigs. x < nsig \<and> bit m x \<and> sig_ok x"
  shows "\<exists>old s1 m' s2.
    sigprocmask nsig sig_ok SIG_SETMASK (Some m) s = Return (0, old) s1 \<and>
    sigprocmask nsig sig_ok SIG_SETMASK (Some old) (fold (c_raise nsig sig_ok) sigs s1) = Return (0, m') s2 \<and>
    sig_inv sig_ok s2 \<and>
    signal_view_of s2 = (signal_view_of s)\<lparr>
      v_pending := (\<lambda>x. v_pending (signal_view_of s) x \<or> x \<in> set sigs \<and> v_mask (signal_view_of s) x),
      v_log := v_log (signal_view_of s) @ map (\<lambda>x. (x, v_action (signal_view_of s) x))
        (filter (\<lambda>x. x \<in> set sigs \<and> \<not> v_mask (signal_view_of s) x) [0..<nsig])\<rparr>"
proof -
  have "sig_sound (nsig, sig_ok) s" using assms by (simp add: sig_sound_def)
  moreover have "\<forall>x. v_mask (signal_view_of s) x \<longrightarrow> bit m x \<and> sig_ok x"
    using assms(3,4) by (auto simp: signal_view_of_def sig_inv_def)
  ultimately show ?thesis
    using sigs.critical_section [of "(nsig, sig_ok)" s m sigs] assms(5)
    by (simp add: sig_setmask_def sig_sound_def)
qed

theorem deferred_delivery_witness:
  "\<exists>old s1 m' s2.
    sigprocmask 16 (\<lambda>_. True) SIG_SETMASK (Some 12) no_signals = Return (0, old) s1 \<and>
    sigprocmask 16 (\<lambda>_. True) SIG_SETMASK (Some old) (fold (c_raise 16 (\<lambda>_. True)) [3, 2, 3] s1) = Return (0, m') s2 \<and>
    delivered s2 = [(2, App 2), (3, App 3)]"
proof -
  have "\<forall>x \<in> set [3, 2, 3 :: nat]. x < 16 \<and> bit (12 :: sigset) x \<and> True"
    by (simp add: bit_numeral_rec)
  from deferred_delivery [of 16 "\<lambda>_. True" no_signals 12, OF _ _ sig_inv_no_signals _ this]
  obtain old s1 m' s2 where run:
    "sigprocmask 16 (\<lambda>_. True) SIG_SETMASK (Some 12) no_signals = Return (0, old) s1"
    "sigprocmask 16 (\<lambda>_. True) SIG_SETMASK (Some old) (fold (c_raise 16 (\<lambda>_. True)) [3, 2, 3] s1) = Return (0, m') s2"
    and view: "signal_view_of s2 = (signal_view_of no_signals)\<lparr>
      v_pending := (\<lambda>x. v_pending (signal_view_of no_signals) x \<or> x \<in> set [3, 2, 3] \<and> v_mask (signal_view_of no_signals) x),
      v_log := v_log (signal_view_of no_signals) @ map (\<lambda>x. (x, v_action (signal_view_of no_signals) x))
        (filter (\<lambda>x. x \<in> set [3, 2, 3] \<and> \<not> v_mask (signal_view_of no_signals) x) [0..<16])\<rparr>"
    by (auto simp: no_signals_def)
  have "delivered s2 = [(2, App 2), (3, App 3)]"
    using arg_cong [OF view, of v_log] by (simp add: signal_view_of_def no_signals_def upt_rec)
  with run show ?thesis by blast
qed

text \<open>
  C12. The other branches of \<open>sigprocmask\<close>, in every state: without a set it only reports the mask; with an
  unknown operation it fails with \<open>EINVAL\<close> and leaves the mask and the handlers alone. And in every state of the
  invariant: when the application replaces the handler of a blocked signal by another, each operation that
  unblocks this signal aborts.
\<close>

theorem sigprocmask_other_branches:
  assumes "sig_inv sig_ok s" "nsig \<le> 32" "x < nsig" "bit (blocked_set s) x"
    and "h \<notin> {Blocked_handler, SIG_ERR}" "new_blocked op (blocked_set s) m = Some nb" "\<not> bit nb x"
  shows "(\<forall>how s. sigprocmask nsig sig_ok how None s = Return (0, blocked_set s) s) \<and>
    (\<forall>how m s. how \<notin> {SIG_BLOCK, SIG_UNBLOCK, SIG_SETMASK} \<longrightarrow>
       sigprocmask nsig sig_ok how (Some m) s = Return (- 1, blocked_set s) (s\<lparr>sig_errno := EINVAL\<rparr>)) \<and>
    (\<exists>t. sigprocmask nsig sig_ok op (Some m) (snd (c_signal sig_ok x h s)) = Aborted t)"
proof (intro conjI)
  show "\<forall>how s. sigprocmask nsig sig_ok how None s = Return (0, blocked_set s) s"
    by (simp add: sigprocmask_def)
  show "\<forall>how m s. how \<notin> {SIG_BLOCK, SIG_UNBLOCK, SIG_SETMASK} \<longrightarrow>
       sigprocmask nsig sig_ok how (Some m) s = Return (- 1, blocked_set s) (s\<lparr>sig_errno := EINVAL\<rparr>)"
    by (simp add: sigprocmask_def new_blocked_def)
  define r where "r = snd (c_signal sig_ok x h s)"
  have r: "blocked_set r = blocked_set s" "disposition r x = h" "\<forall>y. disposition r y \<noteq> SIG_ERR"
    using assms(1,4,5) by (auto simp: r_def c_signal_def sig_inv_def)
  let ?tu = "blocked_set s AND NOT nb" and ?tb = "nb AND NOT (blocked_set s)"
  have bits: "bit ?tu x" "\<not> bit ?tb x"
    using assms(4,7) bit8_lt [OF assms(4)] by (simp_all add: bit_simps)
  have "\<forall>y \<in> set [0..<nsig]. y < 32" using assms(2) by auto
  from block_loop_spec [OF this _ r(3), of sig_ok ?tb] bits(2) obtain r1 where
    r1: "block_loop sig_ok ?tb [0..<nsig] r = Return () r1" "disposition r1 x = h"
    using r(2) by auto
  define q where "q = (if ?tb \<noteq> 0 then r1 else r)"
  have "disposition q x \<noteq> Blocked_handler" using r(2) r1(2) assms(5) by (simp add: q_def)
  then obtain t where "unblock_loop sig_ok ?tu [0..<nsig] q = Aborted t"
    using unblock_loop_aborts [of "[0..<nsig]" x ?tu q sig_ok] bits(1) assms(2,3) by auto
  moreover have "?tu \<noteq> 0" using bits(1) by auto
  moreover have "(if ?tb \<noteq> 0 then block_loop sig_ok ?tb [0..<nsig] r else Return () r) = Return () q"
    using r1(1) by (simp add: q_def)
  ultimately show "\<exists>t. sigprocmask nsig sig_ok op (Some m) (snd (c_signal sig_ok x h s)) = Aborted t"
    unfolding r_def [symmetric] by (simp add: sigprocmask_def r(1) assms(6) Let_def)
qed

theorem sigprocmask_other_branches_witness:
  "\<exists>s t. sigprocmask 16 (\<lambda>_. True) SIG_BLOCK (Some 4) no_signals = Return (0, 0) s \<and>
     sigprocmask 16 (\<lambda>_. True) 7 (Some 1) s = Return (- 1, 4) (s\<lparr>sig_errno := EINVAL\<rparr>) \<and>
     sigprocmask 16 (\<lambda>_. True) SIG_UNBLOCK (Some 4) (snd (c_signal (\<lambda>_. True) 2 (App 9) s)) = Aborted t"
proof -
  obtain s where s: "sigprocmask 16 (\<lambda>_. True) SIG_BLOCK (Some 4) no_signals = Return (0, 0) s"
    "sig_inv (\<lambda>_. True) s" "\<forall>x. bit (blocked_set s) x = bit (4 :: sigset) x"
    by (rule sigprocmask_new [OF sig_inv_no_signals [of "\<lambda>_. True"], of 16 SIG_BLOCK 4 4])
      (simp_all add: new_blocked_def sig_how_defs no_signals_def)
  then have b: "blocked_set s = 4" by (simp add: bit_eq_iff)
  have "bit (4 :: sigset) 2" by (simp add: bit_numeral_rec)
  with sigprocmask_other_branches [OF s(2), of 16 2 "App 9" SIG_UNBLOCK 4 0] b
  obtain t where "sigprocmask 16 (\<lambda>_. True) 7 (Some 1) s = Return (- 1, 4) (s\<lparr>sig_errno := EINVAL\<rparr>)"
    "sigprocmask 16 (\<lambda>_. True) SIG_UNBLOCK (Some 4) (snd (c_signal (\<lambda>_. True) 2 (App 9) s)) = Aborted t"
    by (auto simp: new_blocked_def sig_how_defs)
  with s(1) show ?thesis by blast
qed

text \<open>
  C13. Signal sets hold only eight signals: below 8, \<open>sigaddset\<close> and \<open>sigdelset\<close> add and remove
  exactly their signal; from 8 to 31 \<open>sigaddset\<close> reports success and changes nothing, although
  these are valid signal numbers; outside of \<open>0..<NSIG\<close> both fail with \<open>EINVAL\<close>.
\<close>

theorem sigset_capacity:
  assumes "8 \<le> nsig" "nsig \<le> 32"
  shows "(\<forall>sig < 8. \<exists>m'. sigaddset nsig m (int sig) s = Return (0, m') s \<and>
      (\<forall>x. bit m' x \<longleftrightarrow> bit m x \<or> x = sig)) \<and>
    (\<forall>sig < nsig. \<exists>m'. sigdelset nsig m (int sig) s = Return (0, m') s \<and>
      (\<forall>x. bit m' x \<longleftrightarrow> bit m x \<and> x \<noteq> sig)) \<and>
    (\<forall>sig. 8 \<le> sig \<and> sig < nsig \<longrightarrow> sigaddset nsig m (int sig) s = Return (0, m) s) \<and>
    (\<forall>sig. sig < 0 \<or> int nsig \<le> sig \<longrightarrow>
      sigaddset nsig m sig s = Return (- 1, m) (s\<lparr>sig_errno := EINVAL\<rparr>) \<and>
      sigdelset nsig m sig s = Return (- 1, m) (s\<lparr>sig_errno := EINVAL\<rparr>))"
proof (intro conjI)
  show "\<forall>sig < 8. \<exists>m'. sigaddset nsig m (int sig) s = Return (0, m') s \<and>
      (\<forall>x. bit m' x \<longleftrightarrow> bit m x \<or> x = sig)"
    using assms bit8_lt by (fastforce simp: sigaddset_def bit_set8 [unfolded push_bit_of_1])
  show "\<forall>sig < nsig. \<exists>m'. sigdelset nsig m (int sig) s = Return (0, m') s \<and>
      (\<forall>x. bit m' x \<longleftrightarrow> bit m x \<and> x \<noteq> sig)"
    using assms by (fastforce simp: sigdelset_def bit_clear8 [unfolded push_bit_of_1])
  have "ucast ((ucast m :: 32 word) OR push_bit sig 1) = m" if "8 \<le> sig" for sig
    using that bit8_lt [of m] by (intro bit_word_eqI) (auto simp: bit_set8 [unfolded push_bit_of_1])
  then show "\<forall>sig. 8 \<le> sig \<and> sig < nsig \<longrightarrow> sigaddset nsig m (int sig) s = Return (0, m) s"
    using assms by (auto simp: sigaddset_def)
qed (auto simp: sigaddset_def sigdelset_def)

theorem sigset_capacity_witness:
  "sigaddset 32 0 15 no_signals = Return (0, 0) no_signals \<and>
   sigaddset 32 5 40 no_signals = Return (- 1, 5) (no_signals\<lparr>sig_errno := EINVAL\<rparr>)"
proof -
  have "sigaddset 32 0 (int 15) no_signals = Return (0, 0) no_signals"
    using sigset_capacity [of 32 0 no_signals] by (simp del: of_nat_numeral)
  moreover have "sigaddset 32 5 40 no_signals = Return (- 1, 5) (no_signals\<lparr>sig_errno := EINVAL\<rparr>)"
    using sigset_capacity [of 32 5 no_signals] by simp
  ultimately show ?thesis by simp
qed

text \<open>
  C14. With an \<open>NSIG\<close> above 32 the loops of \<open>sigprocmask\<close> shift an \<open>int\<close> by 32 and more: in every state of the
  invariant, each call that changes the mask is undefined behaviour, whatever the operation.
\<close>

theorem sigprocmask_wide_undefined:
  assumes "sig_inv sig_ok s" "32 < nsig" "new_blocked how (blocked_set s) m = Some nb" "nb \<noteq> blocked_set s"
  shows "sigprocmask nsig sig_ok how (Some m) s = Undefined"
proof (cases "nb AND NOT (blocked_set s) = 0")
  case True
  have "\<exists>x. bit nb x \<noteq> bit (blocked_set s) x" using assms(4) by (auto simp: bit_eq_iff)
  then obtain x where "bit nb x \<noteq> bit (blocked_set s) x" "x < 8" by (auto dest: bit8_lt)
  moreover from True have "\<not> bit (nb AND NOT (blocked_set s)) x" by simp
  ultimately have "bit (blocked_set s AND NOT nb) x" by (auto simp: bit_simps)
  then have "blocked_set s AND NOT nb \<noteq> 0" by auto
  moreover have "unblock_loop sig_ok (blocked_set s AND NOT nb) [0..<nsig] s = Undefined"
    by (rule unblock_loop_undefined)
      (use assms(1,2) in \<open>auto simp: sig_inv_def bit_and_iff intro!: bexI [of _ 32]\<close>)
  ultimately show ?thesis using True by (simp add: sigprocmask_def assms(3) Let_def)
next
  case False
  have "block_loop sig_ok (nb AND NOT (blocked_set s)) [0..<nsig] s = Undefined"
    by (rule block_loop_undefined) (use assms(2) in \<open>auto intro!: bexI [of _ 32]\<close>)
  with False show ?thesis by (simp add: sigprocmask_def assms(3) Let_def)
qed

theorem sigprocmask_wide_undefined_witness:
  "sigprocmask 65 (\<lambda>_. True) SIG_BLOCK (Some 4) no_signals = Undefined \<and>
   sigprocmask 65 (\<lambda>_. True) SIG_SETMASK (Some 0)
     (no_signals\<lparr>blocked_set := 4, disposition := App(2 := Blocked_handler)\<rparr>) = Undefined"
proof -
  let ?s = "no_signals\<lparr>blocked_set := 4, disposition := App(2 := Blocked_handler)\<rparr>"
  have "bit (4 :: sigset) x \<longleftrightarrow> x = 2" for x
    using bit_exp_iff [of 2 x, where ?'a = "8 word"] by auto
  then have "sig_inv (\<lambda>_. True) ?s" by (auto simp: sig_inv_def no_signals_def)
  from sigprocmask_wide_undefined [OF sig_inv_no_signals [of "\<lambda>_. True"], of 65 SIG_BLOCK 4 4]
    sigprocmask_wide_undefined [OF this, of 65 SIG_SETMASK 0 0]
  show ?thesis by (simp add: new_blocked_def sig_how_defs no_signals_def)
qed

end
