(* ===== verification/Shared_Memory.thy ===== *)
theory Shared_Memory
  imports File_System
begin

text \<open>
  POSIX shared memory emulated by files: \<open>get_shm_path\<close>, \<open>shm_open\<close> and \<open>shm_unlink\<close> of
  \<open>sdk_port-wasi.c\<close>, and the two static functions of \<open>sdk_port.h\<close> that replace them when
  \<open>PYDK\<close> is not defined. The environment variable \<open>SHM\<close> is the field \<open>env_SHM\<close>; what the
  functions print is not modelled. \<open>fileno (NULL)\<close> and the overflow of \<open>shm_index\<close> are
  undefined behaviour.

  The locale \<open>named_segments\<close> is the interface of both implementations.
\<close>

section \<open>State and operations\<close>

record shm =
  shm_index :: int
  env_SHM :: "string option"
  shm_fs :: libc

definition get_shm_path :: "string \<Rightarrow> shm \<Rightarrow> (path, shm) cres" where
  "get_shm_path name s =
     (case env_SHM s of
        Some v \<Rightarrow>
          (if shm_index s + 1 < 2 ^ 31
           then Return (snprintf 128 (v @ ''.'' @ show_int (shm_index s))) (s\<lparr>shm_index := shm_index s + 1\<rparr>)
           else Undefined)
      | None \<Rightarrow> Return (snprintf 128 (''/tmp'' @ name)) s)"

definition shm_open :: "string \<Rightarrow> shm \<Rightarrow> (int, shm) cres" where
  "shm_open name s =
     cbind (get_shm_path name s) (\<lambda>tmpnam s.
       case fopen tmpnam WritePlusMode (shm_fs s) of
         (None, fs) \<Rightarrow> Undefined
       | (Some f, fs) \<Rightarrow> Return (int f) (s\<lparr>shm_fs := fs\<rparr>))"

definition shm_unlink :: "string \<Rightarrow> shm \<Rightarrow> (int, shm) cres" where
  "shm_unlink name s =
     (if env_SHM s \<noteq> None then Return 0 s
      else cbind (get_shm_path name s) (\<lambda>tmpnam s.
        case unlink tmpnam (shm_fs s) of (r, fs) \<Rightarrow> Return r (s\<lparr>shm_fs := fs\<rparr>)))"

text \<open>The replacements in \<open>sdk_port.h\<close>.\<close>

definition static_shm_open :: "string \<Rightarrow> libc \<Rightarrow> (int, libc) cres" where
  "static_shm_open name s =
     (case fopen (snprintf 128 (''/tmp'' @ name)) WritePlusMode s of
        (None, s') \<Rightarrow> Undefined
      | (Some f, s') \<Rightarrow> Return (int f) s')"

definition static_shm_unlink :: "string \<Rightarrow> libc \<Rightarrow> (int, libc) cres" where
  "static_shm_unlink name s =
     (case unlink (snprintf 128 (''/tmp'' @ name)) s of (r, s') \<Rightarrow> Return r s')"

section \<open>Invariant and paths\<close>

definition shm_path :: "string \<Rightarrow> path" where
  "shm_path name = snprintf 128 (''/tmp'' @ name)"

definition shm_inv :: "shm \<Rightarrow> bool" where
  "shm_inv s \<longleftrightarrow> wf_libc (shm_fs s) \<and> 0 \<le> shm_index s"

lemma shm_path_inject: "length m \<le> 123 \<Longrightarrow> length n \<le> 123 \<Longrightarrow> shm_path m = shm_path n \<longleftrightarrow> m = n"
  by (simp add: shm_path_def snprintf_def)

lemma static_open_spec:
  assumes "wf_libc s" "path_err s (shm_path name) = None"
  shows "\<exists>fd s'. static_shm_open name s = Return (int fd) s' \<and> wf_libc s' \<and>
    path_err s' = path_err s \<and> contents s' = (contents s)(shm_path name \<mapsto> []) \<and>
    fd \<notin> set (map fst (opened s)) \<and>
    (\<exists>f. opened s' = (fd, f) # opened s \<and> entries s' (shm_path name) = Some (of_ino f) \<and> of_rd f \<and> of_wr f)"
proof -
  from fopen_write [OF assms fmode.distinct(4)] obtain i s' where
    "fopen (shm_path name) WritePlusMode s = (Some (alloc_fd (opened s)), s')"
    "opened s' = (alloc_fd (opened s),
       \<lparr>of_ino = i, of_pos = 0, of_rd = (WritePlusMode \<noteq> WriteMode), of_wr = True\<rparr>) # opened s"
    "entries s' (shm_path name) = Some i" "contents s' = (contents s)(shm_path name \<mapsto> [])"
    "path_err s' = path_err s" "wf_libc s'" .
  then show ?thesis
    using alloc_fd_fresh [of "opened s"]
    by (intro exI [of _ "alloc_fd (opened s)"] exI [of _ s'])
       (simp add: static_shm_open_def shm_path_def)
qed

lemma static_unlink_spec:
  assumes "wf_libc s" "path_err s (shm_path name) = None"
  shows "\<exists>s'. static_shm_unlink name s = Return (if contents s (shm_path name) = None then - 1 else 0) s' \<and>
    wf_libc s' \<and> path_err s' = path_err s \<and> contents s' = (contents s)(shm_path name := None)"
proof -
  have "path_err (snd (unlink (shm_path name) s)) = path_err s"
    by (auto simp: unlink_def split: option.split)
  moreover have "fst (unlink (shm_path name) s) = (if contents s (shm_path name) = None then - 1 else 0)"
    using assms by (auto simp: unlink_def contents_def split: option.split)
  moreover have "static_shm_unlink name s =
      Return (fst (unlink (shm_path name) s)) (snd (unlink (shm_path name) s))"
    by (simp add: static_shm_unlink_def shm_path_def case_prod_beta)
  ultimately show ?thesis
    using contents_unlink [OF assms(2)] wf_unlink [OF assms(1), of "shm_path name"] by simp
qed

lemma shm_open_static:
  assumes "env_SHM s = None"
  shows "shm_open name s = (case static_shm_open name (shm_fs s) of
      Return r fs \<Rightarrow> Return r (s\<lparr>shm_fs := fs\<rparr>) | Aborted fs \<Rightarrow> Aborted (s\<lparr>shm_fs := fs\<rparr>) | Undefined \<Rightarrow> Undefined)"
    and "shm_unlink name s = (case static_shm_unlink name (shm_fs s) of
      Return r fs \<Rightarrow> Return r (s\<lparr>shm_fs := fs\<rparr>) | Aborted fs \<Rightarrow> Aborted (s\<lparr>shm_fs := fs\<rparr>) | Undefined \<Rightarrow> Undefined)"
  using assms
  by (auto simp: shm_open_def static_shm_open_def shm_unlink_def static_shm_unlink_def get_shm_path_def
      split: prod.split option.split)

section \<open>The interface of named segments\<close>

locale named_segments =
  fixes ready :: "'s \<Rightarrow> path \<Rightarrow> bool"
    and store :: "'s \<Rightarrow> path \<Rightarrow> byte list option"
    and attach :: "string \<Rightarrow> 's \<Rightarrow> (int, 's) cres"
    and detach :: "string \<Rightarrow> 's \<Rightarrow> (int, 's) cres"
  assumes attach_law: "ready s (shm_path n) \<Longrightarrow> \<exists>fd s'. attach n s = Return fd s' \<and> 0 \<le> fd \<and>
      store s' = (store s)(shm_path n \<mapsto> []) \<and> ready s' = ready s"
    and detach_law: "ready s (shm_path n) \<Longrightarrow>
      \<exists>s'. detach n s = Return (if store s (shm_path n) = None then - 1 else 0) s' \<and>
        store s' = (store s)(shm_path n := None) \<and> ready s' = ready s"
begin

text \<open>Creating a segment and removing it leaves the other files alone.\<close>

lemma attach_detach:
  assumes "ready s (shm_path n)"
  shows "\<exists>fd s1 s2. attach n s = Return fd s1 \<and> 0 \<le> fd \<and> store s1 = (store s)(shm_path n \<mapsto> []) \<and>
    detach n s1 = Return 0 s2 \<and> store s2 = (store s)(shm_path n := None) \<and> ready s2 = ready s"
proof -
  from attach_law [OF assms] obtain fd s1 where s1: "attach n s = Return fd s1" "0 \<le> fd"
    "store s1 = (store s)(shm_path n \<mapsto> [])" "ready s1 = ready s" by blast
  with assms have "ready s1 (shm_path n)" by simp
  from detach_law [OF this] s1 show ?thesis by auto
qed

text \<open>Segments with different names do not disturb each other, if the names fit the buffer.\<close>

lemma two_segments:
  assumes "ready s (shm_path m)" "ready s (shm_path n)" "m \<noteq> n" "length m \<le> 123" "length n \<le> 123"
  shows "\<exists>f g s1 s2. attach m s = Return f s1 \<and> attach n s1 = Return g s2 \<and>
    store s2 (shm_path m) = store s1 (shm_path m) \<and>
    store s2 = (store s)(shm_path m \<mapsto> [], shm_path n \<mapsto> [])"
proof -
  from attach_law [OF assms(1)] obtain f s1 where s1: "attach m s = Return f s1"
    "store s1 = (store s)(shm_path m \<mapsto> [])" "ready s1 = ready s" by blast
  with assms(2) have "ready s1 (shm_path n)" by simp
  from attach_law [OF this] obtain g s2 where "attach n s1 = Return g s2"
    "store s2 = (store s1)(shm_path n \<mapsto> [])" by blast
  with s1 show ?thesis using assms(3-) shm_path_inject by auto
qed

end

interpretation static_shm: named_segments "\<lambda>s p. wf_libc s \<and> path_err s p = None" contents
  static_shm_open static_shm_unlink
proof unfold_locales
  fix s :: libc and n
  assume s: "wf_libc s \<and> path_err s (shm_path n) = None"
  show "\<exists>fd s'. static_shm_open n s = Return fd s' \<and> 0 \<le> fd \<and> contents s' = (contents s)(shm_path n \<mapsto> []) \<and>
      (\<lambda>p. wf_libc s' \<and> path_err s' p = None) = (\<lambda>p. wf_libc s \<and> path_err s p = None)"
    using static_open_spec [of s n] s by fastforce
  show "\<exists>s'. static_shm_unlink n s = Return (if contents s (shm_path n) = None then - 1 else 0) s' \<and>
      contents s' = (contents s)(shm_path n := None) \<and>
      (\<lambda>p. wf_libc s' \<and> path_err s' p = None) = (\<lambda>p. wf_libc s \<and> path_err s p = None)"
    using static_unlink_spec [of s n] s by auto
qed

interpretation port_shm: named_segments
  "\<lambda>s p. env_SHM s = None \<and> shm_inv s \<and> path_err (shm_fs s) p = None" "\<lambda>s. contents (shm_fs s)"
  shm_open shm_unlink
proof unfold_locales
  fix s n
  assume s: "env_SHM s = None \<and> shm_inv s \<and> path_err (shm_fs s) (shm_path n) = None"
  show "\<exists>fd s'. shm_open n s = Return fd s' \<and> 0 \<le> fd \<and>
      contents (shm_fs s') = (contents (shm_fs s))(shm_path n \<mapsto> []) \<and>
      (\<lambda>p. env_SHM s' = None \<and> shm_inv s' \<and> path_err (shm_fs s') p = None) =
      (\<lambda>p. env_SHM s = None \<and> shm_inv s \<and> path_err (shm_fs s) p = None)"
    using static_open_spec [of "shm_fs s" n] s by (fastforce simp: shm_open_static shm_inv_def)
  show "\<exists>s'. shm_unlink n s = Return (if contents (shm_fs s) (shm_path n) = None then - 1 else 0) s' \<and>
      contents (shm_fs s') = (contents (shm_fs s))(shm_path n := None) \<and>
      (\<lambda>p. env_SHM s' = None \<and> shm_inv s' \<and> path_err (shm_fs s') p = None) =
      (\<lambda>p. env_SHM s = None \<and> shm_inv s \<and> path_err (shm_fs s) p = None)"
    using static_unlink_spec [of "shm_fs s" n] s by (auto simp: shm_open_static shm_inv_def)
qed

section \<open>Properties\<close>

definition demo_shm :: shm where
  "demo_shm = \<lparr>shm_index = 0, env_SHM = None, shm_fs = init_libc\<rparr>"

text \<open>
  C15. A segment's life without \<open>SHM\<close>: from a consistent state, \<open>shm_open\<close> succeeds and leaves an
  empty file under the segment's path, and \<open>shm_unlink\<close> then returns 0 and removes it; every other
  file is as before, and the state stays consistent.
\<close>

theorem shm_lifecycle:
  assumes "env_SHM s = None" "shm_inv s" "path_err (shm_fs s) (shm_path name) = None"
  shows "\<exists>fd s1 s2. shm_open name s = Return fd s1 \<and> 0 \<le> fd \<and>
    contents (shm_fs s1) = (contents (shm_fs s))(shm_path name \<mapsto> []) \<and>
    shm_unlink name s1 = Return 0 s2 \<and>
    contents (shm_fs s2) = (contents (shm_fs s))(shm_path name := None) \<and> shm_inv s2"
  using port_shm.attach_detach [of s name] assms by (simp add: fun_eq_iff) metis

theorem shm_lifecycle_witness:
  "\<exists>fd s1 s2. shm_open ''/PostgreSQL.1'' demo_shm = Return fd s1 \<and> 0 \<le> fd \<and>
    contents (shm_fs s1) = [''/tmp/PostgreSQL.1'' \<mapsto> []] \<and>
    shm_unlink ''/PostgreSQL.1'' s1 = Return 0 s2 \<and> contents (shm_fs s2) = Map.empty \<and> shm_inv s2"
proof -
  have "shm_inv demo_shm" "path_err (shm_fs demo_shm) (shm_path ''/PostgreSQL.1'') = None"
    "env_SHM demo_shm = None" "contents (shm_fs demo_shm) = Map.empty"
    "shm_path ''/PostgreSQL.1'' = ''/tmp/PostgreSQL.1''"
    by (simp_all add: shm_inv_def demo_shm_def shm_path_def snprintf_def fun_eq_iff)
  then show ?thesis using shm_lifecycle [of demo_shm "''/PostgreSQL.1''"] by simp
qed

text \<open>
  C16. Names and segments without \<open>SHM\<close>: two names of at most 123 characters denote different
  segments, so that opening the second does not touch the first; names that agree in their first
  123 characters are cut by \<open>snprintf\<close> to the same path; and \<open>shm_open\<close> of a segment that exists
  erases its contents, as the flags are ignored and the file is opened with mode \<open>w+\<close>.
\<close>

theorem shm_names:
  assumes "env_SHM s = None" "shm_inv s" "path_err (shm_fs s) (shm_path m) = None"
    and "path_err (shm_fs s) (shm_path n) = None"
  shows "(m \<noteq> n \<and> length m \<le> 123 \<and> length n \<le> 123 \<longrightarrow>
      (\<exists>f g s1 s2. shm_open m s = Return f s1 \<and> shm_open n s1 = Return g s2 \<and>
         contents (shm_fs s2) (shm_path m) = contents (shm_fs s1) (shm_path m) \<and>
         contents (shm_fs s2) = (contents (shm_fs s))(shm_path m \<mapsto> [], shm_path n \<mapsto> []))) \<and>
    (take 123 m = take 123 n \<longrightarrow> get_shm_path m s = get_shm_path n s) \<and>
    (\<exists>f s1. shm_open m s = Return f s1 \<and> contents (shm_fs s1) (shm_path m) = Some [])"
proof (intro conjI impI)
  show "\<exists>f g s1 s2. shm_open m s = Return f s1 \<and> shm_open n s1 = Return g s2 \<and>
         contents (shm_fs s2) (shm_path m) = contents (shm_fs s1) (shm_path m) \<and>
         contents (shm_fs s2) = (contents (shm_fs s))(shm_path m \<mapsto> [], shm_path n \<mapsto> [])"
    if "m \<noteq> n \<and> length m \<le> 123 \<and> length n \<le> 123"
    using port_shm.two_segments [of s m n] assms that by simp
  show "get_shm_path m s = get_shm_path n s" if "take 123 m = take 123 n"
    using that by (simp add: get_shm_path_def snprintf_def assms(1))
  show "\<exists>f s1. shm_open m s = Return f s1 \<and> contents (shm_fs s1) (shm_path m) = Some []"
    using port_shm.attach_law [of s m] assms(1-3) by auto
qed

theorem shm_names_witness:
  "\<exists>f s1. shm_open ''/a'' (demo_shm\<lparr>shm_fs := put_file ''/tmp/a'' [1, 2] init_libc\<rparr>) = Return f s1 \<and>
     contents (put_file ''/tmp/a'' [1, 2] init_libc) ''/tmp/a'' = Some [1, 2] \<and>
     contents (shm_fs s1) ''/tmp/a'' = Some []"
proof -
  let ?l = "put_file ''/tmp/a'' [1, 2] init_libc"
  let ?s = "demo_shm\<lparr>shm_fs := ?l\<rparr>"
  have "wf_libc ?l" "contents ?l ''/tmp/a'' = Some [1, 2]" "shm_path ''/a'' = ''/tmp/a''"
    using fs.content_put [of init_libc "''/tmp/a''" "[1, 2]"]
    by (auto simp: wf_intros shm_path_def snprintf_def) (simp add: init_libc_def)
  then show ?thesis
    using shm_names [of ?s "''/a''" "''/b''"]
    by (simp add: demo_shm_def shm_inv_def) (simp add: shm_path_def snprintf_def)
qed

text \<open>
  C17. Behaviour with \<open>SHM\<close> set: the name is ignored. Every \<open>shm_open\<close> creates a new empty file
  \<open>$SHM.<index>\<close>, so that two calls with the same name do not share memory (as long as the path
  fits the buffer), and \<open>shm_unlink\<close> reports success and removes nothing.
\<close>

theorem shm_env_mode:
  assumes "env_SHM s = Some v" "shm_inv s" "shm_index s < 2147483646"
    and "length (v @ ''.'' @ show_int (shm_index s)) \<le> 127"
    and "length (v @ ''.'' @ show_int (shm_index s + 1)) \<le> 127"
    and "\<forall>k. path_err (shm_fs s) (v @ ''.'' @ show_int k) = None"
  shows "\<exists>f g s1 s2 p q. shm_open name s = Return f s1 \<and> shm_open name s1 = Return g s2 \<and> p \<noteq> q \<and>
    contents (shm_fs s1) = (contents (shm_fs s))(p \<mapsto> []) \<and>
    contents (shm_fs s2) = (contents (shm_fs s))(p \<mapsto> [], q \<mapsto> []) \<and>
    shm_unlink name s2 = Return 0 s2"
proof -
  let ?p = "v @ ''.'' @ show_int (shm_index s)" and ?q = "v @ ''.'' @ show_int (shm_index s + 1)"
  have wf: "wf_libc (shm_fs s)" "0 \<le> shm_index s" using assms(2) by (simp_all add: shm_inv_def)
  have pe: "path_err (shm_fs s) ?p = None" "path_err (shm_fs s) ?q = None" using assms(6) by blast+
  from fopen_writes [OF wf(1) pe(1) fmode.distinct(4)] obtain f l where
    l: "fopen ?p WritePlusMode (shm_fs s) = (Some f, l)"
    "contents l = (contents (shm_fs s))(?p \<mapsto> [])" "path_err l = path_err (shm_fs s)" "wf_libc l"
    by blast
  with pe(2) have "path_err l ?q = None" by simp
  from fopen_writes [OF l(4) this fmode.distinct(4)] obtain g l' where
    l': "fopen ?q WritePlusMode l = (Some g, l')" "contents l' = (contents l)(?q \<mapsto> [])"
    by blast
  define s1 where "s1 = s\<lparr>shm_index := shm_index s + 1, shm_fs := l\<rparr>"
  define s2 where "s2 = s\<lparr>shm_index := shm_index s + 2, shm_fs := l'\<rparr>"
  have "?p \<noteq> ?q" using wf(2) by (simp add: show_int_def nat_eq_iff)
  moreover have "shm_open name s = Return (int f) s1"
    using assms l by (simp add: shm_open_def get_shm_path_def snprintf_def s1_def)
  moreover have "shm_open name s1 = Return (int g) s2"
    using assms l' by (simp add: shm_open_def get_shm_path_def snprintf_def s1_def s2_def)
  moreover have "shm_unlink name s2 = Return 0 s2"
    using assms(1) by (simp add: shm_unlink_def s2_def)
  moreover have "contents (shm_fs s1) = (contents (shm_fs s))(?p \<mapsto> [])"
    by (simp add: s1_def l(2))
  moreover have "contents (shm_fs s2) = (contents (shm_fs s))(?p \<mapsto> [], ?q \<mapsto> [])"
    by (simp add: s2_def l(2) l'(2))
  ultimately show ?thesis by blast
qed

theorem shm_env_mode_witness:
  "\<exists>f g s1 s2 p q. shm_open ''/x'' (demo_shm\<lparr>env_SHM := Some ''/tmp/s''\<rparr>) = Return f s1 \<and>
    shm_open ''/x'' s1 = Return g s2 \<and> p \<noteq> q \<and>
    contents (shm_fs s1) = [p \<mapsto> []] \<and> contents (shm_fs s2) = [p \<mapsto> [], q \<mapsto> []] \<and>
    shm_unlink ''/x'' s2 = Return 0 s2"
proof -
  let ?s = "demo_shm\<lparr>env_SHM := Some ''/tmp/s''\<rparr>"
  have d: "length (digits_of 0) = 1" "length (digits_of (Suc 0)) = 1" by (subst digits_of.simps, simp)+
  have "contents (shm_fs ?s) = Map.empty" "shm_inv ?s" "shm_index ?s = 0" "env_SHM ?s = Some ''/tmp/s''"
    "\<forall>k. path_err (shm_fs ?s) (''/tmp/s'' @ ''.'' @ show_int k) = None"
    by (simp_all add: demo_shm_def shm_inv_def fun_eq_iff)
  then show ?thesis
    using shm_env_mode [of ?s "''/tmp/s''" "''/x''"] by (simp add: show_int_def d)
qed

text \<open>
  C18. The two implementations agree: without \<open>SHM\<close>, the functions of \<open>sdk_port-wasi.c\<close> compute the
  same result and the same file system as the static ones of \<open>sdk_port.h\<close>, undefined behaviour
  included.
\<close>

theorem shm_implementations_agree:
  assumes "env_SHM s = None"
  shows "shm_open name s = (case static_shm_open name (shm_fs s) of
      Return r fs \<Rightarrow> Return r (s\<lparr>shm_fs := fs\<rparr>) | Aborted fs \<Rightarrow> Aborted (s\<lparr>shm_fs := fs\<rparr>) | Undefined \<Rightarrow> Undefined) \<and>
    shm_unlink name s = (case static_shm_unlink name (shm_fs s) of
      Return r fs \<Rightarrow> Return r (s\<lparr>shm_fs := fs\<rparr>) | Aborted fs \<Rightarrow> Aborted (s\<lparr>shm_fs := fs\<rparr>) | Undefined \<Rightarrow> Undefined)"
  using shm_open_static [OF assms] by blast

theorem shm_implementations_agree_witness:
  "shm_unlink ''/none'' demo_shm = Return (- 1) (demo_shm\<lparr>shm_fs := init_libc\<lparr>errno := ENOENT\<rparr>\<rparr>)"
proof -
  have "unlink ''/tmp/none'' init_libc = (- 1, init_libc\<lparr>errno := ENOENT\<rparr>)"
    by (simp add: unlink_def) (simp add: init_libc_def)
  then show ?thesis
    using shm_implementations_agree [of demo_shm "''/none''"]
    by (simp add: demo_shm_def static_shm_unlink_def snprintf_def)
qed

end
