(* ===== verification/Temp_Names.thy ===== *)
theory Temp_Names
  imports File_System
begin

text \<open>
  Temporary file names of \<open>patch.h\<close>: \<open>__randname\<close>, \<open>mktemp\<close>, \<open>mkstemp\<close>, \<open>sdk_tmpfile\<close> and
  \<open>tempnam\<close>. The clock and the addresses that seed the names are parameters: \<open>t_clock n\<close> is the
  \<open>tv_nsec\<close> of the \<open>n\<close>-th reading, \<open>t_sp\<close> the address of the local \<open>ts\<close>, and each function takes
  the address of its template. A template is a \<open>char\<close> object with its terminator, changed in
  place. \<open>unsigned long\<close> and \<open>uintptr_t\<close> have 32 bits, with the product wrapping around as the
  compiled \<open>i32.mul\<close> does; \<open>FILENAME_MAX\<close> is 4096 (\<open>stdio.h\<close>).
\<close>

unbundle bit_operations_syntax

section \<open>State\<close>

record tstate =
  t_fs :: libc
  t_clock :: "nat \<Rightarrow> 32 word"
  t_tick :: nat
  t_sp :: "32 word"

definition FILENAME_MAX :: nat where "FILENAME_MAX = 4096"

section \<open>Random names\<close>

definition rand_seed :: "32 word \<Rightarrow> 32 word \<Rightarrow> 32 word \<Rightarrow> 32 word" where
  "rand_seed nsec ts tmpl = (nsec * 65537) XOR (ts div 16 + tmpl)"

fun rand_chars :: "nat \<Rightarrow> 32 word \<Rightarrow> string" where
  "rand_chars 0 r = []"
| "rand_chars (Suc n) r =
     char_of (65 + unat (r AND 15) + unat (r AND 16) * 2 :: nat) # rand_chars n (drop_bit 5 r)"

definition randname :: "32 word \<Rightarrow> nat \<Rightarrow> string \<Rightarrow> tstate \<Rightarrow> string \<times> tstate" where
  "randname tmpl off buf s =
     (let r = rand_seed (t_clock s (t_tick s)) (t_sp s) (tmpl + of_nat off)
      in (take off buf @ rand_chars 6 r @ drop (off + 6) buf, s\<lparr>t_tick := Suc (t_tick s)\<rparr>))"

section \<open>\<open>mktemp\<close> and \<open>mkstemp\<close>\<close>

fun mktemp_loop :: "32 word \<Rightarrow> nat \<Rightarrow> nat \<Rightarrow> string \<Rightarrow> tstate \<Rightarrow> (string, tstate) cres" where
  "mktemp_loop tmpl l 0 buf s = Return (buf[0 := NUL]) (s\<lparr>t_fs := (t_fs s)\<lparr>errno := EEXIST\<rparr>\<rparr>)"
| "mktemp_loop tmpl l (Suc retries) buf s =
     (case randname tmpl (l - 6) buf s of
        (buf', s') \<Rightarrow>
          (case c_string buf' of
             None \<Rightarrow> Undefined
           | Some name \<Rightarrow>
             (case stat name (t_fs s') of
                (r, fs) \<Rightarrow>
                  (if r \<noteq> 0
                   then Return (if errno fs \<noteq> ENOENT then buf'[0 := NUL] else buf') (s'\<lparr>t_fs := fs\<rparr>)
                   else mktemp_loop tmpl l retries buf' (s'\<lparr>t_fs := fs\<rparr>)))))"

definition mktemp :: "32 word \<Rightarrow> string \<Rightarrow> tstate \<Rightarrow> (string, tstate) cres" where
  "mktemp tmpl buf s =
     (case c_string buf of
        None \<Rightarrow> Undefined
      | Some t \<Rightarrow>
        (let l = length t
         in if l < 6 \<or> drop (l - 6) t \<noteq> ''XXXXXX''
            then Return (buf[0 := NUL]) (s\<lparr>t_fs := (t_fs s)\<lparr>errno := EINVAL\<rparr>\<rparr>)
            else mktemp_loop tmpl l 100 buf s))"

definition fopen_tmp :: "string \<Rightarrow> tstate \<Rightarrow> (nat option, tstate) cres" where
  "fopen_tmp buf s =
     (case c_string buf of
        None \<Rightarrow> Undefined
      | Some p \<Rightarrow> (case fopen p WriteMode (t_fs s) of (f, fs) \<Rightarrow> Return f (s\<lparr>t_fs := fs\<rparr>)))"

text \<open>The value is the descriptor and the template as the call leaves it; \<open>fileno (NULL)\<close> is undefined.\<close>

definition mkstemp :: "32 word \<Rightarrow> string \<Rightarrow> tstate \<Rightarrow> (int \<times> string, tstate) cres" where
  "mkstemp tmpl buf s =
     cbind (mktemp tmpl buf s) (\<lambda>buf' s.
       cbind (fopen_tmp buf' s) (\<lambda>f s.
         case f of None \<Rightarrow> Undefined | Some fd \<Rightarrow> Return (int fd, buf') s))"

section \<open>\<open>tmpfile\<close> and \<open>tempnam\<close>\<close>

text \<open>
  \<open>sdk_tmpfile\<close> passes a string literal, at the address \<open>lit\<close>, to \<open>mktemp\<close>. A store into a literal is undefined;
  every store that \<open>mktemp\<close> could make changes this one, whose characters are none of those it stores.
\<close>

definition TMPFILE_LIT :: string where "TMPFILE_LIT = ''/tmp/tmpfile'' @ [NUL]"

definition sdk_tmpfile :: "32 word \<Rightarrow> tstate \<Rightarrow> (nat option, tstate) cres" where
  "sdk_tmpfile lit s =
     cbind (mktemp lit TMPFILE_LIT s) (\<lambda>buf s. if buf = TMPFILE_LIT then fopen_tmp buf s else Undefined)"

text \<open>
  \<open>memcpy\<close> of \<open>n\<close> bytes from the start of \<open>src\<close> to offset \<open>off\<close> of \<open>dst\<close>; reading or writing past
  the end of an object is undefined.
\<close>

definition memcpy :: "string \<Rightarrow> nat \<Rightarrow> string \<Rightarrow> nat \<Rightarrow> string option" where
  "memcpy dst off src n =
     (if n \<le> length src \<and> off + n \<le> length dst
      then Some (take off dst @ take n src @ drop (off + n) dst) else None)"

definition store_char :: "string \<Rightarrow> nat \<Rightarrow> char \<Rightarrow> string option" where
  "store_char dst i c = (if i < length dst then Some (dst[i := c]) else None)"

text \<open>
  The tail of \<open>tempnam\<close>, from \<open>memcpy(buf+all, "XXXXXX", 6)\<close> on. The allocator returns an object of
  \<open>all\<close> bytes at the address \<open>ptr\<close>, or null.
\<close>

definition tempnam_tail :: "32 word option \<Rightarrow> string \<Rightarrow> nat \<Rightarrow> tstate \<Rightarrow> (string option, tstate) cres" where
  "tempnam_tail ptr buf all s =
     (case memcpy buf all (''XXXXXX'' @ [NUL]) 6 of
        None \<Rightarrow> Undefined
      | Some buf2 \<Rightarrow>
        (case store_char buf2 (all + 6) NUL of
           None \<Rightarrow> Undefined
         | Some buf3 \<Rightarrow>
           (case ptr of
              None \<Rightarrow> Undefined
            | Some a \<Rightarrow> cbind (mktemp a (take (all + 6) buf3) s) (\<lambda>obj. Return (Some obj)))))"

definition tempnam ::
    "32 word option \<Rightarrow> string \<Rightarrow> string \<Rightarrow> string option \<Rightarrow> tstate \<Rightarrow> (string option, tstate) cres" where
  "tempnam ptr buf0 dir pfx s =
     (case c_string dir of
        None \<Rightarrow> Undefined
      | Some d \<Rightarrow>
        (let dirlen = length d
         in if dirlen \<ge> FILENAME_MAX then Return None s
            else case memcpy buf0 0 dir FILENAME_MAX of
              None \<Rightarrow> Undefined
            | Some buf1 \<Rightarrow>
              (let buf2 = buf1[dirlen := CHR ''/'']
               in case pfx of
                 None \<Rightarrow> tempnam_tail ptr buf2 (dirlen + 1) s
               | Some pfxobj \<Rightarrow>
                 (case c_string pfxobj of
                    None \<Rightarrow> Undefined
                  | Some p \<Rightarrow>
                    (let all = dirlen + 1 + length p
                     in if all \<ge> FILENAME_MAX then Return None s
                        else case memcpy buf2 (dirlen + 1) pfxobj (FILENAME_MAX - all) of
                          None \<Rightarrow> Undefined
                        | Some buf3 \<Rightarrow> tempnam_tail ptr buf3 all s)))))"

section \<open>Random names\<close>

lemma rand_char_bound: "unat ((r :: 32 word) AND 15) + unat (r AND 16) * 2 < 48"
proof -
  have "r AND 15 = take_bit 4 r" by (simp add: take_bit_eq_mask mask_eq_exp_minus_1)
  then have "unat (r AND 15) < 16" by (simp add: unsigned_take_bit_eq take_bit_nat_less_exp [of 4, simplified])
  moreover have "unat (r AND 16) \<le> 16"
    using word_and_le1 [of r 16] by (simp add: word_le_nat_alt)
  ultimately show ?thesis by linarith
qed

lemma length_rand_chars [simp]: "length (rand_chars n r) = n"
  by (induction n arbitrary: r) simp_all


lemma rand_chars_nonempty: "rand_chars 6 r \<noteq> []"
  by (metis length_rand_chars list.size(3) zero_neq_numeral)

lemma and31: "(r :: 32 word) AND 31 = r' AND 31 \<longleftrightarrow> r AND 15 = r' AND 15 \<and> r AND 16 = r' AND 16"
proof
  assume "r AND 31 = r' AND 31"
  then have "(r AND 31) AND 15 = (r' AND 31) AND 15" "(r AND 31) AND 16 = (r' AND 31) AND 16" by simp_all
  then show "r AND 15 = r' AND 15 \<and> r AND 16 = r' AND 16" by (simp add: and.assoc)
next
  have "x AND 31 = (x AND 15) OR (x AND 16)" for x :: "32 word"
    by (simp add: bit.conj_disj_distrib [symmetric])
  moreover assume "r AND 15 = r' AND 15 \<and> r AND 16 = r' AND 16"
  ultimately show "r AND 31 = r' AND 31" by metis
qed

lemma and16: "unat ((r :: 32 word) AND 16) = (if bit r 4 then 16 else 0)"
proof -
  have b: "bit (16 :: 32 word) k \<longleftrightarrow> k = 4" for k
  proof -
    have "(16 :: 32 word) = 2 ^ 4" by simp
    then show ?thesis by (simp only: bit_exp_iff) (auto simp: possible_bit_word)
  qed
  have "r AND 16 = (if bit r 4 then 16 else 0)"
    by (intro bit_word_eqI) (auto simp only: bit_and_iff b if_splits bit_0_eq split: if_split)
  then show ?thesis by simp
qed

lemma and15: "unat ((r :: 32 word) AND 15) < 16"
proof -
  have "r AND 15 = take_bit 4 r" by (simp add: take_bit_eq_mask mask_eq_exp_minus_1)
  then show ?thesis by (simp add: unsigned_take_bit_eq take_bit_nat_less_exp [of 4, simplified])
qed

lemma rand_char_eq:
  "char_of (65 + unat (r AND 15) + unat (r AND 16) * 2 :: nat) =
   char_of (65 + unat (r' AND 15) + unat (r' AND 16) * 2 :: nat) \<longleftrightarrow> take_bit 5 r = take_bit 5 (r' :: 32 word)"
  (is "char_of ?a = char_of ?b \<longleftrightarrow> _")
proof -
  have "?a < 256" "?b < 256" using rand_char_bound [of r] rand_char_bound [of r'] by simp_all
  then have "char_of ?a = char_of ?b \<longleftrightarrow> ?a = ?b" by (metis of_char_of mod_less)
  also have "\<dots> \<longleftrightarrow> unat (r AND 15) = unat (r' AND 15) \<and> unat (r AND 16) = unat (r' AND 16)"
    using and15 [of r] and15 [of r'] by (auto simp: and16)
  also have "\<dots> \<longleftrightarrow> r AND 31 = r' AND 31" by (simp only: and31 word_unat_eq_iff [of "_ AND 15"] word_unat_eq_iff [of "_ AND 16"])
  finally show ?thesis by (simp add: take_bit_eq_mask mask_eq_exp_minus_1)
qed

lemma rand_chars_eq:
  "rand_chars n r = rand_chars n r' \<longleftrightarrow> take_bit (5 * n) r = take_bit (5 * n) (r' :: 32 word)"
proof (induction n arbitrary: r r')
  case 0
  then show ?case by simp
next
  case (Suc n)
  have "take_bit (5 * Suc n) r = take_bit (5 * Suc n) r' \<longleftrightarrow>
      take_bit 5 r = take_bit 5 r' \<and> take_bit (5 * n) (drop_bit 5 r) = take_bit (5 * n) (drop_bit 5 r')"
    (is "?l \<longleftrightarrow> ?r")
  proof
    assume ?l
    then have "take_bit 5 (take_bit (5 * Suc n) r) = take_bit 5 (take_bit (5 * Suc n) r')"
      "drop_bit 5 (take_bit (5 * Suc n) r) = drop_bit 5 (take_bit (5 * Suc n) r')" by simp_all
    then show ?r by (simp add: drop_bit_take_bit)
  next
    assume r: ?r
    have "bit (take_bit (5 * Suc n) r) k = bit (take_bit (5 * Suc n) r') k" for k
    proof (cases "k < 5")
      case True
      then show ?thesis using arg_cong [OF conjunct1 [OF r], of "\<lambda>w. bit w k"] by (simp add: bit_take_bit_iff)
    next
      case False
      then show ?thesis
        using arg_cong [OF conjunct2 [OF r], of "\<lambda>w. bit w (k - 5)"]
        by (auto simp: bit_take_bit_iff bit_drop_bit_eq)
    qed
    then show ?l by (intro bit_eqI) blast
  qed
  then show ?case unfolding rand_chars.simps list.inject rand_char_eq Suc.IH by simp
qed

definition rand_alphabet :: "char set" where
  "rand_alphabet = set ''ABCDEFGHIJKLMNOPabcdefghijklmnop''"

lemma rand_char_alphabet: "char_of (65 + unat (r AND 15) + unat ((r :: 32 word) AND 16) * 2 :: nat) \<in> rand_alphabet"
proof -
  define n where "n = unat (r AND 15)"
  have "n < 16" using and15 [of r] by (simp add: n_def)
  then have "n \<in> set [0..<16]" by simp
  moreover have "\<forall>n \<in> set [0..<16]. char_of (65 + n :: nat) \<in> rand_alphabet \<and> char_of (97 + n :: nat) \<in> rand_alphabet"
    by code_simp
  ultimately have "char_of (65 + n :: nat) \<in> rand_alphabet" "char_of (97 + n :: nat) \<in> rand_alphabet" by blast+
  then show ?thesis by (simp add: and16 n_def [symmetric] add.commute [of n])
qed

lemma rand_chars_alphabet: "set (rand_chars n r) \<subseteq> rand_alphabet"
  by (induction n arbitrary: r) (simp_all add: rand_char_alphabet)

lemma rand_chars_no_NUL [simp]: "NUL \<notin> set (rand_chars n r)"
  using rand_chars_alphabet [of n r] by (auto simp: rand_alphabet_def NUL_def)

section \<open>The search of \<open>mktemp\<close>\<close>

text \<open>The name that the \<open>k\<close>-th round from the state \<open>s\<close> tries for the template \<open>pre ^ "XXXXXX"\<close>.\<close>

definition candidate :: "32 word \<Rightarrow> string \<Rightarrow> tstate \<Rightarrow> nat \<Rightarrow> path" where
  "candidate tmpl pre s k =
     pre @ rand_chars 6 (rand_seed (t_clock s (t_tick s + k)) (t_sp s) (tmpl + of_nat (length pre)))"

lemma candidate_tick [simp]:
  "candidate tmpl pre (s\<lparr>t_tick := t_tick s + n, t_fs := fs\<rparr>) k = candidate tmpl pre s (n + k)"
  "candidate tmpl pre (s\<lparr>t_tick := Suc (t_tick s)\<rparr>) k = candidate tmpl pre s (Suc k)"
  by (simp_all add: candidate_def add.assoc)

lemma randname_template:
  "length six = 6 \<Longrightarrow> randname tmpl (length pre) (pre @ six @ rest) s =
    (candidate tmpl pre s 0 @ rest, s\<lparr>t_tick := Suc (t_tick s)\<rparr>)"
  by (simp add: randname_def candidate_def Let_def)

text \<open>The error with which \<open>stat\<close> fails, for a name that cannot be resolved or that no file has.\<close>

definition stop_err :: "libc \<Rightarrow> path \<Rightarrow> errno_t option" where
  "stop_err l p = (case path_err l p of Some e \<Rightarrow> Some e | None \<Rightarrow> if contents l p = None then Some ENOENT else None)"

lemma stat_cases: "stat p l = (case stop_err l p of Some e \<Rightarrow> (- 1, l\<lparr>errno := e\<rparr>) | None \<Rightarrow> (0, l))"
  by (auto simp: stat_def stop_err_def contents_def split: option.split)

lemma stop_err_resolved: "path_err l p = None \<Longrightarrow> stop_err l p = (if contents l p = None then Some ENOENT else None)"
  by (simp add: stop_err_def)

lemma c_string_candidate:
  "NUL \<notin> set pre \<Longrightarrow> c_string (candidate tmpl pre s k @ NUL # rest) = Some (candidate tmpl pre s k)"
  by (rule c_string_append) (simp add: candidate_def)

lemma c_string_cleared: "c_string buf = Some t \<Longrightarrow> c_string (buf[0 := NUL]) = Some []"
  by (cases buf) (auto simp: c_string_def split: if_splits)

lemma loop_step:
  assumes "NUL \<notin> set pre" "length six = 6"
  shows "mktemp_loop tmpl (length pre + 6) (Suc n) (pre @ six @ NUL # rest) s =
    (case stop_err (t_fs s) (candidate tmpl pre s 0) of
       Some e \<Rightarrow> Return (if e = ENOENT then candidate tmpl pre s 0 @ NUL # rest
                       else (candidate tmpl pre s 0 @ NUL # rest)[0 := NUL])
            (s\<lparr>t_tick := Suc (t_tick s), t_fs := (t_fs s)\<lparr>errno := e\<rparr>\<rparr>)
     | None \<Rightarrow> mktemp_loop tmpl (length pre + 6) n (candidate tmpl pre s 0 @ NUL # rest)
            (s\<lparr>t_tick := Suc (t_tick s)\<rparr>))"
  using assms by (simp add: randname_template c_string_candidate stat_cases split: option.split)

lemma loop_taken:
  assumes "NUL \<notin> set pre" "length six = 6" "stop_err (t_fs s) (candidate tmpl pre s 0) = None"
    and "candidate tmpl pre s 0 = pre @ six'"
  shows "mktemp_loop tmpl (length pre + 6) (Suc n) (pre @ six @ NUL # rest) s =
    mktemp_loop tmpl (length pre + 6) n (pre @ six' @ NUL # rest) (s\<lparr>t_tick := Suc (t_tick s)\<rparr>)"
  using loop_step [OF assms(1,2), of tmpl n rest s] assms(3) unfolding assms(4) by simp

lemma candidate_six: "\<exists>six. length six = 6 \<and> candidate tmpl pre s k = pre @ six"
  unfolding candidate_def by (intro exI conjI) (rule length_rand_chars, rule refl)

lemma loop_finds:
  assumes "NUL \<notin> set pre" "length six = 6" "k < n" "stop_err (t_fs s) (candidate tmpl pre s k) = Some e"
    and "\<forall>j < k. stop_err (t_fs s) (candidate tmpl pre s j) = None"
  shows "mktemp_loop tmpl (length pre + 6) n (pre @ six @ NUL # rest) s =
    Return (if e = ENOENT then candidate tmpl pre s k @ NUL # rest else (candidate tmpl pre s k @ NUL # rest)[0 := NUL])
      (s\<lparr>t_tick := t_tick s + Suc k, t_fs := (t_fs s)\<lparr>errno := e\<rparr>\<rparr>)"
  using assms
proof (induction n arbitrary: k s six)
  case 0
  then show ?case by simp
next
  case (Suc n)
  show ?case
  proof (cases k)
    case 0
    then show ?thesis using Suc.prems by (simp add: loop_step del: mktemp_loop.simps)
  next
    case (Suc j)
    let ?s = "s\<lparr>t_tick := Suc (t_tick s)\<rparr>"
    obtain six' where six': "length six' = 6" "candidate tmpl pre s 0 = pre @ six'"
      using candidate_six by blast
    have "mktemp_loop tmpl (length pre + 6) n (pre @ six' @ NUL # rest) ?s =
        Return (if e = ENOENT then candidate tmpl pre ?s j @ NUL # rest else (candidate tmpl pre ?s j @ NUL # rest)[0 := NUL])
          (?s\<lparr>t_tick := t_tick ?s + Suc j, t_fs := (t_fs ?s)\<lparr>errno := e\<rparr>\<rparr>)"
      using Suc.prems six'(1) \<open>k = Suc j\<close> by (intro Suc.IH) auto
    moreover have "stop_err (t_fs s) (candidate tmpl pre s 0) = None"
      using Suc.prems(5) \<open>k = Suc j\<close> by blast
    then have "mktemp_loop tmpl (length pre + 6) (Suc n) (pre @ six @ NUL # rest) s =
        mktemp_loop tmpl (length pre + 6) n (pre @ six' @ NUL # rest) ?s"
      by (rule loop_taken [OF Suc.prems(1,2) _ six'(2)])
    ultimately show ?thesis using \<open>k = Suc j\<close> by simp
  qed
qed

lemma loop_gives_up:
  assumes "NUL \<notin> set pre" "length six = 6" "\<forall>j < n. stop_err (t_fs s) (candidate tmpl pre s j) = None"
  shows "\<exists>buf. c_string buf = Some [] \<and> mktemp_loop tmpl (length pre + 6) n (pre @ six @ NUL # rest) s =
    Return buf (s\<lparr>t_tick := t_tick s + n, t_fs := (t_fs s)\<lparr>errno := EEXIST\<rparr>\<rparr>)"
  using assms
proof (induction n arbitrary: s six)
  case 0
  have "c_string (pre @ six @ NUL # rest) \<noteq> None" by (simp add: c_string_def)
  then show ?case using c_string_cleared by auto
next
  case (Suc n)
  let ?s = "s\<lparr>t_tick := Suc (t_tick s)\<rparr>"
  obtain six' where six': "length six' = 6" "candidate tmpl pre s 0 = pre @ six'"
    using candidate_six by blast
  have "\<exists>buf. c_string buf = Some [] \<and> mktemp_loop tmpl (length pre + 6) n (pre @ six' @ NUL # rest) ?s =
      Return buf (?s\<lparr>t_tick := t_tick ?s + n, t_fs := (t_fs ?s)\<lparr>errno := EEXIST\<rparr>\<rparr>)"
    using Suc.prems six'(1) by (intro Suc.IH) auto
  moreover have "stop_err (t_fs s) (candidate tmpl pre s 0) = None" using Suc.prems(3) by blast
  then have "mktemp_loop tmpl (length pre + 6) (Suc n) (pre @ six @ NUL # rest) s =
      mktemp_loop tmpl (length pre + 6) n (pre @ six' @ NUL # rest) ?s"
    by (rule loop_taken [OF Suc.prems(1,2) _ six'(2)])
  ultimately show ?case by (simp del: mktemp_loop.simps)
qed

lemma mktemp_loop_length:
  "mktemp_loop tmpl l n buf s = Return buf' s' \<Longrightarrow> 6 \<le> l \<Longrightarrow> l \<le> length buf \<Longrightarrow> length buf' = length buf"
proof (induction tmpl l n buf s rule: mktemp_loop.induct)
  case (2 tmpl l retries buf s)
  obtain b u where r: "randname tmpl (l - 6) buf s = (b, u)" by fastforce
  have len: "length b = length buf" using r 2(3,4) by (auto simp: randname_def Let_def)
  obtain name c fs where n: "c_string b = Some name" "stat name (t_fs u) = (c, fs)"
    using 2(2) r by (cases "c_string b") (auto split: prod.splits)
  show ?case
    using 2(2) 2(1) [OF r [symmetric] n(1) n(2) [symmetric]] 2(3,4) r n len by (auto split: if_splits)
qed auto

lemma mktemp_length:
  assumes "mktemp tmpl buf s = Return buf' s'"
  shows "length buf' = length buf"
proof (cases "c_string buf")
  case None
  with assms show ?thesis by (simp add: mktemp_def)
next
  case (Some t)
  then have "length t \<le> length buf" using length_takeWhile_le by (auto simp: c_string_def split: if_splits)
  with assms Some mktemp_loop_length show ?thesis by (fastforce simp: mktemp_def Let_def split: if_splits)
qed

lemma mktemp_valid:
  assumes "NUL \<notin> set pre"
  shows "mktemp tmpl (pre @ ''XXXXXX'' @ NUL # rest) s =
    mktemp_loop tmpl (length pre + 6) 100 (pre @ ''XXXXXX'' @ NUL # rest) s"
proof -
  have "c_string ((pre @ ''XXXXXX'') @ NUL # rest) = Some (pre @ ''XXXXXX'')"
    using assms by (intro c_string_append) (simp add: NUL_def)
  then show ?thesis by (simp add: mktemp_def eval_nat_numeral(3) [of num.One] numeral_eq_Suc)
qed

lemma mktemp_invalid:
  assumes "c_string buf = Some t" "length t < 6 \<or> drop (length t - 6) t \<noteq> ''XXXXXX''"
  shows "mktemp tmpl buf s = Return (buf[0 := NUL]) (s\<lparr>t_fs := (t_fs s)\<lparr>errno := EINVAL\<rparr>\<rparr>)"
  using assms by (simp add: mktemp_def)

lemma fopen_tmp_empty:
  "c_string buf = Some [] \<Longrightarrow> fopen_tmp buf s = Return None (s\<lparr>t_fs := (t_fs s)\<lparr>errno := ENOENT\<rparr>\<rparr>)"
  by (simp add: fopen_tmp_def fopen_def path_err_def)

lemma mkstemp_run:
  assumes "NUL \<notin> set pre" "\<forall>k. path_err (t_fs s) (candidate tmpl pre s k) = None" "wf_libc (t_fs s)"
    and "k < 100" "contents (t_fs s) (candidate tmpl pre s k) = None"
  obtains n fd s' where
    "mkstemp tmpl (pre @ ''XXXXXX'' @ NUL # rest) s = Return (int fd, candidate tmpl pre s n @ NUL # rest) s'"
    and "contents (t_fs s) (candidate tmpl pre s n) = None"
    and "contents (t_fs s') = (contents (t_fs s))(candidate tmpl pre s n \<mapsto> [])" and "wf_libc (t_fs s')"
    and "fopen (candidate tmpl pre s n) WriteMode ((t_fs s)\<lparr>errno := ENOENT\<rparr>) = (Some fd, t_fs s')"
proof -
  define n where "n = (LEAST j. contents (t_fs s) (candidate tmpl pre s j) = None)"
  have n: "contents (t_fs s) (candidate tmpl pre s n) = None" "n \<le> k"
    unfolding n_def using assms(5) by (rule LeastI, rule Least_le)
  have first: "\<forall>j < n. contents (t_fs s) (candidate tmpl pre s j) \<noteq> None"
    unfolding n_def using not_less_Least by blast
  let ?name = "candidate tmpl pre s n"
  let ?s = "s\<lparr>t_tick := t_tick s + Suc n, t_fs := (t_fs s)\<lparr>errno := ENOENT\<rparr>\<rparr>"
  have mk: "mktemp tmpl (pre @ ''XXXXXX'' @ NUL # rest) s = Return (?name @ NUL # rest) ?s"
    unfolding mktemp_valid [OF assms(1)]
    using loop_finds [OF assms(1), of "''XXXXXX''" n 100 s tmpl ENOENT rest] n first assms(2,4)
    by (simp add: stop_err_resolved)
  have "wf_libc (t_fs ?s)" "path_err (t_fs ?s) ?name = None" using assms(2,3) by simp_all
  from fopen_writes [OF this fmode.distinct(1) [symmetric]] obtain fd fs where
    fs: "fopen ?name WriteMode (t_fs ?s) = (Some fd, fs)" "contents fs = (contents (t_fs ?s))(?name \<mapsto> [])" "wf_libc fs"
    by blast
  have "mkstemp tmpl (pre @ ''XXXXXX'' @ NUL # rest) s = Return (int fd, ?name @ NUL # rest) (?s\<lparr>t_fs := fs\<rparr>)"
    unfolding mkstemp_def mk using fs(1) by (simp add: fopen_tmp_def c_string_candidate [OF assms(1)])
  then show ?thesis using that [of fd n "?s\<lparr>t_fs := fs\<rparr>"] n(1) fs by simp
qed

text \<open>The template of \<open>sdk_tmpfile\<close> has no \<open>XXXXXX\<close>, so \<open>mktemp\<close> stores a terminator into the literal.\<close>

lemma sdk_tmpfile_undefined: "sdk_tmpfile lit s = Undefined"
proof -
  have "c_string TMPFILE_LIT = Some ''/tmp/tmpfile''"
    unfolding TMPFILE_LIT_def by (rule c_string_append) (simp add: NUL_def)
  then have "mktemp lit TMPFILE_LIT s = Return (TMPFILE_LIT[0 := NUL]) (s\<lparr>t_fs := (t_fs s)\<lparr>errno := EINVAL\<rparr>\<rparr>)"
    by (rule mktemp_invalid) simp
  then show ?thesis by (simp add: sdk_tmpfile_def TMPFILE_LIT_def NUL_def)
qed

section \<open>\<open>tempnam\<close> builds a string without terminator\<close>

lemma c_string_prefix:
  assumes "c_string obj = Some t"
  shows "\<exists>rest. obj = t @ NUL # rest \<and> NUL \<notin> set t"
proof -
  have "NUL \<in> set obj" and t: "t = takeWhile (\<lambda>c. c \<noteq> NUL) obj"
    using assms by (auto simp: c_string_def split: if_splits)
  then obtain rest where "dropWhile (\<lambda>c. c \<noteq> NUL) obj = NUL # rest"
    by (cases "dropWhile (\<lambda>c. c \<noteq> NUL) obj") (auto simp: dropWhile_eq_Cons_conv)
  then have "obj = t @ NUL # rest" using takeWhile_dropWhile_id [of "\<lambda>c. c \<noteq> NUL" obj] t by simp
  moreover have "NUL \<notin> set t" unfolding t by (auto dest: set_takeWhileD)
  ultimately show ?thesis by blast
qed

lemma tempnam_tail_undefined:
  assumes "NUL \<notin> set (take all buf)"
  shows "tempnam_tail ptr buf all s = Undefined"
proof -
  have "mktemp a (take (all + 6) ((take all buf @ ''XXXXXX'' @ drop (all + 6) buf)[all + 6 := NUL])) s = Undefined"
    if "all + 6 \<le> length buf" for a
  proof -
    have "take (all + 6) ((take all buf @ ''XXXXXX'' @ drop (all + 6) buf)[all + 6 := NUL]) = take all buf @ ''XXXXXX''"
      using that by (simp add: take_update_cancel)
    then show ?thesis using assms by (simp add: mktemp_def c_string_def NUL_def)
  qed
  then show ?thesis
    by (auto simp: tempnam_tail_def memcpy_def store_char_def split: option.split)
qed

lemma cbind_ReturnE:
  assumes "cbind m f = Return b t"
  obtains a s where "m = Return a s" "f a s = Return b t"
  using assms by (cases m) simp_all

lemma tempnam_tail_shorter:
  assumes "tempnam_tail ptr buf all s = Return (Some r) s'" "c_string r = Some t"
  shows "length t < all + 6"
proof -
  obtain a b s'' where "mktemp a (take (all + 6) b) s = Return r s''"
    using assms(1) by (auto simp: tempnam_tail_def split: option.splits elim!: cbind_ReturnE)
  then have "length r \<le> all + 6" by (auto dest: mktemp_length)
  moreover have "length t < length r" using c_string_prefix [OF assms(2)] by auto
  ultimately show ?thesis by simp
qed

lemma tempnam_start:
  assumes "c_string dir = Some d" "length buf = FILENAME_MAX" "length d < FILENAME_MAX"
  shows "tempnam ptr buf dir pfx s =
    (let buf2 = (take FILENAME_MAX dir)[length d := CHR ''/''] in
     if length dir < FILENAME_MAX then Undefined
     else case pfx of
       None \<Rightarrow> tempnam_tail ptr buf2 (length d + 1) s
     | Some obj \<Rightarrow>
       (case c_string obj of
          None \<Rightarrow> Undefined
        | Some p \<Rightarrow>
          (let all = length d + 1 + length p
           in if all \<ge> FILENAME_MAX then Return None s
              else case memcpy buf2 (length d + 1) obj (FILENAME_MAX - all) of
                None \<Rightarrow> Undefined
              | Some buf3 \<Rightarrow> tempnam_tail ptr buf3 all s)))"
  using assms by (simp add: tempnam_def memcpy_def [of buf] Let_def)

section \<open>Properties\<close>

definition demo_tmp :: tstate where
  "demo_tmp = \<lparr>t_fs = init_libc, t_clock = (\<lambda>n. of_nat n), t_tick = 0, t_sp = 0x1000\<rparr>"

text \<open>
  C19. The random suffix: six characters of the alphabet \<open>A..P, a..p\<close>, hence never a terminator, a
  slash or an \<open>X\<close> of the template; two seeds give the same suffix exactly when their low 30 bits agree.
\<close>

theorem randname_suffix:
  "length (rand_chars 6 r) = 6 \<and> set (rand_chars 6 r) \<subseteq> set ''ABCDEFGHIJKLMNOPabcdefghijklmnop'' \<and>
   (rand_chars 6 r = rand_chars 6 r' \<longleftrightarrow> take_bit 30 r = take_bit 30 r')"
  using rand_chars_alphabet [of 6 r] rand_chars_eq [of 6 r r'] by (simp only: length_rand_chars rand_alphabet_def) simp

text \<open>
  C20. \<open>mktemp\<close> on every branch. For a template that ends in \<open>XXXXXX\<close>, take the first of the hundred candidates for
  which \<open>stat\<close> fails: when it fails because there is no such file, this name is the result; when it fails with
  another error, the result is the empty string and \<open>errno\<close> is that error. If all hundred exist, the result is the
  empty string and \<open>errno\<close> is \<open>EEXIST\<close>. For any other template it is the empty string and \<open>errno\<close> is
  \<open>EINVAL\<close>. No file is created or changed.
\<close>

theorem mktemp_outcome:
  assumes "NUL \<notin> set pre"
  shows "(\<forall>k < 100. \<forall>e. stop_err (t_fs s) (candidate tmpl pre s k) = Some e \<and>
        (\<forall>j < k. stop_err (t_fs s) (candidate tmpl pre s j) = None) \<longrightarrow>
      mktemp tmpl (pre @ ''XXXXXX'' @ NUL # rest) s =
        Return (if e = ENOENT then candidate tmpl pre s k @ NUL # rest
                else (candidate tmpl pre s k @ NUL # rest)[0 := NUL])
          (s\<lparr>t_tick := t_tick s + Suc k, t_fs := (t_fs s)\<lparr>errno := e\<rparr>\<rparr>)) \<and>
    ((\<forall>k < 100. stop_err (t_fs s) (candidate tmpl pre s k) = None) \<longrightarrow>
      (\<exists>buf. c_string buf = Some [] \<and> mktemp tmpl (pre @ ''XXXXXX'' @ NUL # rest) s =
        Return buf (s\<lparr>t_tick := t_tick s + 100, t_fs := (t_fs s)\<lparr>errno := EEXIST\<rparr>\<rparr>))) \<and>
    (\<forall>bad t. c_string bad = Some t \<and> (length t < 6 \<or> drop (length t - 6) t \<noteq> ''XXXXXX'') \<longrightarrow>
      (\<exists>buf. c_string buf = Some [] \<and> mktemp tmpl bad s =
        Return buf (s\<lparr>t_fs := (t_fs s)\<lparr>errno := EINVAL\<rparr>\<rparr>)))"
proof (intro conjI allI impI)
  show "mktemp tmpl (pre @ ''XXXXXX'' @ NUL # rest) s =
        Return (if e = ENOENT then candidate tmpl pre s k @ NUL # rest
                else (candidate tmpl pre s k @ NUL # rest)[0 := NUL])
          (s\<lparr>t_tick := t_tick s + Suc k, t_fs := (t_fs s)\<lparr>errno := e\<rparr>\<rparr>)"
    if "k < 100" "stop_err (t_fs s) (candidate tmpl pre s k) = Some e \<and>
        (\<forall>j < k. stop_err (t_fs s) (candidate tmpl pre s j) = None)" for k e
    unfolding mktemp_valid [OF assms(1)] using that by (intro loop_finds assms) simp_all
  show "\<exists>buf. c_string buf = Some [] \<and> mktemp tmpl (pre @ ''XXXXXX'' @ NUL # rest) s =
        Return buf (s\<lparr>t_tick := t_tick s + 100, t_fs := (t_fs s)\<lparr>errno := EEXIST\<rparr>\<rparr>)"
    if "\<forall>k < 100. stop_err (t_fs s) (candidate tmpl pre s k) = None"
    unfolding mktemp_valid [OF assms(1)] using that by (intro loop_gives_up assms) simp_all
  show "\<exists>buf. c_string buf = Some [] \<and> mktemp tmpl bad s =
        Return buf (s\<lparr>t_fs := (t_fs s)\<lparr>errno := EINVAL\<rparr>\<rparr>)"
    if "c_string bad = Some t \<and> (length t < 6 \<or> drop (length t - 6) t \<noteq> ''XXXXXX'')" for bad t
    using that mktemp_invalid c_string_cleared by blast
qed

lemma demo_candidate: "path_err (t_fs demo_tmp) (candidate tmpl pre demo_tmp k) = None"
  "contents (t_fs demo_tmp) p = None"
  by (simp_all add: demo_tmp_def candidate_def rand_chars_nonempty)

theorem mktemp_outcome_witness:
  "(\<exists>n. length n = 6 \<and> mktemp 0x2000 (''/tmp/t'' @ ''XXXXXX'' @ [NUL]) demo_tmp =
     Return (''/tmp/t'' @ n @ [NUL]) (demo_tmp\<lparr>t_tick := 1, t_fs := init_libc\<lparr>errno := ENOENT\<rparr>\<rparr>)) \<and>
   (\<exists>buf s. mktemp 0x2000 (''/tmp/t'' @ ''XXXXXX'' @ [NUL]) (demo_tmp\<lparr>t_fs := init_libc\<lparr>lookup_err := \<lambda>_. Some EACCES\<rparr>\<rparr>) =
     Return buf s \<and> c_string buf = Some [] \<and> errno (t_fs s) = EACCES)"
proof -
  have pre: "NUL \<notin> set ''/tmp/t''" by (simp add: NUL_def)
  let ?c = "\<lambda>s. candidate 0x2000 ''/tmp/t'' s 0" and ?bad = "demo_tmp\<lparr>t_fs := init_libc\<lparr>lookup_err := \<lambda>_. Some EACCES\<rparr>\<rparr>"
  have six: "\<exists>n. length n = 6 \<and> ?c s = ''/tmp/t'' @ n" for s
    using candidate_six by blast
  have stop: "stop_err (t_fs demo_tmp) (?c demo_tmp) = Some ENOENT" "stop_err (t_fs ?bad) (?c ?bad) = Some EACCES"
    using six [of ?bad] by (auto simp: stop_err_resolved demo_candidate) (auto simp: stop_err_def path_err_def)
  have run: "mktemp 0x2000 (''/tmp/t'' @ ''XXXXXX'' @ NUL # []) s =
      Return (if e = ENOENT then ?c s @ NUL # [] else (?c s @ NUL # [])[0 := NUL])
        (s\<lparr>t_tick := t_tick s + Suc 0, t_fs := (t_fs s)\<lparr>errno := e\<rparr>\<rparr>)"
    if "stop_err (t_fs s) (?c s) = Some e" for s e
    using that by (intro mktemp_outcome [OF pre, THEN conjunct1, rule_format]) simp_all
  have "c_string ((?c ?bad @ [NUL])[0 := NUL]) = Some []"
    by (rule c_string_cleared [of _ "?c ?bad"], rule c_string_candidate [OF pre])
  with run [OF stop(2)] have "\<exists>buf s. mktemp 0x2000 (''/tmp/t'' @ ''XXXXXX'' @ [NUL]) ?bad = Return buf s \<and>
      c_string buf = Some [] \<and> errno (t_fs s) = EACCES" by simp
  moreover obtain n where "length n = 6" "?c demo_tmp = ''/tmp/t'' @ n" using six [of demo_tmp] by blast
  with run [OF stop(1)] have "\<exists>n. length n = 6 \<and> mktemp 0x2000 (''/tmp/t'' @ ''XXXXXX'' @ [NUL]) demo_tmp =
     Return (''/tmp/t'' @ n @ [NUL]) (demo_tmp\<lparr>t_tick := 1, t_fs := init_libc\<lparr>errno := ENOENT\<rparr>\<rparr>)"
    by (auto simp: demo_tmp_def)
  ultimately show ?thesis by blast
qed

text \<open>
  C21. \<open>mkstemp\<close> never reuses a file: when a candidate is free it returns a descriptor, the template
  holds the name, under which there is now an empty file that did not exist before, and all other
  files keep their contents. With a template that \<open>mktemp\<close> rejects it calls \<open>fileno\<close> on a null
  stream, which is undefined.
\<close>

theorem mkstemp_creates_new_file:
  assumes "NUL \<notin> set pre" "\<forall>k. path_err (t_fs s) (candidate tmpl pre s k) = None" "wf_libc (t_fs s)"
    and "k < 100" "contents (t_fs s) (candidate tmpl pre s k) = None"
    and "c_string bad = Some t" "length t < 6 \<or> drop (length t - 6) t \<noteq> ''XXXXXX''"
  shows "(\<exists>fd name s'. mkstemp tmpl (pre @ ''XXXXXX'' @ NUL # rest) s = Return (int fd, name @ NUL # rest) s' \<and>
      contents (t_fs s) name = None \<and> contents (t_fs s') = (contents (t_fs s))(name \<mapsto> []) \<and> wf_libc (t_fs s')) \<and>
    mkstemp tmpl bad s = Undefined"
proof
  from mkstemp_run [OF assms(1-5), of rest] obtain n fd s' where
    "mkstemp tmpl (pre @ ''XXXXXX'' @ NUL # rest) s = Return (int fd, candidate tmpl pre s n @ NUL # rest) s'"
    "contents (t_fs s) (candidate tmpl pre s n) = None"
    "contents (t_fs s') = (contents (t_fs s))(candidate tmpl pre s n \<mapsto> [])" "wf_libc (t_fs s')" .
  then show "\<exists>fd name s'. mkstemp tmpl (pre @ ''XXXXXX'' @ NUL # rest) s = Return (int fd, name @ NUL # rest) s' \<and>
      contents (t_fs s) name = None \<and> contents (t_fs s') = (contents (t_fs s))(name \<mapsto> []) \<and> wf_libc (t_fs s')"
    by blast
  show "mkstemp tmpl bad s = Undefined"
    using mktemp_invalid [OF assms(6,7)] c_string_cleared [OF assms(6)]
    by (simp add: mkstemp_def fopen_tmp_empty)
qed

theorem mkstemp_creates_new_file_witness:
  "(\<exists>fd name s'. mkstemp 0x2000 (''/tmp/t'' @ ''XXXXXX'' @ [NUL]) demo_tmp = Return (int fd, name @ [NUL]) s' \<and>
      contents (t_fs s') = [name \<mapsto> []]) \<and> mkstemp 0x2000 [NUL] demo_tmp = Undefined"
proof -
  have "NUL \<notin> set ''/tmp/t''" "c_string [NUL] = Some []" by (simp_all add: NUL_def c_string_def)
  moreover have "wf_libc (t_fs demo_tmp)" "contents (t_fs demo_tmp) = Map.empty"
    by (simp_all add: demo_tmp_def fun_eq_iff)
  ultimately show ?thesis
    using mkstemp_creates_new_file [where s = demo_tmp and pre = "''/tmp/t''" and tmpl = "0x2000" and k = 0
        and bad = "[NUL]" and t = "[]" and rest = "[]"]
    by (simp add: demo_candidate del: append_Cons append.simps) blast
qed

text \<open>
  C22. \<open>tempnam\<close> never returns the name it builds. For a directory of 4096 characters or more it returns null. For a
  shorter one it is undefined when the object that holds the directory has less than 4096 bytes, which it reads,
  and when there is no prefix. Otherwise it returns null when directory, slash and prefix come to 4096 characters or
  more, and is undefined when twice the prefix fits, because \<open>mktemp\<close> is handed a copy without a terminator.
  In the range between, where a part of the object behind the prefix is all that can terminate the copy, it may
  return a string, but one that is shorter than the directory, slash, prefix and suffix together.
\<close>

theorem tempnam_no_name:
  assumes "c_string dir = Some d" "length buf = FILENAME_MAX"
  shows "(FILENAME_MAX \<le> length d \<longrightarrow> tempnam ptr buf dir pfx s = Return None s) \<and>
    (length d < FILENAME_MAX \<longrightarrow>
      tempnam ptr buf dir None s = Undefined \<and>
      (length dir < FILENAME_MAX \<longrightarrow> tempnam ptr buf dir pfx s = Undefined) \<and>
      (\<forall>obj p. FILENAME_MAX \<le> length dir \<and> c_string obj = Some p \<longrightarrow>
        (FILENAME_MAX \<le> length d + 1 + length p \<longrightarrow> tempnam ptr buf dir (Some obj) s = Return None s) \<and>
        (length d + 1 + 2 * length p < FILENAME_MAX \<longrightarrow> tempnam ptr buf dir (Some obj) s = Undefined) \<and>
        (\<forall>r s' t. tempnam ptr buf dir (Some obj) s = Return (Some r) s' \<and> c_string r = Some t \<longrightarrow>
          length t < length d + 1 + length p + 6)))"
proof -
  obtain rest where dir: "dir = d @ NUL # rest" "NUL \<notin> set d" using c_string_prefix [OF assms(1)] by blast
  define buf2 where "buf2 = (take FILENAME_MAX dir)[length d := CHR ''/'']"
  have buf2: "length buf2 = FILENAME_MAX" "take (Suc (length d)) buf2 = d @ ''/''"
    if "FILENAME_MAX \<le> length dir" "length d < FILENAME_MAX"
    using that dir by (simp_all add: buf2_def take_Cons' list_update_append take_update_swap)
  note start = tempnam_start [OF assms, folded buf2_def]
  show ?thesis
  proof (intro conjI impI allI; (elim conjE)?)
    show "tempnam ptr buf dir pfx s = Return None s" if "FILENAME_MAX \<le> length d"
      using that assms(1) by (simp add: tempnam_def)
    show "tempnam ptr buf dir None s = Undefined" if "length d < FILENAME_MAX"
    proof -
      have "NUL \<notin> set (take (length d + 1) buf2)" if "\<not> length dir < FILENAME_MAX"
        using buf2(2) that \<open>length d < FILENAME_MAX\<close> dir(2) by (simp add: NUL_def)
      then show ?thesis using that by (simp add: start tempnam_tail_undefined Let_def)
    qed
    show "tempnam ptr buf dir pfx s = Undefined" if "length d < FILENAME_MAX" "length dir < FILENAME_MAX"
      using that by (simp add: start Let_def)
    show "tempnam ptr buf dir (Some obj) s = Return None s"
      if "length d < FILENAME_MAX" "FILENAME_MAX \<le> length dir" "c_string obj = Some p"
        "FILENAME_MAX \<le> length d + 1 + length p" for obj p
      using that by (simp add: start Let_def)
    show "tempnam ptr buf dir (Some obj) s = Undefined"
      if *: "length d < FILENAME_MAX" "FILENAME_MAX \<le> length dir" "c_string obj = Some p"
        "length d + 1 + 2 * length p < FILENAME_MAX" for obj p
    proof -
      obtain r where obj: "obj = p @ NUL # r" "NUL \<notin> set p" using * c_string_prefix by blast
      have "NUL \<notin> set (take (length d + 1 + length p)
          (take (length d + 1) buf2 @ take (FILENAME_MAX - (length d + 1 + length p)) obj @ xs))" for xs
        using * buf2 [OF *(2)] dir(2) obj by (auto simp: NUL_def)
      then show ?thesis
        using * by (auto simp: start memcpy_def Let_def tempnam_tail_undefined)
    qed
    show "length t < length d + 1 + length p + 6"
      if "length d < FILENAME_MAX" "FILENAME_MAX \<le> length dir" "c_string obj = Some p"
        "tempnam ptr buf dir (Some obj) s = Return (Some r) s'" "c_string r = Some t" for obj p r s' t
      using that tempnam_tail_shorter
      by (fastforce simp: start Let_def split: if_splits option.splits)
  qed
qed

theorem tempnam_no_name_witness:
  "tempnam (Some 0) (replicate FILENAME_MAX NUL) (''/tmp'' @ replicate FILENAME_MAX NUL)
     (Some (''pg'' @ [NUL])) demo_tmp = Undefined \<and>
   tempnam (Some 0) (replicate FILENAME_MAX NUL) (''/tmp'' @ [NUL]) (Some (''pg'' @ [NUL])) demo_tmp = Undefined"
proof -
  have c: "c_string (''/tmp'' @ NUL # rest) = Some ''/tmp''" "c_string (''pg'' @ [NUL]) = Some ''pg''" for rest
    by (rule c_string_append; simp add: NUL_def)+
  have big: "''/tmp'' @ replicate FILENAME_MAX NUL = ''/tmp'' @ NUL # replicate (FILENAME_MAX - 1) NUL"
    by (simp add: FILENAME_MAX_def flip: replicate_Suc)
  have len: "length (replicate FILENAME_MAX NUL) = FILENAME_MAX" by simp
  from tempnam_no_name [OF c(1) len, where rest1 = "replicate (FILENAME_MAX - 1) NUL" and ptr = "Some 0" and s = demo_tmp]
    tempnam_no_name [OF c(1) len, where rest1 = "[]" and ptr = "Some 0" and pfx = "Some (''pg'' @ [NUL])" and s = demo_tmp] c(2)
  show ?thesis unfolding big by (simp add: FILENAME_MAX_def del: append_Cons append.simps replicate.simps)
qed

end
