(* ===== verification/Dict.thy ===== *)
theory Dict
  imports C_Prelude
begin

text \<open>
  The growable dictionary of \<open>sdk_port-wasi-dlfcn.c\<close>: \<open>dict_find_index\<close>, \<open>dict_find\<close>, \<open>dict_add\<close> and
  \<open>dict_new\<close>. The entry array has as many slots as were allocated, a slot that was never written
  is \<open>None\<close> (a failed allocation leaves no slots at all), and a key that \<open>strdup\<close> could not copy is a null pointer. Reading an unwritten slot or
  a null key and writing outside of the array are undefined, the value \<open>None\<close> of the functions.
  The allocator is the parameter \<open>alloc\<close>: whether a request of that many bytes succeeds. An entry has
  8 bytes on wasm32, and the size passed to \<open>realloc\<close> wraps at \<open>2\<^sup>3\<^sup>2\<close>.

  The locale \<open>dictionary\<close> is the interface: what a lookup returns after updates.
\<close>

section \<open>Data and operations\<close>

record dict_entry_s =
  key :: "string option"
  val :: int

record dict_s =
  dlen :: nat
  cap :: nat
  slots :: "dict_entry_s option list"

definition slot_key :: "dict_s \<Rightarrow> nat \<Rightarrow> string option" where
  "slot_key d i = (if i < length (slots d) then Option.bind (slots d ! i) key else None)"

fun find_from :: "dict_s \<Rightarrow> string \<Rightarrow> nat list \<Rightarrow> int option" where
  "find_from d k [] = Some (- 1)"
| "find_from d k (i # is) =
     (case slot_key d i of
        None \<Rightarrow> None
      | Some k' \<Rightarrow> if k' = k then Some (int i) else find_from d k is)"

definition dict_find_index :: "dict_s \<Rightarrow> string \<Rightarrow> int option" where
  "dict_find_index d k = find_from d k [0..<dlen d]"

definition dict_find :: "dict_s \<Rightarrow> string \<Rightarrow> int \<Rightarrow> int option" where
  "dict_find d k dflt =
     (case dict_find_index d k of
        None \<Rightarrow> None
      | Some idx \<Rightarrow> if idx = - 1 then Some dflt else map_option val (slots d ! nat idx))"

text \<open>
  The part of \<open>dict_add\<close> after the search: grow when full, then append. \<open>cap *= 2\<close> is undefined when
  it overflows \<open>int\<close>; a failed \<open>realloc\<close> makes the following stores undefined.
\<close>

definition dict_grow :: "(nat \<Rightarrow> bool) \<Rightarrow> dict_s \<Rightarrow> dict_s option" where
  "dict_grow alloc d =
     (if dlen d = cap d
      then (if 2 ^ 31 \<le> cap d * 2 then None
            else let size = (cap d * 2 * 8) mod 2 ^ 32
                 in if alloc size
                    then Some (d\<lparr>cap := cap d * 2,
                                 slots := take (size div 8) (slots d) @ replicate (size div 8 - length (slots d)) None\<rparr>)
                    else None)
      else Some d)"

definition dict_add :: "(nat \<Rightarrow> bool) \<Rightarrow> dict_s \<Rightarrow> string \<Rightarrow> int \<Rightarrow> dict_s option" where
  "dict_add alloc d k v =
     (case dict_find_index d k of
        None \<Rightarrow> None
      | Some idx \<Rightarrow>
        if idx \<noteq> - 1
        then Some (d\<lparr>slots := (slots d)[nat idx := map_option (\<lambda>e. e\<lparr>val := v\<rparr>) (slots d ! nat idx)]\<rparr>)
        else (case dict_grow alloc d of
                None \<Rightarrow> None
              | Some d' \<Rightarrow>
                if dlen d' < length (slots d')
                then Some (d'\<lparr>slots := (slots d')[dlen d' :=
                               Some \<lparr>key = (if alloc (length k + 1) then Some k else None), val = v\<rparr>],
                              dlen := dlen d' + 1\<rparr>)
                else None))"

definition dict_new :: "(nat \<Rightarrow> bool) \<Rightarrow> dict_s option" where
  "dict_new alloc =
     (if alloc 12 then Some \<lparr>dlen = 0, cap = 10, slots = if alloc 80 then replicate 10 None else []\<rparr> else None)"

section \<open>Invariant and abstraction\<close>

text \<open>
  The first \<open>dlen\<close> slots hold entries with distinct keys, and the array has \<open>cap\<close> slots. The bound on
  \<open>cap\<close> keeps the byte size of the array within \<open>size_t\<close>.
\<close>

definition entries_of :: "dict_s \<Rightarrow> (string \<times> int) list" where
  "entries_of d = map (\<lambda>s. case s of Some e \<Rightarrow> (the (key e), val e) | None \<Rightarrow> ([], 0)) (take (dlen d) (slots d))"

definition dict_inv :: "dict_s \<Rightarrow> bool" where
  "dict_inv d \<longleftrightarrow> dlen d \<le> cap d \<and> length (slots d) = cap d \<and> 0 < cap d \<and> cap d < 2 ^ 29 \<and>
     (\<forall>i < dlen d. \<exists>e k. slots d ! i = Some e \<and> key e = Some k) \<and> distinct (map fst (entries_of d))"

definition dict_map :: "dict_s \<Rightarrow> string \<Rightarrow> int option" where
  "dict_map d = map_of (entries_of d)"

lemma length_entries_of: "dict_inv d \<Longrightarrow> length (entries_of d) = dlen d"
  by (simp add: entries_of_def dict_inv_def)

lemma slot_entry:
  assumes "dict_inv d" "i < dlen d"
  shows "slots d ! i = Some \<lparr>key = Some (fst (entries_of d ! i)), val = snd (entries_of d ! i)\<rparr>"
    and "slot_key d i = Some (fst (entries_of d ! i))"
proof -
  obtain e k where e: "slots d ! i = Some e" "key e = Some k"
    using assms by (auto simp: dict_inv_def)
  then have "e = \<lparr>key = Some k, val = val e\<rparr>" by simp
  with e show "slots d ! i = Some \<lparr>key = Some (fst (entries_of d ! i)), val = snd (entries_of d ! i)\<rparr>"
    "slot_key d i = Some (fst (entries_of d ! i))"
    using assms by (auto simp: entries_of_def dict_inv_def slot_key_def)
qed

lemma find_from_spec:
  assumes "dict_inv d" "n \<le> dlen d"
  shows "find_from d k [n..<dlen d] =
    Some (case find (\<lambda>i. fst (entries_of d ! i) = k) [n..<dlen d] of None \<Rightarrow> - 1 | Some i \<Rightarrow> int i)"
  using assms(2)
proof (induction n rule: inc_induct)
  case base
  then show ?case by simp
next
  case (step n)
  then show ?case using slot_entry(2) [OF assms(1), of n] by (simp add: upt_conv_Cons)
qed

lemma find_index_cases:
  assumes "dict_inv d"
  obtains (absent) "dict_find_index d k = Some (- 1)" "k \<notin> set (map fst (entries_of d))" "dict_map d k = None"
  | (present) i where "dict_find_index d k = Some (int i)" "i < dlen d" "fst (entries_of d ! i) = k"
      "dict_map d k = Some (snd (entries_of d ! i))"
proof (cases "find (\<lambda>i. fst (entries_of d ! i) = k) [0..<dlen d]")
  case None
  then have "k \<notin> set (map fst (entries_of d))"
    using length_entries_of [OF assms] by (auto simp: find_None_iff in_set_conv_nth) (metis fst_conv)
  then show ?thesis
    using absent find_from_spec [OF assms, of 0 k] None
    by (simp add: dict_find_index_def dict_map_def map_of_eq_None_iff)
next
  case (Some i)
  then have i: "i < dlen d" "fst (entries_of d ! i) = k"
    by (auto simp: find_Some_iff)
  have "map_of (entries_of d) (fst (entries_of d ! i)) = Some (snd (entries_of d ! i))"
    using assms i(1) length_entries_of [OF assms] by (intro map_of_is_SomeI) (auto simp: dict_inv_def)
  with i show ?thesis
    using present find_from_spec [OF assms, of 0 k] Some
    by (simp add: dict_find_index_def dict_map_def)
qed

lemma entries_of_update:
  assumes "dict_inv d" "i < dlen d"
  shows "entries_of (d\<lparr>slots := (slots d)[i := map_option (\<lambda>e. e\<lparr>val := v\<rparr>) (slots d ! i)]\<rparr>) =
    (entries_of d)[i := (fst (entries_of d ! i), v)]"
  using assms slot_entry(1) [OF assms]
  by (intro nth_equalityI) (auto simp: entries_of_def dict_inv_def nth_list_update take_update_swap)

lemma map_of_list_update:
  assumes "distinct (map fst xs)" "i < length xs"
  shows "map_of (xs[i := (fst (xs ! i), v)]) = (map_of xs)(fst (xs ! i) \<mapsto> v)"
  using assms
proof (induction xs arbitrary: i)
  case Nil
  then show ?case by simp
next
  case (Cons x xs)
  show ?case
  proof (cases i)
    case 0
    then show ?thesis by (cases x) (auto simp: fun_eq_iff)
  next
    case (Suc j)
    with Cons.prems have "fst (xs ! j) \<in> fst ` set xs" by simp
    with Cons.prems have "fst (xs ! j) \<noteq> fst x" by (metis distinct.simps(2) list.simps(9) set_map)
    then show ?thesis using Cons Suc by (cases x) (auto simp: fun_eq_iff)
  qed
qed

lemma grow_spec:
  assumes "dict_inv d" "\<forall>n. alloc n" "dlen d < 2 ^ 28"
  shows "\<exists>d'. dict_grow alloc d = Some d' \<and> dict_inv d' \<and> dlen d' = dlen d \<and> dlen d' < cap d' \<and>
    entries_of d' = entries_of d"
proof (cases "dlen d = cap d")
  case True
  let ?d = "d\<lparr>cap := cap d * 2, slots := slots d @ replicate (cap d) None\<rparr>"
  have inv: "length (slots d) = cap d" "cap d < 2 ^ 28" "0 < cap d" using assms True by (auto simp: dict_inv_def)
  then have "dict_grow alloc d = Some ?d"
    using assms(2) True by (simp add: dict_grow_def Let_def)
  moreover have e: "entries_of ?d = entries_of d"
    using inv True by (simp add: entries_of_def)
  moreover have "dict_inv ?d"
    using assms(1) inv True e by (auto simp: dict_inv_def nth_append)
  ultimately show ?thesis using True inv(3) by auto
next
  case False
  then show ?thesis using assms(1) by (auto simp: dict_grow_def dict_inv_def)
qed

lemma add_spec:
  assumes "dict_inv d" "\<forall>n. alloc n" "dlen d < 2 ^ 28"
  shows "\<exists>d'. dict_add alloc d k v = Some d' \<and> dict_inv d' \<and> dict_map d' = (dict_map d)(k \<mapsto> v) \<and>
    dlen d' = (if dict_map d k = None then dlen d + 1 else dlen d)"
  using assms(1)
proof (cases rule: find_index_cases [where k = k])
  case (present i)
  let ?d = "d\<lparr>slots := (slots d)[i := map_option (\<lambda>e. e\<lparr>val := v\<rparr>) (slots d ! i)]\<rparr>"
  have e: "entries_of ?d = (entries_of d)[i := (k, v)]"
    using entries_of_update [OF assms(1) present(2)] present(3) by simp
  have "dict_add alloc d k v = Some ?d" using present(1) by (simp add: dict_add_def)
  moreover have "map fst ((entries_of d)[i := (k, v)]) = map fst (entries_of d)"
    using present(2,3) length_entries_of [OF assms(1)]
    by (intro nth_equalityI) (auto simp: nth_list_update)
  then have "dict_inv ?d"
    using assms(1) slot_entry(1) [OF assms(1)] e present(2) by (auto simp: dict_inv_def nth_list_update)
  moreover have "dict_map ?d = (dict_map d)(k \<mapsto> v)"
    using map_of_list_update [of "entries_of d" i v] assms(1) present(2,3) length_entries_of [OF assms(1)]
    by (simp add: dict_map_def e dict_inv_def)
  ultimately show ?thesis using present(4) by auto
next
  case absent
  obtain d' where d': "dict_grow alloc d = Some d'" "dict_inv d'" "dlen d' = dlen d" "dlen d' < cap d'"
    "entries_of d' = entries_of d" using grow_spec [OF assms] by blast
  let ?d = "d'\<lparr>slots := (slots d')[dlen d' := Some \<lparr>key = Some k, val = v\<rparr>], dlen := Suc (dlen d')\<rparr>"
  have len: "length (slots d') = cap d'" using d'(2) by (simp add: dict_inv_def)
  have e: "entries_of ?d = entries_of d @ [(k, v)]"
    unfolding d'(5) [symmetric] using d'(4) len by (simp add: entries_of_def take_Suc_conv_app_nth)
  have "dict_add alloc d k v = Some ?d" using absent(1) d' len assms(2) by (simp add: dict_add_def)
  moreover have "dict_inv ?d"
    using d'(2,4) assms(1) absent(2) e by (auto simp: dict_inv_def nth_list_update less_Suc_eq)
  moreover have "dict_map ?d = (dict_map d)(k \<mapsto> v)"
    using absent(3) by (auto simp: dict_map_def e map_add_def fun_eq_iff split: option.split)
  ultimately show ?thesis using absent(3) d'(3) by auto
qed

lemma find_spec:
  assumes "dict_inv d"
  shows "dict_find d k dflt = Some (case dict_map d k of None \<Rightarrow> dflt | Some v \<Rightarrow> v)"
  using assms
proof (cases rule: find_index_cases [where k = k])
  case absent
  then show ?thesis by (simp add: dict_find_def)
next
  case (present i)
  then show ?thesis using slot_entry(1) [OF assms present(2)] by (simp add: dict_find_def)
qed

section \<open>The interface of dictionaries\<close>

locale dictionary =
  fixes invar :: "'d \<Rightarrow> bool"
    and size_of :: "'d \<Rightarrow> nat"
    and limit :: nat
    and empty :: "'d option"
    and lookup :: "'d \<Rightarrow> 'k \<Rightarrow> int \<Rightarrow> int option"
    and update :: "'d \<Rightarrow> 'k \<Rightarrow> int \<Rightarrow> 'd option"
    and content :: "'d \<Rightarrow> 'k \<Rightarrow> int option"
  assumes empty_law: "\<exists>d. empty = Some d \<and> invar d \<and> content d = Map.empty \<and> size_of d = 0"
    and lookup_law: "invar d \<Longrightarrow> lookup d k v = Some (case content d k of None \<Rightarrow> v | Some w \<Rightarrow> w)"
    and update_law: "invar d \<Longrightarrow> size_of d < limit \<Longrightarrow>
      \<exists>d'. update d k v = Some d' \<and> invar d' \<and> content d' = (content d)(k \<mapsto> v) \<and> size_of d' \<le> size_of d + 1"
begin

lemma updates_from:
  assumes "invar d" "size_of d + length kvs \<le> limit"
  shows "\<exists>d'. fold (\<lambda>kv r. Option.bind r (\<lambda>d. update d (fst kv) (snd kv))) kvs (Some d) = Some d' \<and> invar d' \<and> content d' = content d ++ map_of (rev kvs)"
  using assms
proof (induction kvs arbitrary: d)
  case Nil
  then show ?case by simp
next
  case (Cons kv kvs)
  obtain d1 where d1: "update d (fst kv) (snd kv) = Some d1" "invar d1"
    "content d1 = (content d)(fst kv \<mapsto> snd kv)" "size_of d1 \<le> size_of d + 1"
    using update_law Cons.prems by fastforce
  then have "size_of d1 + length kvs \<le> limit" using Cons.prems(2) by simp
  from Cons.IH [OF d1(2) this] obtain d' where
    "fold (\<lambda>kv r. Option.bind r (\<lambda>d. update d (fst kv) (snd kv))) kvs (Some d1) = Some d'" "invar d'"
    "content d' = content d1 ++ map_of (rev kvs)" by blast
  moreover have "content d1 ++ map_of (rev kvs) = content d ++ map_of (rev (kv # kvs))"
    by (cases kv) (auto simp: d1(3) map_add_def fun_eq_iff split: option.split)
  ultimately show ?case using d1(1) by simp
qed

text \<open>After any sequence of updates a lookup returns the last value given to its key, or the default.\<close>

lemma last_update_wins:
  assumes "length kvs \<le> limit"
  shows "\<exists>d0 d. empty = Some d0 \<and>
    fold (\<lambda>kv r. Option.bind r (\<lambda>d. update d (fst kv) (snd kv))) kvs empty = Some d \<and> invar d \<and>
    lookup d k v = Some (case map_of (rev kvs) k of None \<Rightarrow> v | Some w \<Rightarrow> w)"
proof -
  obtain d0 where d0: "empty = Some d0" "invar d0" "content d0 = Map.empty" "size_of d0 = 0"
    using empty_law by blast
  with updates_from [of d0 kvs] assms lookup_law show ?thesis by auto
qed

end

interpretation dict: dictionary dict_inv dlen "2 ^ 28" "dict_new (\<lambda>_. True)" dict_find
  "dict_add (\<lambda>_. True)" dict_map
proof unfold_locales
  show "\<exists>d. dict_new (\<lambda>_. True) = Some d \<and> dict_inv d \<and> dict_map d = Map.empty \<and> dlen d = 0"
    by (simp add: dict_new_def dict_inv_def dict_map_def entries_of_def)
  show "dict_find d k v = Some (case dict_map d k of None \<Rightarrow> v | Some w \<Rightarrow> w)" if "dict_inv d" for d k v
    using that by (rule find_spec)
  show "\<exists>d'. dict_add (\<lambda>_. True) d k v = Some d' \<and> dict_inv d' \<and> dict_map d' = (dict_map d)(k \<mapsto> v) \<and>
      dlen d' \<le> dlen d + 1" if "dict_inv d" "dlen d < 2 ^ 28" for d k v
    using add_spec [OF that(1) _ that(2), of "\<lambda>_. True" k v] by auto
qed

section \<open>Properties\<close>

text \<open>
  C23. The dictionary is a finite map, through every growth of its array: starting from \<open>dict_new\<close>,
  after any sequence of at most \<open>2\<^sup>2\<^sup>8\<close> calls of \<open>dict_add\<close> (with an allocator that succeeds) no call
  was undefined, and \<open>dict_find\<close> returns the value last added for the key, or the default.
\<close>

theorem dict_last_add_wins:
  assumes "length kvs \<le> 2 ^ 28"
  shows "\<exists>d. fold (\<lambda>kv r. Option.bind r (\<lambda>d. dict_add (\<lambda>_. True) d (fst kv) (snd kv))) kvs (dict_new (\<lambda>_. True)) = Some d \<and>
    dict_inv d \<and> dict_find d k dflt = Some (case map_of (rev kvs) k of None \<Rightarrow> dflt | Some v \<Rightarrow> v)"
  using dict.last_update_wins [OF assms, of k dflt] by blast

theorem dict_last_add_wins_witness:
  "\<exists>d. fold (\<lambda>kv r. Option.bind r (\<lambda>d. dict_add (\<lambda>_. True) d (fst kv) (snd kv)))
      (map (\<lambda>i. (replicate i CHR ''a'', int i)) [0..<11] @ [(''aaa'', 99)]) (dict_new (\<lambda>_. True)) = Some d \<and>
    dict_find d ''aaa'' 7 = Some 99 \<and> dict_find d ''b'' 7 = Some 7"
proof -
  let ?kvs = "map (\<lambda>i. (replicate i CHR ''a'', int i)) [0..<11] @ [(''aaa'', 99)]"
  have "map_of (rev ?kvs) ''b'' = None" by code_simp
  moreover have "length ?kvs \<le> 2 ^ 28" by simp
  ultimately show ?thesis
    using dict_last_add_wins [of ?kvs "''aaa''" 7] dict_last_add_wins [of ?kvs "''b''" 7] by auto
qed

text \<open>
  C24. One call of \<open>dict_add\<close> on a well-formed dictionary is defined, keeps the invariant, changes only
  the binding of its key, and uses a new slot only for a new key; the array then still has room for
  all its entries.
\<close>

theorem dict_add_correct:
  assumes "dict_inv d" "\<forall>n. alloc n" "dlen d < 2 ^ 28"
  shows "\<exists>d'. dict_add alloc d k v = Some d' \<and> dict_inv d' \<and> dict_map d' = (dict_map d)(k \<mapsto> v) \<and>
    dlen d' = (if dict_map d k = None then dlen d + 1 else dlen d) \<and> dlen d' \<le> length (slots d')"
  using add_spec [OF assms, of k v] by (auto simp: dict_inv_def)

theorem dict_add_correct_witness:
  "\<exists>d'. dict_add (\<lambda>_. True) \<lparr>dlen = 1, cap = 1, slots = [Some \<lparr>key = Some ''x'', val = 4\<rparr>]\<rparr> ''y'' 5 = Some d' \<and>
    dlen d' = 2 \<and> dict_map d' ''y'' = Some 5 \<and> dict_map d' ''x'' = Some 4"
proof -
  let ?d = "\<lparr>dlen = 1, cap = 1, slots = [Some \<lparr>key = Some ''x'', val = 4\<rparr>]\<rparr>"
  have "dict_inv ?d" "dict_map ?d = [''x'' \<mapsto> 4]"
    by (simp_all add: dict_inv_def entries_of_def dict_map_def)
  then show ?thesis using dict_add_correct [of ?d "\<lambda>_. True" "''y''" 5] by auto
qed

end
