(* ===== verification/Dlfcn.thy ===== *)
theory Dlfcn
  imports Dict "HOL-Library.Sublist"
begin

text \<open>
  The emulation of dynamic loading in \<open>sdk_port-wasi-dlfcn.c\<close>: \<open>ends_with\<close>, \<open>dlopen\<close>, \<open>dlsym\<close>, and
  the static stubs of \<open>dlfcn.h\<close>. The table \<open>dltab\<close> is declared without a size, which makes it an
  array of one element; its length is kept as it is in the state, so that the theorems also say what
  happens when the memory behind it happens to be free. Access outside of the table, through a null
  table entry, or after a failed allocation is undefined. \<open>_PG_init\<close> is PL/pgSQL's own: its calls
  are counted. What the functions print is not modelled.
\<close>

section \<open>State and helpers\<close>

record dl =
  dltab :: "dict_s option list"
  dltab_index :: int
  pg_init_calls :: nat

definition init_dl :: "nat \<Rightarrow> dl" where
  "init_dl n = \<lparr>dltab = replicate n None, dltab_index = 0, pg_init_calls = 0\<rparr>"

definition ends_with :: "string option \<Rightarrow> string option \<Rightarrow> bool" where
  "ends_with str suf =
     (case (str, suf) of
        (Some s, Some t) \<Rightarrow>
          (if length t > length s then False else take (length t) (drop (length s - length t) s) = t)
      | _ \<Rightarrow> False)"

section \<open>\<open>dlopen\<close>\<close>

text \<open>The search loop: \<open>Some (Some i)\<close> is an early return of \<open>i\<close>, \<open>None\<close> undefined behaviour.\<close>

fun dlopen_search :: "dict_s option list \<Rightarrow> string \<Rightarrow> nat list \<Rightarrow> int option option" where
  "dlopen_search tab filename [] = Some None"
| "dlopen_search tab filename (i # is) =
     (if i < length tab
      then (case tab ! i of
              None \<Rightarrow> None
            | Some d \<Rightarrow>
              (case dict_find_index d filename of
                 None \<Rightarrow> None
               | Some idx \<Rightarrow> if idx > 0 then Some (Some (int i)) else dlopen_search tab filename is))
      else None)"

definition dlopen :: "(nat \<Rightarrow> bool) \<Rightarrow> string \<Rightarrow> dl \<Rightarrow> (int, dl) cres" where
  "dlopen alloc filename s =
     (case dlopen_search (dltab s) filename [0..<nat (dltab_index s)] of
        None \<Rightarrow> Undefined
      | Some (Some i) \<Rightarrow> Return i s
      | Some None \<Rightarrow>
        (let s1 = (if ends_with (Some filename) (Some ''/plpgsql.so'')
                   then s\<lparr>pg_init_calls := Suc (pg_init_calls s)\<rparr> else s)
         in case Option.bind (dict_new alloc) (\<lambda>tab. dict_add alloc tab filename (dltab_index s1)) of
              None \<Rightarrow> Undefined
            | Some tab \<Rightarrow>
              (let index = dltab_index s1 + 1
               in if 0 \<le> index \<and> nat index < length (dltab s1)
                  then Return index (s1\<lparr>dltab_index := index, dltab := (dltab s1)[nat index := Some tab]\<rparr>)
                  else Undefined)))"

section \<open>\<open>dlsym\<close>\<close>

datatype csym = STUB_Pg_magic_func | STUB_PG_init | Dsnowball_init | Pg_finfo_dsnowball_init
  | Pg_finfo_dsnowball_lexize | Pg_finfo_plpgsql_call_handler | Pg_finfo_plpgsql_inline_handler
  | Pg_finfo_plpgsql_validator | Plpgsql_call_handler | Plpgsql_inline_handler | Plpgsql_validator

definition dlsym :: "int \<Rightarrow> string \<Rightarrow> csym option" where
  "dlsym handle symbol =
     (if symbol = ''Pg_magic_func'' then Some STUB_Pg_magic_func
      else if symbol = ''_PG_init'' then Some STUB_PG_init
      else if symbol = ''dsnowball_init'' then Some Dsnowball_init
      else if symbol = ''pg_finfo_dsnowball_init'' then Some Pg_finfo_dsnowball_init
      else if symbol = ''pg_finfo_dsnowball_lexize'' then Some Pg_finfo_dsnowball_lexize
      else if symbol = ''pg_finfo_plpgsql_call_handler'' then Some Pg_finfo_plpgsql_call_handler
      else if symbol = ''pg_finfo_plpgsql_inline_handler'' then Some Pg_finfo_plpgsql_inline_handler
      else if symbol = ''pg_finfo_plpgsql_validator'' then Some Pg_finfo_plpgsql_validator
      else if symbol = ''plpgsql_call_handler'' then Some Plpgsql_call_handler
      else if symbol = ''plpgsql_inline_handler'' then Some Plpgsql_inline_handler
      else if symbol = ''plpgsql_validator'' then Some Plpgsql_validator
      else None)"

text \<open>
  What is behind the two stubs that take part in loading a module: the magic block is Postgres' own
  (the parameter \<open>magic\<close>), and the initialisation stub does nothing. \<open>sym_stub\<close> answers null.
  \<open>dlerror\<close> returns its own address in place of a message.
\<close>

definition stub_Pg_magic_func :: "'m \<Rightarrow> 'm" where "stub_Pg_magic_func magic = magic"

definition stub_PG_init :: "dl \<Rightarrow> dl" where "stub_PG_init s = s"

definition stub_PG_fini :: "dl \<Rightarrow> dl" where "stub_PG_fini s = s"

definition sym_stub :: "nat option" where "sym_stub = None"

datatype dl_message = Message string | Function_address string

definition dlerror :: dl_message where "dlerror = Function_address ''dlerror''"

text \<open>\<open>dlclose\<close> and the replacements of \<open>dlfcn.h\<close> without \<open>PYDK\<close>.\<close>

definition dlclose :: "int \<Rightarrow> int" where "dlclose handle = 0"

definition static_dlopen :: "string \<Rightarrow> int \<Rightarrow> int option" where "static_dlopen filename flags = None"

definition static_dlsym :: "int \<Rightarrow> string \<Rightarrow> csym option" where "static_dlsym handle symbol = None"

section \<open>Lemmas\<close>

lemma ends_with_iff: "ends_with (Some s) (Some t) \<longleftrightarrow> suffix t s"
proof
  assume "ends_with (Some s) (Some t)"
  then have "drop (length s - length t) s = t" by (auto simp: ends_with_def split: if_splits)
  then show "suffix t s" by (metis append_take_drop_id suffixI)
next
  assume "suffix t s"
  then show "ends_with (Some s) (Some t)" by (auto simp: ends_with_def suffix_def)
qed

text \<open>The name under which a function is found.\<close>

fun sym_name :: "csym \<Rightarrow> string" where
  "sym_name STUB_Pg_magic_func = ''Pg_magic_func''"
| "sym_name STUB_PG_init = ''_PG_init''"
| "sym_name Dsnowball_init = ''dsnowball_init''"
| "sym_name Pg_finfo_dsnowball_init = ''pg_finfo_dsnowball_init''"
| "sym_name Pg_finfo_dsnowball_lexize = ''pg_finfo_dsnowball_lexize''"
| "sym_name Pg_finfo_plpgsql_call_handler = ''pg_finfo_plpgsql_call_handler''"
| "sym_name Pg_finfo_plpgsql_inline_handler = ''pg_finfo_plpgsql_inline_handler''"
| "sym_name Pg_finfo_plpgsql_validator = ''pg_finfo_plpgsql_validator''"
| "sym_name Plpgsql_call_handler = ''plpgsql_call_handler''"
| "sym_name Plpgsql_inline_handler = ''plpgsql_inline_handler''"
| "sym_name Plpgsql_validator = ''plpgsql_validator''"

lemma dlsym_name: "dlsym h f = Some c \<Longrightarrow> f = sym_name c"
  by (auto simp: dlsym_def split: if_splits)

lemma dlsym_sym_name: "dlsym h (sym_name c) = Some c"
  by (cases c) (simp_all add: dlsym_def)

lemma dlsym_iff: "dlsym h f = Some c \<longleftrightarrow> f = sym_name c"
  using dlsym_name dlsym_sym_name by blast

lemma finfo_iff: "(\<exists>c. dlsym h (''pg_finfo_'' @ f) = Some c) \<longleftrightarrow>
    f \<in> {''dsnowball_init'', ''dsnowball_lexize'', ''plpgsql_call_handler'', ''plpgsql_inline_handler'', ''plpgsql_validator''}"
  unfolding dlsym_def by simp

lemma finfo_alone_iff: "(\<exists>c. dlsym h (''pg_finfo_'' @ f) = Some c) \<and> dlsym h f = None \<longleftrightarrow> f = ''dsnowball_lexize''"
  unfolding finfo_iff by (auto simp: dlsym_def)

lemma new_table:
  assumes "\<forall>n. alloc n"
  shows "\<exists>tab. Option.bind (dict_new alloc) (\<lambda>tab. dict_add alloc tab filename v) = Some tab \<and>
    dict_inv tab \<and> dlen tab = 1 \<and> dict_find_index tab filename = Some 0"
proof -
  obtain d where d: "dict_new alloc = Some d" "dict_inv d" "dict_map d = Map.empty" "dlen d = 0"
    using assms by (simp add: dict_new_def dict_inv_def dict_map_def entries_of_def)
  with add_spec [OF d(2) assms, of filename v] obtain tab where tab: "dict_add alloc d filename v = Some tab"
    "dict_inv tab" "dict_map tab = [filename \<mapsto> v]" "dlen tab = 1" by auto
  have "dict_find_index tab filename = Some 0"
    using tab(2) by (cases rule: find_index_cases [where k = filename]) (use tab in auto)
  with d tab show ?thesis by simp
qed

lemma first_dlopen:
  assumes "\<forall>n. alloc n" "2 \<le> n"
  shows "\<exists>tab. dlopen alloc f (init_dl n) = Return 1 \<lparr>dltab = (replicate n None)[1 := Some tab], dltab_index = 1,
      pg_init_calls = (if suffix ''/plpgsql.so'' f then 1 else 0)\<rparr> \<and> dict_find_index tab f = Some 0"
  using new_table [OF assms(1), of f 0] assms(2)
  by (auto simp: dlopen_def init_dl_def ends_with_iff Let_def)

lemma dlopen_null_entry:
  "dltab_index s = 1 \<Longrightarrow> dltab s \<noteq> [] \<Longrightarrow> dltab s ! 0 = None \<Longrightarrow> dlopen alloc g s = Undefined"
  by (simp add: dlopen_def)

section \<open>Properties\<close>

text \<open>
  C25. \<open>ends_with\<close> decides the suffix relation, and is false when one of its arguments is null.
\<close>

theorem ends_with_correct:
  "ends_with str suf \<longleftrightarrow> (\<exists>s t. str = Some s \<and> suf = Some t \<and> suffix t s)"
  by (cases str; cases suf) (auto simp: ends_with_iff, simp_all add: ends_with_def)

text \<open>
  C26. The first \<open>dlopen\<close>: with the one-element table of the source the store of the new table is out
  of bounds, so that the call is undefined for every file. If the table had at least two elements the
  call would return handle 1, and would have run \<open>_PG_init\<close> exactly when the file is
  \<open>\<dots>/plpgsql.so\<close>.
\<close>

theorem dlopen_first:
  assumes "\<forall>n. alloc n" "2 \<le> n"
  shows "dlopen alloc f (init_dl 1) = Undefined \<and>
    (\<exists>s'. dlopen alloc f (init_dl n) = Return 1 s' \<and> dltab_index s' = 1 \<and>
       pg_init_calls s' = (if suffix ''/plpgsql.so'' f then 1 else 0))"
proof
  show "dlopen alloc f (init_dl 1) = Undefined"
    using new_table [OF assms(1), of f 0] by (auto simp: dlopen_def init_dl_def Let_def)
  show "\<exists>s'. dlopen alloc f (init_dl n) = Return 1 s' \<and> dltab_index s' = 1 \<and>
       pg_init_calls s' = (if suffix ''/plpgsql.so'' f then 1 else 0)"
    using first_dlopen [OF assms, of f] by auto
qed

theorem dlopen_first_witness:
  "dlopen (\<lambda>_. True) ''/lib/plpgsql.so'' (init_dl 1) = Undefined \<and>
   (\<exists>s'. dlopen (\<lambda>_. True) ''/lib/plpgsql.so'' (init_dl 4) = Return 1 s' \<and> pg_init_calls s' = 1)"
proof -
  have "suffix ''/plpgsql.so'' ''/lib/plpgsql.so''" by (simp add: suffix_def)
  then show ?thesis using dlopen_first [of "\<lambda>_. True" 4 "''/lib/plpgsql.so''"] by auto
qed

text \<open>
  C27. The second \<open>dlopen\<close> is undefined whatever the size of the table: the first call stored its table
  at index 1, and the search starts with the null entry 0. Even a table at the right place would not
  be found, because a file's own name has index 0 in it and the search asks for an index above 0.
\<close>

theorem dlopen_second:
  assumes "\<forall>n. alloc n" "2 \<le> n"
  shows "\<exists>s' tab. dlopen alloc f (init_dl n) = Return 1 s' \<and> dltab s' ! 1 = Some tab \<and>
    dlopen alloc g s' = Undefined \<and> dlopen_search [Some tab] f [0] = Some None"
proof -
  obtain tab where tab: "dict_find_index tab f = Some 0" and run: "dlopen alloc f (init_dl n) =
      Return 1 \<lparr>dltab = (replicate n None)[1 := Some tab], dltab_index = 1,
        pg_init_calls = (if suffix ''/plpgsql.so'' f then 1 else 0)\<rparr>"
    (is "_ = Return 1 ?s") using first_dlopen [OF assms, of f] by blast
  have "dltab ?s ! 1 = Some tab" using assms(2) by simp
  moreover have "dlopen alloc g ?s = Undefined"
    using assms(2) by (intro dlopen_null_entry) auto
  moreover have "dlopen_search [Some tab] f [0] = Some None" using tab by simp
  ultimately show ?thesis using run by blast
qed

theorem dlopen_second_witness:
  "\<exists>s' tab. dlopen (\<lambda>_. True) ''/a.so'' (init_dl 8) = Return 1 s' \<and> dltab s' ! 1 = Some tab \<and>
    dlopen (\<lambda>_. True) ''/a.so'' s' = Undefined \<and> dlopen_search [Some tab] ''/a.so'' [0] = Some None"
  using dlopen_second [of "\<lambda>_. True" 8 "''/a.so''" "''/a.so''"] by simp

text \<open>
  C28. \<open>dlsym\<close> and the calling convention of version 1, which needs \<open>f\<close> and \<open>pg_finfo_f\<close>: both are
  resolved, to different functions, for \<open>dsnowball_init\<close> and the three entry points of PL/pgSQL;
  for \<open>dsnowball_lexize\<close> only \<open>pg_finfo_dsnowball_lexize\<close> is, the function itself is not.
\<close>

theorem dlsym_version1_pairs:
  "(\<forall>f. dlsym h (''pg_finfo_'' @ f) \<noteq> None \<longleftrightarrow>
      f \<in> {''dsnowball_init'', ''dsnowball_lexize'', ''plpgsql_call_handler'', ''plpgsql_inline_handler'', ''plpgsql_validator''}) \<and>
   (\<forall>f. dlsym h (''pg_finfo_'' @ f) \<noteq> None \<and> dlsym h f = None \<longleftrightarrow> f = ''dsnowball_lexize'') \<and>
   (\<forall>f g. dlsym h f = dlsym h g \<and> dlsym h f \<noteq> None \<longrightarrow> f = g)"
proof (intro conjI allI impI)
  show "dlsym h (''pg_finfo_'' @ f) \<noteq> None \<longleftrightarrow>
      f \<in> {''dsnowball_init'', ''dsnowball_lexize'', ''plpgsql_call_handler'', ''plpgsql_inline_handler'', ''plpgsql_validator''}"
    for f using finfo_iff [of h f] by auto
  show "dlsym h (''pg_finfo_'' @ f) \<noteq> None \<and> dlsym h f = None \<longleftrightarrow> f = ''dsnowball_lexize''" for f
    using finfo_alone_iff [of h f] by auto
  show "f = g" if "dlsym h f = dlsym h g \<and> dlsym h f \<noteq> None" for f g
    using that by (metis dlsym_iff not_None_eq)
qed

theorem dlsym_version1_pairs_witness:
  "dlsym 1 ''pg_finfo_dsnowball_lexize'' \<noteq> None \<and> dlsym 1 ''dsnowball_lexize'' = None"
proof -
  have "dlsym 1 (''pg_finfo_'' @ ''dsnowball_lexize'') \<noteq> None \<and> dlsym 1 ''dsnowball_lexize'' = None"
    using dlsym_version1_pairs [of 1] by blast
  then show ?thesis by simp
qed

end
