(* ===== verification/Addr_Info.thy ===== *)
theory Addr_Info
  imports C_Prelude "HOL-Library.AList"
begin

text \<open>
  Address resolution of \<open>sdk_socket.c\<close>: \<open>sdk_getaddrinfo\<close>, \<open>sdk_freeaddrinfo\<close> and
  \<open>sdk_gai_strerror\<close>, over an explicit heap, with \<open>struct addrinfo\<close> and the \<open>EAI\<close> codes of \<open>netdb.h\<close>.
  A pointer is an address, null is \<open>None\<close>; \<open>free\<close> of an address that is not allocated and access
  through a dangling or null pointer are undefined. The heap has \<open>room\<close> bytes left; \<open>struct addrinfo\<close>
  has 32 and \<open>struct sockaddr_in\<close> 16 bytes on wasm32. \<open>atoi\<close>, \<open>htons\<close> and \<open>inet_pton\<close> are the C
  library's, for the uses the source makes of them.

  The locale \<open>allocator\<close> is the interface of the heap.
\<close>

unbundle bit_operations_syntax

section \<open>Data\<close>

record addrinfo =
  ai_flags :: int
  ai_family :: int
  ai_socktype :: int
  ai_protocol :: int
  ai_addrlen :: int
  ai_addr :: "nat option"
  ai_canonname :: "nat option"
  ai_next :: "nat option"

record sockaddr_in =
  sin_family :: int
  sin_port :: "16 word"
  sin_addr :: "byte list"

datatype obj = Addrinfo addrinfo | Sockaddr sockaddr_in | Chars string

record heap =
  objs :: "(nat \<times> obj) list"
  brk :: nat
  room :: nat

definition EAI_BADFLAGS :: int where "EAI_BADFLAGS = - 1"
definition EAI_NONAME :: int where "EAI_NONAME = - 2"
definition EAI_AGAIN :: int where "EAI_AGAIN = - 3"
definition EAI_FAIL :: int where "EAI_FAIL = - 4"
definition EAI_NODATA :: int where "EAI_NODATA = - 5"
definition EAI_FAMILY :: int where "EAI_FAMILY = - 6"
definition EAI_SOCKTYPE :: int where "EAI_SOCKTYPE = - 7"
definition EAI_SERVICE :: int where "EAI_SERVICE = - 8"
definition EAI_MEMORY :: int where "EAI_MEMORY = - 10"
definition EAI_SYSTEM :: int where "EAI_SYSTEM = - 11"
definition EAI_OVERFLOW :: int where "EAI_OVERFLOW = - 12"

lemmas eai_defs = EAI_BADFLAGS_def EAI_NONAME_def EAI_AGAIN_def EAI_FAIL_def EAI_NODATA_def EAI_FAMILY_def
  EAI_SOCKTYPE_def EAI_SERVICE_def EAI_MEMORY_def EAI_SYSTEM_def EAI_OVERFLOW_def

text \<open>The constants of the WASI headers that the result is filled with.\<close>

definition AF_INET :: int where "AF_INET = 1"
definition SOCK_STREAM :: int where "SOCK_STREAM = 6"
definition IPPROTO_TCP :: int where "IPPROTO_TCP = 6"

section \<open>The heap\<close>

fun obj_size :: "obj \<Rightarrow> nat" where
  "obj_size (Addrinfo _) = 32"
| "obj_size (Sockaddr _) = 16"
| "obj_size (Chars cs) = length cs"

definition malloc :: "obj \<Rightarrow> heap \<Rightarrow> nat option \<times> heap" where
  "malloc v h =
     (if obj_size v \<le> room h
      then (Some (brk h), h\<lparr>objs := (brk h, v) # objs h, brk := Suc (brk h), room := room h - obj_size v\<rparr>)
      else (None, h))"

definition free :: "nat \<Rightarrow> heap \<Rightarrow> heap option" where
  "free a h =
     (case map_of (objs h) a of
        None \<Rightarrow> None
      | Some v \<Rightarrow> Some (h\<lparr>objs := AList.delete a (objs h), room := room h + obj_size v\<rparr>))"

text \<open>A store through a pointer; undefined unless the object is allocated.\<close>

definition store :: "nat \<Rightarrow> obj \<Rightarrow> heap \<Rightarrow> heap option" where
  "store a v h =
     (if map_of (objs h) a = None then None else Some (h\<lparr>objs := AList.update a v (objs h)\<rparr>))"

section \<open>The C library's conversions\<close>

text \<open>\<open>atoi\<close> is undefined when the number does not fit an \<open>int\<close>.\<close>

definition atoi :: "string \<Rightarrow> int option" where
  "atoi s = (let v = signed_val (dropWhile isspace s)
             in if - 2147483648 \<le> v \<and> v < 2147483648 then Some v else None)"

definition htons :: "16 word \<Rightarrow> 16 word" where
  "htons w = push_bit 8 w OR drop_bit 8 w"

definition octet :: "string \<Rightarrow> byte option" where
  "octet s =
     (if 1 \<le> length s \<and> length s \<le> 3 \<and> list_all isdigit s \<and>
         (length s = 1 \<or> hd s \<noteq> CHR ''0'') \<and> digits_val 0 s \<le> 255
      then Some (word_of_nat (digits_val 0 s)) else None)"

fun split_dots :: "string \<Rightarrow> string list" where
  "split_dots [] = [[]]"
| "split_dots (c # cs) =
     (if c = CHR ''.'' then [] # split_dots cs
      else case split_dots cs of p # ps \<Rightarrow> (c # p) # ps | [] \<Rightarrow> [[c]])"

definition inet_pton :: "string \<Rightarrow> byte list option" where
  "inet_pton s =
     (case split_dots s of
        [a, b, c, d] \<Rightarrow>
          (case (octet a, octet b, octet c, octet d) of
             (Some w, Some x, Some y, Some z) \<Rightarrow> Some [w, x, y, z]
           | _ \<Rightarrow> None)
      | _ \<Rightarrow> None)"

section \<open>\<open>sdk_getaddrinfo\<close>\<close>

text \<open>
  The value is the return code and what the call stores through \<open>res\<close>, if it does. The structures
  are allocated with the contents they have after \<open>memset\<close> and the assignments that follow.
\<close>

definition blank_addrinfo :: addrinfo where
  "blank_addrinfo = \<lparr>ai_flags = 0, ai_family = AF_INET, ai_socktype = SOCK_STREAM, ai_protocol = IPPROTO_TCP,
     ai_addrlen = 0, ai_addr = None, ai_canonname = None, ai_next = None\<rparr>"

definition sdk_getaddrinfo ::
    "string option \<Rightarrow> string option \<Rightarrow> heap \<Rightarrow> (int \<times> nat option, heap) cres" where
  "sdk_getaddrinfo hostname service h =
     (case malloc (Addrinfo blank_addrinfo) h of
        (None, h1) \<Rightarrow> Return (EAI_MEMORY, None) h1
      | (Some result, h1) \<Rightarrow>
        (case malloc (Sockaddr \<lparr>sin_family = AF_INET, sin_port = 0, sin_addr = [0, 0, 0, 0]\<rparr>) h1 of
           (None, h2) \<Rightarrow>
             (case free result h2 of None \<Rightarrow> Undefined | Some h3 \<Rightarrow> Return (EAI_MEMORY, None) h3)
         | (Some addr, h2) \<Rightarrow>
           (case (service, hostname) of
              (Some sv, Some hn) \<Rightarrow>
                (case atoi sv of
                   None \<Rightarrow> Undefined
                 | Some n \<Rightarrow>
                   (case inet_pton hn of
                      None \<Rightarrow>
                        (case free result h2 of
                           None \<Rightarrow> Undefined
                         | Some h3 \<Rightarrow>
                           (case free addr h3 of None \<Rightarrow> Undefined | Some h4 \<Rightarrow> Return (EAI_FAIL, None) h4))
                    | Some ip \<Rightarrow>
                      (case store addr (Sockaddr \<lparr>sin_family = AF_INET,
                               sin_port = htons (word_of_int n), sin_addr = ip\<rparr>) h2 of
                         None \<Rightarrow> Undefined
                       | Some h3 \<Rightarrow>
                         (case store result (Addrinfo (blank_addrinfo\<lparr>ai_addr := Some addr,
                                  ai_addrlen := 16, ai_next := None\<rparr>)) h3 of
                            None \<Rightarrow> Undefined
                          | Some h4 \<Rightarrow> Return (0, Some result) h4))))
            | _ \<Rightarrow> Undefined)))"

section \<open>\<open>sdk_freeaddrinfo\<close>\<close>

definition free_ptr :: "nat option \<Rightarrow> heap \<Rightarrow> heap option" where
  "free_ptr p h = (case p of None \<Rightarrow> Some h | Some a \<Rightarrow> free a h)"

lemma length_delete_le: "length (AList.delete a xs) \<le> length xs"
  by (simp add: AList.delete_eq)

lemma length_free: "free a h = Some h' \<Longrightarrow> length (objs h') < length (objs h)"
  by (auto simp: free_def AList.delete_eq length_filter_less dest: map_of_SomeD split: option.splits)

lemma length_free_ptr: "free_ptr p h = Some h' \<Longrightarrow> length (objs h') \<le> length (objs h)"
  by (cases p) (auto simp: free_ptr_def dest: length_free)

function sdk_freeaddrinfo :: "nat option \<Rightarrow> heap \<Rightarrow> (unit, heap) cres" where
  "sdk_freeaddrinfo None h = Return () h"
| "sdk_freeaddrinfo (Some res) h =
     (case map_of (objs h) res of
        Some (Addrinfo r) \<Rightarrow>
          (case free_ptr (ai_addr r) h of
             None \<Rightarrow> Undefined
           | Some h1 \<Rightarrow>
             (case free_ptr (ai_canonname r) h1 of
                None \<Rightarrow> Undefined
              | Some h2 \<Rightarrow>
                (case free res h2 of
                   None \<Rightarrow> Undefined
                 | Some h3 \<Rightarrow> sdk_freeaddrinfo (ai_next r) h3)))
      | _ \<Rightarrow> Undefined)"
  by pat_completeness auto

termination sdk_freeaddrinfo
proof (relation "measure (\<lambda>(p, h). length (objs h))")
  show "((ai_next r, h3), (Some res, h)) \<in> measure (\<lambda>(p, h). length (objs h))"
    if "map_of (objs h) res = Some x2" "x2 = Addrinfo r" "free_ptr (ai_addr r) h = Some h1"
      "free_ptr (ai_canonname r) h1 = Some h2" "free res h2 = Some h3" for res h x2 r h1 h2 h3
    using length_free_ptr [OF that(3)] length_free_ptr [OF that(4)] length_free [OF that(5)] by simp
qed simp

section \<open>\<open>sdk_gai_strerror\<close>\<close>

definition sdk_gai_strerror :: "int \<Rightarrow> string" where
  "sdk_gai_strerror errcode =
     (if errcode = EAI_AGAIN then ''Temporary failure in name resolution''
      else if errcode = EAI_BADFLAGS then ''Invalid value for ai_flags''
      else if errcode = EAI_FAIL then ''Non-recoverable failure in name resolution''
      else if errcode = EAI_FAMILY then ''ai_family not supported''
      else if errcode = EAI_MEMORY then ''Memory allocation failure''
      else if errcode = EAI_NONAME then ''Name or service not known''
      else if errcode = EAI_SERVICE then ''Service not supported for socket type''
      else if errcode = EAI_SOCKTYPE then ''Socket type not supported''
      else if errcode = EAI_SYSTEM then ''System error returned in errno''
      else if errcode = EAI_OVERFLOW then ''Argument buffer overflow''
      else ''Unknown error'')"

text \<open>
  The rest of the resolver interface has one answer for every argument: no service, protocol or host
  is known (a null pointer), there is no place for \<open>h_errno\<close>, and \<open>getnameinfo\<close> fails. The last
  definition is the message of the static \<open>gai_strerror\<close> in \<open>sdk_port.h\<close>.
\<close>

record netent =
  n_name :: string
  n_aliases :: "string list"
  n_addrtype :: int
  n_net :: "32 word"

record hostent =
  h_name :: string
  h_aliases :: "string list"
  h_addrtype :: int
  h_length :: int
  h_addr_list :: "byte list list"

record servent =
  s_name :: string
  s_aliases :: "string list"
  s_port :: int
  s_proto :: string

record protoent =
  p_name :: string
  p_aliases :: "string list"
  p_proto :: int

definition getservbyname :: "string \<Rightarrow> string \<Rightarrow> servent option" where "getservbyname name proto = None"
definition getservbyport :: "int \<Rightarrow> string \<Rightarrow> servent option" where "getservbyport port proto = None"
definition getprotobyname :: "string \<Rightarrow> protoent option" where "getprotobyname name = None"
definition gethostbyname :: "string \<Rightarrow> hostent option" where "gethostbyname name = None"
definition gethostbyaddr :: "byte list \<Rightarrow> int \<Rightarrow> int \<Rightarrow> hostent option" where "gethostbyaddr addr len type = None"
definition getprotoent :: "protoent option" where "getprotoent = None"
definition h_errno_location :: "int option" where "h_errno_location = None"
definition hstrerror :: "int \<Rightarrow> string" where "hstrerror ecode = ''hstrerror''"
definition getnameinfo :: int where "getnameinfo = - 1"
definition gai_strerror :: "int \<Rightarrow> string" where "gai_strerror errcode = ''# 165: gai_strerror_msg''"

section \<open>The interface of the heap\<close>

locale allocator =
  fixes invar :: "'h \<Rightarrow> bool"
    and content :: "'h \<Rightarrow> nat \<rightharpoonup> 'v"
    and space :: "'h \<Rightarrow> nat"
    and size_of :: "'v \<Rightarrow> nat"
    and alloc :: "'v \<Rightarrow> 'h \<Rightarrow> nat option \<times> 'h"
    and dealloc :: "nat \<Rightarrow> 'h \<Rightarrow> 'h option"
  assumes alloc_fail: "space h < size_of v \<Longrightarrow> alloc v h = (None, h)"
    and alloc_ok: "invar h \<Longrightarrow> size_of v \<le> space h \<Longrightarrow> \<exists>a h'. alloc v h = (Some a, h') \<and> invar h' \<and>
      content h a = None \<and> content h' = (content h)(a \<mapsto> v) \<and> space h' = space h - size_of v"
    and dealloc_ok: "invar h \<Longrightarrow> content h a = Some v \<Longrightarrow> \<exists>h'. dealloc a h = Some h' \<and> invar h' \<and>
      content h' = (content h)(a := None) \<and> space h' = space h + size_of v"
    and dealloc_bad: "content h a = None \<Longrightarrow> dealloc a h = None"
begin

text \<open>Two blocks, released in the order of their allocation, leave no trace.\<close>

lemma alloc_two_free_two:
  assumes "invar h" "size_of v + size_of w \<le> space h"
  shows "\<exists>a b h1 h2 h3 h4. alloc v h = (Some a, h1) \<and> alloc w h1 = (Some b, h2) \<and> a \<noteq> b \<and> invar h2 \<and>
    content h a = None \<and> content h b = None \<and>
    content h2 = (content h)(a \<mapsto> v, b \<mapsto> w) \<and> space h2 = space h - (size_of v + size_of w) \<and>
    dealloc a h2 = Some h3 \<and> dealloc b h3 = Some h4 \<and>
    invar h4 \<and> content h4 = content h \<and> space h4 = space h"
proof -
  obtain a h1 where h1: "alloc v h = (Some a, h1)" "invar h1" "content h a = None"
    "content h1 = (content h)(a \<mapsto> v)" "space h1 = space h - size_of v"
    using alloc_ok [OF assms(1), of v] assms(2) by auto
  obtain b h2 where h2: "alloc w h1 = (Some b, h2)" "invar h2" "content h1 b = None"
    "content h2 = (content h1)(b \<mapsto> w)" "space h2 = space h1 - size_of w"
    using alloc_ok [OF h1(2), of w] assms(2) h1(5) by (metis add_le_imp_le_diff add.commute)
  have ab: "a \<noteq> b" using h1(4) h2(3) by auto
  then obtain h3 where h3: "dealloc a h2 = Some h3" "invar h3" "content h3 = (content h2)(a := None)"
    "space h3 = space h2 + size_of v"
    using dealloc_ok [OF h2(2), of a v] h1(4) h2(4) by auto
  then obtain h4 where h4: "dealloc b h3 = Some h4" "invar h4" "content h4 = (content h3)(b := None)"
    "space h4 = space h3 + size_of w"
    using dealloc_ok [OF h3(2), of b w] h2(4) ab by auto
  have "content h4 = content h" "content h b = None"
    using h1(3,4) h2(3,4) h3(3) h4(3) ab by (auto simp: fun_eq_iff)
  moreover have "space h4 = space h" using h1(5) h2(5) h3(4) h4(4) assms(2) by simp
  moreover have "content h2 = (content h)(a \<mapsto> v, b \<mapsto> w)" "space h2 = space h - (size_of v + size_of w)"
    using h1(4,5) h2(4,5) by simp_all
  ultimately show ?thesis using h1(1,3) h2(1,2) h3(1) h4(1,2) ab by blast
qed

lemma alloc_one_free_one:
  assumes "invar h" "size_of v \<le> space h"
  shows "\<exists>a h1 h2. alloc v h = (Some a, h1) \<and> space h1 = space h - size_of v \<and> dealloc a h1 = Some h2 \<and>
    invar h2 \<and> content h2 = content h \<and> space h2 = space h"
proof -
  obtain a h1 where h1: "alloc v h = (Some a, h1)" "invar h1" "content h a = None"
    "content h1 = (content h)(a \<mapsto> v)" "space h1 = space h - size_of v"
    using alloc_ok [OF assms] by auto
  then obtain h2 where "dealloc a h1 = Some h2" "invar h2" "content h2 = (content h1)(a := None)"
    "space h2 = space h1 + size_of v" using dealloc_ok [OF h1(2), of a v] by auto
  with h1 assms(2) show ?thesis by (auto simp: fun_upd_idem)
qed

end

definition heap_inv :: "heap \<Rightarrow> bool" where
  "heap_inv h \<longleftrightarrow> distinct (map fst (objs h)) \<and> (\<forall>a v. map_of (objs h) a = Some v \<longrightarrow> a < brk h)"

definition cells :: "heap \<Rightarrow> nat \<rightharpoonup> obj" where
  "cells h = map_of (objs h)"

interpretation heap: allocator heap_inv cells room obj_size malloc free
proof unfold_locales
  show "malloc v h = (None, h)" if "room h < obj_size v" for v h
    using that by (simp add: malloc_def)
  show "\<exists>a h'. malloc v h = (Some a, h') \<and> heap_inv h' \<and> cells h a = None \<and>
      cells h' = (cells h)(a \<mapsto> v) \<and> room h' = room h - obj_size v"
    if "heap_inv h" "obj_size v \<le> room h" for h v
  proof -
    have "map_of (objs h) (brk h) = None" using that(1) unfolding heap_inv_def by (metis less_irrefl not_None_eq)
    then show ?thesis
      using that by (auto simp: malloc_def heap_inv_def cells_def map_of_eq_None_iff less_Suc_eq)
  qed
  show "\<exists>h'. free a h = Some h' \<and> heap_inv h' \<and> cells h' = (cells h)(a := None) \<and> room h' = room h + obj_size v"
    if "heap_inv h" "cells h a = Some v" for h a v
    using that by (auto simp: free_def heap_inv_def cells_def delete_conv' distinct_delete)
  show "free a h = None" if "cells h a = None" for h a
    using that by (simp add: free_def cells_def)
qed

lemma store_ok:
  assumes "heap_inv h" "cells h a \<noteq> None"
  shows "\<exists>h'. store a v h = Some h' \<and> heap_inv h' \<and> cells h' = (cells h)(a \<mapsto> v) \<and> room h' = room h"
  using assms
  by (auto simp: store_def heap_inv_def cells_def update_conv' distinct_update)

section \<open>Lists of results\<close>

text \<open>
  \<open>ai_chain h p as\<close>: from \<open>p\<close> the heap holds a list of \<open>struct addrinfo\<close> that ends with null; \<open>as\<close> are
  the blocks the list owns, in the order in which \<open>sdk_freeaddrinfo\<close> releases them.
\<close>

definition opt_list :: "nat option \<Rightarrow> nat list" where
  "opt_list p = (case p of None \<Rightarrow> [] | Some a \<Rightarrow> [a])"

inductive ai_chain :: "heap \<Rightarrow> nat option \<Rightarrow> nat list \<Rightarrow> bool" where
  chain_end: "ai_chain h None []"
| chain_node: "cells h a = Some (Addrinfo r) \<Longrightarrow>
    \<forall>x \<in> set (opt_list (ai_addr r) @ opt_list (ai_canonname r)). cells h x \<noteq> None \<Longrightarrow>
    ai_chain h (ai_next r) as \<Longrightarrow>
    ai_chain h (Some a) (opt_list (ai_addr r) @ opt_list (ai_canonname r) @ a # as)"

inductive_simps ai_chain_None: "ai_chain h None as"
inductive_simps ai_chain_Some: "ai_chain h (Some a) as"

lemma ai_chain_frame:
  "ai_chain h p as \<Longrightarrow> (\<forall>x \<in> set as. cells h' x = cells h x) \<Longrightarrow> ai_chain h' p as"
  by (induction rule: ai_chain.induct) (auto intro!: ai_chain.intros)

lemma restrict_map_all [simp]: "m |` UNIV = m"
  by (simp add: restrict_map_def)

text \<open>Releasing an optional block removes that block and nothing else.\<close>

lemma free_ptr_ok:
  assumes "heap_inv h" "\<forall>x \<in> set (opt_list p). cells h x \<noteq> None"
  shows "\<exists>h'. free_ptr p h = Some h' \<and> heap_inv h' \<and> cells h' = cells h |` (- set (opt_list p))"
proof (cases p)
  case None
  then show ?thesis using assms by (simp add: free_ptr_def opt_list_def)
next
  case (Some a)
  then obtain v where "cells h a = Some v" using assms(2) by (auto simp: opt_list_def)
  from heap.dealloc_ok [OF assms(1) this] show ?thesis
    using Some by (auto simp: free_ptr_def opt_list_def restrict_map_def fun_eq_iff)
qed

lemma freeaddrinfo_chain:
  assumes "ai_chain h p as" "heap_inv h" "distinct as"
  shows "\<exists>h'. sdk_freeaddrinfo p h = Return () h' \<and> heap_inv h' \<and> cells h' = cells h |` (- set as)"
  using assms
proof (induction "length as" arbitrary: h p as rule: less_induct)
  case less
  from less.prems(1) show ?case
  proof cases
    case chain_end
    then show ?thesis using less.prems by simp
  next
    case (chain_node a r bs)
    let ?ad = "set (opt_list (ai_addr r))" and ?cn = "set (opt_list (ai_canonname r))"
    have disj: "?ad \<inter> ?cn = {}" "a \<notin> ?ad" "a \<notin> ?cn" "a \<notin> set bs" "set bs \<inter> (?ad \<union> ?cn) = {}" "distinct bs"
      using less.prems(3) chain_node(2) by auto
    obtain h1 where h1: "free_ptr (ai_addr r) h = Some h1" "heap_inv h1" "cells h1 = cells h |` (- ?ad)"
      using free_ptr_ok [OF less.prems(2), of "ai_addr r"] chain_node(4) by auto
    have "\<forall>x \<in> ?cn. cells h1 x \<noteq> None" using chain_node(4) disj(1) by (auto simp: h1(3) restrict_map_def)
    then obtain h2 where h2: "free_ptr (ai_canonname r) h1 = Some h2" "heap_inv h2"
      "cells h2 = cells h1 |` (- ?cn)" using free_ptr_ok [OF h1(2)] by blast
    have "cells h2 a = Some (Addrinfo r)" using chain_node(3) disj by (simp add: h1(3) h2(3))
    from heap.dealloc_ok [OF h2(2) this] obtain h3 where h3: "free a h2 = Some h3" "heap_inv h3"
      "cells h3 = (cells h2)(a := None)" by blast
    have "ai_chain h3 (ai_next r) bs"
      using chain_node(5) disj by (elim ai_chain_frame) (auto simp: h1(3) h2(3) h3(3) restrict_map_def)
    moreover have "length bs < length as" using chain_node(2) by simp
    ultimately obtain h' where "sdk_freeaddrinfo (ai_next r) h3 = Return () h'" "heap_inv h'"
      "cells h' = cells h3 |` (- set bs)" using less.hyps h3(2) disj(6) by blast
    then show ?thesis
      using chain_node(1,2,3) h1 h2 h3 by (auto simp: cells_def [symmetric] restrict_map_def fun_eq_iff)
  qed
qed

section \<open>What \<open>sdk_getaddrinfo\<close> computes\<close>

lemma htons_htons: "htons (htons w) = w"
  by (rule bit_word_eqI) (auto simp: htons_def bit_simps)

definition tcp_address :: "int \<Rightarrow> byte list \<Rightarrow> sockaddr_in" where
  "tcp_address n ip = \<lparr>sin_family = AF_INET, sin_port = htons (word_of_int n), sin_addr = ip\<rparr>"

definition tcp_result :: "nat \<Rightarrow> addrinfo" where
  "tcp_result a = \<lparr>ai_flags = 0, ai_family = AF_INET, ai_socktype = SOCK_STREAM, ai_protocol = IPPROTO_TCP,
     ai_addrlen = 16, ai_addr = Some a, ai_canonname = None, ai_next = None\<rparr>"

lemma getaddrinfo_no_memory:
  assumes "heap_inv h" "room h < 48"
  shows "\<exists>h'. sdk_getaddrinfo hn sv h = Return (EAI_MEMORY, None) h' \<and> heap_inv h' \<and> cells h' = cells h \<and>
    room h' = room h"
proof (cases "room h < 32")
  case True
  then have "malloc (Addrinfo blank_addrinfo) h = (None, h)" by (intro heap.alloc_fail) simp
  then show ?thesis using assms(1) by (simp add: sdk_getaddrinfo_def)
next
  case False
  let ?v = "Addrinfo blank_addrinfo"
  from heap.alloc_one_free_one [OF assms(1), of ?v] False obtain a h1 h2 where
    h: "malloc ?v h = (Some a, h1)" "room h1 = room h - 32" "free a h1 = Some h2" "heap_inv h2"
    "cells h2 = cells h" "room h2 = room h" by auto
  then have "malloc (Sockaddr w) h1 = (None, h1)" for w
    using assms(2) False by (intro heap.alloc_fail) simp
  with h show ?thesis by (simp add: sdk_getaddrinfo_def)
qed

lemma getaddrinfo_memory:
  assumes "heap_inv h" "48 \<le> room h" "atoi sv = Some n"
  shows "inet_pton hn = None \<Longrightarrow> \<exists>h'. sdk_getaddrinfo (Some hn) (Some sv) h = Return (EAI_FAIL, None) h' \<and>
      heap_inv h' \<and> cells h' = cells h \<and> room h' = room h"
    and "inet_pton hn = Some ip \<Longrightarrow> \<exists>r a h'. sdk_getaddrinfo (Some hn) (Some sv) h = Return (0, Some r) h' \<and>
      heap_inv h' \<and> r \<noteq> a \<and> cells h r = None \<and> cells h a = None \<and>
      cells h' = (cells h)(r \<mapsto> Addrinfo (tcp_result a), a \<mapsto> Sockaddr (tcp_address n ip)) \<and> room h' = room h - 48"
proof -
  let ?v = "Addrinfo blank_addrinfo" and ?w = "Sockaddr \<lparr>sin_family = AF_INET, sin_port = 0, sin_addr = [0, 0, 0, 0]\<rparr>"
  have "obj_size ?v + obj_size ?w \<le> room h" using assms(2) by simp
  from heap.alloc_two_free_two [OF assms(1) this] obtain r a h1 h2 h3 h4 where
    h: "malloc ?v h = (Some r, h1)" "malloc ?w h1 = (Some a, h2)" "r \<noteq> a" "heap_inv h2"
    "cells h r = None" "cells h a = None" "cells h2 = (cells h)(r \<mapsto> ?v, a \<mapsto> ?w)" "room h2 = room h - 48"
    "free r h2 = Some h3" "free a h3 = Some h4" "heap_inv h4" "cells h4 = cells h" "room h4 = room h"
    by auto
  show "inet_pton hn = None \<Longrightarrow> \<exists>h'. sdk_getaddrinfo (Some hn) (Some sv) h = Return (EAI_FAIL, None) h' \<and>
      heap_inv h' \<and> cells h' = cells h \<and> room h' = room h"
    using h assms(3) by (simp add: sdk_getaddrinfo_def)
  assume ip: "inet_pton hn = Some ip"
  obtain h5 where h5: "store a (Sockaddr (tcp_address n ip)) h2 = Some h5" "heap_inv h5"
    "cells h5 = (cells h2)(a \<mapsto> Sockaddr (tcp_address n ip))" "room h5 = room h2"
    using store_ok [OF h(4), of a] h(7) by auto
  obtain h6 where h6: "store r (Addrinfo (tcp_result a)) h5 = Some h6" "heap_inv h6"
    "cells h6 = (cells h5)(r \<mapsto> Addrinfo (tcp_result a))" "room h6 = room h5"
    using store_ok [OF h5(2), of r] h(3,7) h5(3) by auto
  have "sdk_getaddrinfo (Some hn) (Some sv) h = Return (0, Some r) h6"
    using h h5(1) h6(1) ip assms(3)
    by (simp add: sdk_getaddrinfo_def tcp_address_def tcp_result_def blank_addrinfo_def)
  moreover have "cells h6 = (cells h)(r \<mapsto> Addrinfo (tcp_result a), a \<mapsto> Sockaddr (tcp_address n ip))"
    using h(3,7) h5(3) h6(3) by (auto simp: fun_eq_iff)
  ultimately show "\<exists>r a h'. sdk_getaddrinfo (Some hn) (Some sv) h = Return (0, Some r) h' \<and>
      heap_inv h' \<and> r \<noteq> a \<and> cells h r = None \<and> cells h a = None \<and>
      cells h' = (cells h)(r \<mapsto> Addrinfo (tcp_result a), a \<mapsto> Sockaddr (tcp_address n ip)) \<and> room h' = room h - 48"
    using h(3,5,6,8) h5(4) h6(2,4) by auto
qed

section \<open>Properties\<close>

definition demo_heap :: heap where
  "demo_heap = \<lparr>objs = [(1, Chars ''x'')], brk = 2, room = 100\<rparr>"

lemma demo_heap_inv: "heap_inv demo_heap"
  by (simp add: demo_heap_def heap_inv_def)

text \<open>
  C29. \<open>sdk_getaddrinfo\<close> on every branch, for a host name and a service that \<open>atoi\<close> can read. Without 48
  bytes it fails with \<open>EAI_MEMORY\<close>, for a host that is not a dotted quad with \<open>EAI_FAIL\<close>, and in both
  cases the heap is as before: nothing leaks. Otherwise it returns 0 and one TCP result, whose address
  holds the four bytes of the host and the service's number (modulo \<open>2\<^sup>1\<^sup>6\<close>) in network order.
\<close>

theorem getaddrinfo_outcome:
  assumes "heap_inv h" "atoi sv = Some n"
  shows "\<exists>rc res h'. sdk_getaddrinfo (Some hn) (Some sv) h = Return (rc, res) h' \<and> heap_inv h' \<and>
    (if room h < 48 then rc = EAI_MEMORY \<and> res = None \<and> cells h' = cells h \<and> room h' = room h
     else case inet_pton hn of
       None \<Rightarrow> rc = EAI_FAIL \<and> res = None \<and> cells h' = cells h \<and> room h' = room h
     | Some ip \<Rightarrow> rc = 0 \<and> (\<exists>r a. res = Some r \<and> r \<noteq> a \<and> cells h r = None \<and> cells h a = None \<and>
         cells h' = (cells h)(r \<mapsto> Addrinfo (tcp_result a), a \<mapsto> Sockaddr (tcp_address n ip)) \<and>
         htons (sin_port (tcp_address n ip)) = word_of_int n))"
proof (cases "room h < 48")
  case True
  then show ?thesis using getaddrinfo_no_memory [OF assms(1), of "Some hn" "Some sv"] by auto
next
  case False
  then have "48 \<le> room h" by simp
  note mem = getaddrinfo_memory [OF assms(1) this assms(2), where hn = hn]
  show ?thesis
  proof (cases "inet_pton hn")
    case None
    then show ?thesis using mem(1) False by auto
  next
    case (Some ip)
    then show ?thesis using mem(2) [OF Some] False by (auto simp: tcp_address_def htons_htons)
  qed
qed

theorem getaddrinfo_outcome_witness:
  "\<exists>r a h'. sdk_getaddrinfo (Some ''127.0.0.1'') (Some ''5432'') demo_heap = Return (0, Some r) h' \<and>
    cells h' a = Some (Sockaddr (tcp_address 5432 [127, 0, 0, 1])) \<and> sin_port (tcp_address 5432 [127, 0, 0, 1]) = 14357"
proof -
  have v: "atoi ''5432'' = Some 5432" "inet_pton ''127.0.0.1'' = Some [127, 0, 0, 1]" "room demo_heap = 100"
    "sin_port (tcp_address 5432 [127, 0, 0, 1]) = 14357" by code_simp+
  obtain r a h' where "sdk_getaddrinfo (Some ''127.0.0.1'') (Some ''5432'') demo_heap = Return (0, Some r) h'"
    "cells h' = (cells demo_heap)(r \<mapsto> Addrinfo (tcp_result a), a \<mapsto> Sockaddr (tcp_address 5432 [127, 0, 0, 1]))"
    using getaddrinfo_outcome [OF demo_heap_inv v(1), of "''127.0.0.1''"] v(2,3) by auto
  then show ?thesis
    using v(4) by (intro exI [of _ r] exI [of _ a] exI [of _ h']) simp
qed

text \<open>
  C30. \<open>sdk_freeaddrinfo\<close> terminates on every heap and, for a null-terminated list whose blocks are
  distinct, releases exactly the blocks of the list: the addresses, the canonical names and the nodes,
  each once, and nothing else.
\<close>

theorem freeaddrinfo_releases_list:
  assumes "ai_chain h p as" "heap_inv h" "distinct as"
  shows "\<exists>h'. sdk_freeaddrinfo p h = Return () h' \<and> heap_inv h' \<and> cells h' = cells h |` (- set as)"
  using freeaddrinfo_chain [OF assms] .

theorem freeaddrinfo_releases_list_witness:
  "\<exists>h'. sdk_freeaddrinfo (Some 4)
     \<lparr>objs = [(4, Addrinfo (tcp_result 3\<lparr>ai_canonname := Some 2, ai_next := Some 6\<rparr>)), (6, Addrinfo (tcp_result 5)),
              (5, Chars ''b''), (3, Chars ''a''), (2, Chars ''pg''), (1, Chars ''x'')], brk = 9, room = 0\<rparr> = Return () h' \<and>
     cells h' = [1 \<mapsto> Chars ''x'']"
proof -
  let ?r = "tcp_result 3\<lparr>ai_canonname := Some 2, ai_next := Some 6\<rparr>"
  let ?h = "\<lparr>objs = [(4, Addrinfo ?r), (6, Addrinfo (tcp_result 5)),
              (5, Chars ''b''), (3, Chars ''a''), (2, Chars ''pg''), (1, Chars ''x'')], brk = 9, room = 0\<rparr>"
  have "ai_chain ?h (Some 6) (opt_list (ai_addr (tcp_result 5)) @ opt_list (ai_canonname (tcp_result 5)) @ 6 # [])"
    by (rule chain_node) (auto simp: cells_def tcp_result_def opt_list_def intro: chain_end)
  then have "ai_chain ?h (Some 4) (opt_list (ai_addr ?r) @ opt_list (ai_canonname ?r) @ 4 # [5, 6])"
    by (intro chain_node) (auto simp: cells_def tcp_result_def opt_list_def)
  then have "ai_chain ?h (Some 4) [3, 2, 4, 5, 6]" by (simp add: tcp_result_def opt_list_def)
  moreover have "heap_inv ?h" by (auto simp: heap_inv_def split: if_splits)
  ultimately show ?thesis
    using freeaddrinfo_releases_list [of ?h "Some 4" "[3, 2, 4, 5, 6]"]
    by (auto simp: cells_def restrict_map_def fun_eq_iff)
qed

text \<open>
  C31. No leak across the pair: when \<open>sdk_getaddrinfo\<close> succeeds, \<open>sdk_freeaddrinfo\<close> of its result is
  defined and leaves the allocated blocks as they were before.
\<close>

theorem getaddrinfo_freeaddrinfo:
  assumes "heap_inv h" "atoi sv = Some n" "48 \<le> room h" "inet_pton hn = Some ip"
  shows "\<exists>r h1 h2. sdk_getaddrinfo (Some hn) (Some sv) h = Return (0, Some r) h1 \<and>
    sdk_freeaddrinfo (Some r) h1 = Return () h2 \<and> heap_inv h2 \<and> cells h2 = cells h"
proof -
  from getaddrinfo_memory(2) [OF assms(1,3,2,4)] obtain r a h1 where
    h1: "sdk_getaddrinfo (Some hn) (Some sv) h = Return (0, Some r) h1" "heap_inv h1" "r \<noteq> a"
    "cells h r = None" "cells h a = None"
    "cells h1 = (cells h)(r \<mapsto> Addrinfo (tcp_result a), a \<mapsto> Sockaddr (tcp_address n ip))" by blast
  have "ai_chain h1 (Some r) (opt_list (ai_addr (tcp_result a)) @ opt_list (ai_canonname (tcp_result a)) @ r # [])"
    by (rule chain_node) (auto simp: h1(3,6) tcp_result_def opt_list_def intro: chain_end)
  then have "ai_chain h1 (Some r) [a, r]" by (simp add: tcp_result_def opt_list_def)
  from freeaddrinfo_chain [OF this h1(2)] h1(3) obtain h2 where
    "sdk_freeaddrinfo (Some r) h1 = Return () h2" "heap_inv h2" "cells h2 = cells h1 |` (- {a, r})" by auto
  then show ?thesis using h1 by (auto simp: restrict_map_def fun_eq_iff)
qed

theorem getaddrinfo_freeaddrinfo_witness:
  "\<exists>r h1 h2. sdk_getaddrinfo (Some ''10.0.0.2'') (Some ''80'') demo_heap = Return (0, Some r) h1 \<and>
    sdk_freeaddrinfo (Some r) h1 = Return () h2 \<and> cells h2 = [1 \<mapsto> Chars ''x'']"
proof -
  have "atoi ''80'' = Some 80" "inet_pton ''10.0.0.2'' = Some [10, 0, 0, 2]" "48 \<le> room demo_heap" by code_simp+
  then show ?thesis
    using getaddrinfo_freeaddrinfo [OF demo_heap_inv, of "''80''" 80 "''10.0.0.2''" "[10, 0, 0, 2]"]
    by (auto simp: cells_def demo_heap_def)
qed

end
