(* ===== verification/Process.thy ===== *)
theory Process
  imports C_Prelude
begin

text \<open>
  Processes as \<open>patch.h\<close>, \<open>sdk_port.h\<close>, \<open>sdk_port-wasi.c\<close>, \<open>sys/wait.h\<close>, \<open>pwd.h\<close>, \<open>cxa.c\<close> and \<open>wasi-setjmp.h\<close> present
  them: the process ids read from the environment, the decoding of a wait status, and the calls that
  have one fixed answer because a WASI instance is a single process. \<open>getenv\<close> is a parameter: the
  environment, from which a variable may be missing. \<open>strlen (NULL)\<close> is undefined, the value \<open>None\<close>.
\<close>

type_synonym environment = "string \<Rightarrow> string option"

section \<open>Process ids\<close>

text \<open>The length of the value is taken before the test for null.\<close>

definition sdk_getpid :: "environment \<Rightarrow> int option" where
  "sdk_getpid env =
     (case env ''WASIX_PID'' of
        None \<Rightarrow> None
      | Some v \<Rightarrow> Some (if v \<noteq> [] then strtol v else 42))"

text \<open>\<open>_WASIX_PPID\<close>, if the build defines it, is the first argument.\<close>

definition sdk_getppid :: "int option \<Rightarrow> environment \<Rightarrow> int option" where
  "sdk_getppid wasix_ppid env =
     (case env ''WASIX_PPID'' of
        None \<Rightarrow> None
      | Some v \<Rightarrow> Some (if v \<noteq> [] then strtol v else case wasix_ppid of Some p \<Rightarrow> p | None \<Rightarrow> 1))"

section \<open>Calls with a fixed answer\<close>

definition getuid :: nat where "getuid = 1000"
definition geteuid :: nat where "geteuid = 1000"
definition getegid :: nat where "getegid = 99"
definition umask :: "nat \<Rightarrow> nat" where "umask m = 18"
definition sdk_chmod :: "string \<Rightarrow> int \<Rightarrow> int" where "sdk_chmod path mode = 0"
definition sdk_getpwuid_r :: "nat \<Rightarrow> errno_t" where "sdk_getpwuid_r uid = ENOENT"
record passwd =
  pw_name :: string
  pw_passwd :: string
  pw_uid :: nat
  pw_gid :: nat
  pw_gecos :: string
  pw_dir :: string
  pw_shell :: string

definition getpwnam :: "string \<Rightarrow> passwd option" where "getpwnam name = None"
definition getpwuid :: "nat \<Rightarrow> passwd option" where "getpwuid uid = None"
definition sdk_kill :: "int \<Rightarrow> int \<Rightarrow> int" where "sdk_kill pid sig = 0"
definition popen :: "string \<Rightarrow> string \<Rightarrow> nat option" where "popen command type = None"
definition pclose :: "nat option \<Rightarrow> int" where "pclose stream = 0"
definition system_wasi :: "string \<Rightarrow> int" where "system_wasi command = - 1"
definition fork :: int where "fork = - 1"
definition waitpid :: "int \<Rightarrow> int \<Rightarrow> int" where "waitpid pid options = - 1"
definition dup :: "int \<Rightarrow> int" where "dup fd = fd"
definition dup2 :: "int \<Rightarrow> int \<Rightarrow> int" where "dup2 old new = - 1"
definition pipe :: "'s \<Rightarrow> (int, 's) cres" where "pipe s = Aborted s"

record rlimit =
  rlim_cur :: "32 word"
  rlim_max :: "32 word"

text \<open>The value of \<open>getrlimit\<close> includes the structure, which it leaves as it is.\<close>

definition getrlimit :: "int \<Rightarrow> rlimit \<Rightarrow> int \<times> rlimit" where "getrlimit resource rlim = (- 1, rlim)"

definition sdk_getrusage :: "int \<Rightarrow> int" where "sdk_getrusage who = - 1"
definition lockf :: "int \<Rightarrow> int \<Rightarrow> int \<Rightarrow> int" where "lockf fd cmd len = 0"
definition semget :: "int \<Rightarrow> int \<Rightarrow> int \<Rightarrow> int" where "semget k nsems semflg = 1"
definition semctl :: "int \<Rightarrow> int \<Rightarrow> int \<Rightarrow> int" where "semctl semid semnum cmd = 0"

record sembuf =
  sem_num :: "16 word"
  sem_op :: int
  sem_flg :: int

definition semop :: "int \<Rightarrow> sembuf list \<Rightarrow> int" where "semop semid sops = 0"

text \<open>\<open>tzset\<close> only prints. The C++ runtime's exceptions: no object is allocated, and throwing returns.\<close>

definition tzset :: "'s \<Rightarrow> 's" where "tzset s = s"
definition cxa_allocate_exception :: "nat \<Rightarrow> nat option" where "cxa_allocate_exception thrown_size = None"
definition cxa_throw :: "nat option \<Rightarrow> 's \<Rightarrow> 's" where "cxa_throw thrown_exception s = s"


section \<open>Non-local exits\<close>

text \<open>
  \<open>sigsetjmp\<close> answers 0 and \<open>siglongjmp\<close> returns to its caller, like \<open>setjmp\<close> and \<open>longjmp\<close> of
  \<open>wasi-setjmp.h\<close>. \<open>guarded\<close> is the pattern around them: run the body when \<open>sigsetjmp\<close> returns 0 and
  the handler otherwise.
\<close>

definition sdk_sigsetjmp :: "int \<Rightarrow> int" where "sdk_sigsetjmp savesigs = 0"
definition sdk_siglongjmp :: "int \<Rightarrow> 's \<Rightarrow> 's" where "sdk_siglongjmp val s = s"
definition setjmp :: int where "setjmp = 0"
definition longjmp :: "int \<Rightarrow> 's \<Rightarrow> 's" where "longjmp val s = s"

definition guarded :: "('s \<Rightarrow> 's) \<Rightarrow> ('s \<Rightarrow> 's) \<Rightarrow> 's \<Rightarrow> 's" where
  "guarded body handler s = (if sdk_sigsetjmp 1 = 0 then body s else handler s)"

text \<open>Whatever the body raises, the handler is not run and the body goes on.\<close>

lemma guarded_never_handles:
  "guarded (\<lambda>s. rest (sdk_siglongjmp val (before s))) handler s = rest (before s)"
  by (simp add: guarded_def sdk_sigsetjmp_def sdk_siglongjmp_def)

section \<open>The wait status\<close>

definition WEXITSTATUS :: "int \<Rightarrow> int" where
  "WEXITSTATUS s = (s mod 65536) div 256"

definition WTERMSIG :: "int \<Rightarrow> int" where
  "WTERMSIG s = s mod 128"

definition WSTOPSIG :: "int \<Rightarrow> int" where
  "WSTOPSIG s = WEXITSTATUS s"

definition WIFEXITED :: "int \<Rightarrow> bool" where
  "WIFEXITED s \<longleftrightarrow> WTERMSIG s = 0"

text \<open>\<open>(short)\<close>, and the test; the product is computed in \<open>int\<close>; its overflow is undefined.\<close>

definition c_short :: "int \<Rightarrow> int" where
  "c_short k = (k + 32768) mod 65536 - 32768"

definition WIFSTOPPED :: "int \<Rightarrow> bool option" where
  "WIFSTOPPED s =
     (let p = (s mod 65536) * 65537
      in if p < 2147483648 then Some (c_short (p div 256) > 32512) else None)"

text \<open>The difference is computed in \<open>unsigned int\<close>.\<close>

definition WIFSIGNALED :: "int \<Rightarrow> bool" where
  "WIFSIGNALED s \<longleftrightarrow> (s mod 65536 - 1) mod 2 ^ 32 < 255"

text \<open>The encoding of the three kinds of status.\<close>

datatype wait_status = Exited int | Signaled int bool | Stopped int

fun encode_status :: "wait_status \<Rightarrow> int" where
  "encode_status (Exited c) = c * 256"
| "encode_status (Signaled sig core) = sig + (if core then 128 else 0)"
| "encode_status (Stopped sig) = sig * 256 + 127"

fun status_ok :: "wait_status \<Rightarrow> bool" where
  "status_ok (Exited c) \<longleftrightarrow> 0 \<le> c \<and> c < 256"
| "status_ok (Signaled sig core) \<longleftrightarrow> 0 < sig \<and> sig < 128"
| "status_ok (Stopped sig) \<longleftrightarrow> 0 < sig \<and> sig < 256"

lemma stopped_test:
  assumes "0 \<le> hi" "hi < 128" "0 \<le> lo" "lo < 256"
  shows "WIFSTOPPED (hi * 256 + lo) = Some (lo = 127 \<and> 0 < hi)"
proof -
  have m: "(hi * 256 + lo) mod 65536 = hi * 256 + lo" using assms by simp
  have "(hi * 256 + lo) * 65537 = 256 * (hi * 65537 + lo * 256) + lo" by simp
  then have d: "((hi * 256 + lo) * 65537) div 256 = hi * 65537 + lo * 256"
    using assms(3,4) by simp
  have "hi * 65537 + lo * 256 + 32768 = (lo * 256 + hi + 32768) + hi * 65536" by simp
  then have "c_short (hi * 65537 + lo * 256) = (lo * 256 + hi + 32768) mod 65536 - 32768"
    unfolding c_short_def by (simp only: mod_mult_self1)
  moreover have "(lo * 256 + hi + 32768) mod 65536 = (if lo < 128 then lo * 256 + hi + 32768 else lo * 256 + hi - 32768)"
  proof (cases "lo < 128")
    case True
    then show ?thesis using assms by simp
  next
    case False
    then have "(lo * 256 + hi - 32768) + 65536 = lo * 256 + hi + 32768" "0 \<le> lo * 256 + hi - 32768"
      "lo * 256 + hi - 32768 < 65536" using assms by simp_all
    then show ?thesis using False by (metis mod_add_self2 mod_pos_pos_trivial)
  qed
  moreover have "(hi * 256 + lo) * 65537 < 2147483648" using assms by simp
  then have "WIFSTOPPED (hi * 256 + lo) = Some (c_short (hi * 65537 + lo * 256) > 32512)"
    unfolding WIFSTOPPED_def Let_def m d by (simp only: if_True)
  ultimately show ?thesis using assms by auto
qed

lemma stopped_test_undefined: "128 \<le> hi \<Longrightarrow> hi < 256 \<Longrightarrow> 0 \<le> lo \<Longrightarrow> lo < 256 \<Longrightarrow> WIFSTOPPED (hi * 256 + lo) = None"
  by (simp add: WIFSTOPPED_def Let_def)

lemma status_mods:
  assumes "0 \<le> hi" "hi < 256" "0 \<le> lo" "lo < 256"
  shows "WEXITSTATUS (hi * 256 + lo) = hi" "WTERMSIG (hi * 256 + lo) = lo mod 128"
    and "WIFSIGNALED (hi * 256 + lo) \<longleftrightarrow> hi = 0 \<and> 0 < lo"
proof -
  have m: "(hi * 256 + lo) mod 65536 = hi * 256 + lo" using assms by simp
  then show "WEXITSTATUS (hi * 256 + lo) = hi" using assms by (simp add: WEXITSTATUS_def)
  have "hi * 256 + lo = lo + (hi * 2) * 128" by simp
  then show "WTERMSIG (hi * 256 + lo) = lo mod 128"
    unfolding WTERMSIG_def by (simp only: mod_mult_self1)
  show "WIFSIGNALED (hi * 256 + lo) \<longleftrightarrow> hi = 0 \<and> 0 < lo"
  proof (cases "hi = 0 \<and> lo = 0")
    case True
    then show ?thesis by (simp add: WIFSIGNALED_def)
  next
    case False
    then have "(hi * 256 + lo - 1) mod 2 ^ 32 = hi * 256 + lo - 1" using assms by (intro mod_pos_pos_trivial) auto
    then show ?thesis using assms False by (auto simp: WIFSIGNALED_def m)
  qed
qed

section \<open>Properties\<close>

text \<open>
  C36. The process ids: a number written in decimal to \<open>WASIX_PID\<close> or \<open>WASIX_PPID\<close> is the id; an empty
  value selects the default, 42 and 1; but without the variable both functions are undefined,
  because they take the length of the null value before they test it.
\<close>

theorem process_ids:
  assumes "- 2147483648 \<le> k" "k < 2147483648"
  shows "(env ''WASIX_PID'' = Some (show_int k) \<longrightarrow> sdk_getpid env = Some k) \<and>
    (env ''WASIX_PPID'' = Some (show_int k) \<longrightarrow> sdk_getppid p env = Some k) \<and>
    (env ''WASIX_PID'' = Some [] \<longrightarrow> sdk_getpid env = Some 42) \<and>
    (env ''WASIX_PPID'' = Some [] \<longrightarrow> sdk_getppid None env = Some 1 \<and> sdk_getppid (Some k) env = Some k) \<and>
    (env ''WASIX_PID'' = None \<longrightarrow> sdk_getpid env = None) \<and>
    (env ''WASIX_PPID'' = None \<longrightarrow> sdk_getppid p env = None)"
proof -
  have "show_int k \<noteq> []" by (simp add: show_int_def digits_of_nonempty)
  then show ?thesis using strtol_show_int [OF assms] by (simp add: sdk_getpid_def sdk_getppid_def)
qed

theorem process_ids_witness:
  "sdk_getpid [''WASIX_PID'' \<mapsto> show_int 1234] = Some 1234 \<and> sdk_getpid Map.empty = None"
  using process_ids [of 1234 "[''WASIX_PID'' \<mapsto> show_int 1234]"] process_ids [of 0 Map.empty] by simp

text \<open>
  C37. The macros of \<open>sys/wait.h\<close> decode a status. For an exit code or a stopping signal below 128, and
  for every terminating signal, exactly one of the three tests holds and the matching field is the
  encoded number. For exit codes and stopping signals from 128 on, \<open>WIFSTOPPED\<close> overflows \<open>int\<close>,
  which is undefined; the other macros still decode the status.
\<close>

theorem wait_status_decoded:
  assumes "status_ok st"
  shows "case st of
      Exited c \<Rightarrow> WIFEXITED (encode_status st) \<and> WEXITSTATUS (encode_status st) = c \<and>
        \<not> WIFSIGNALED (encode_status st) \<and> WIFSTOPPED (encode_status st) = (if c < 128 then Some False else None)
    | Signaled sig core \<Rightarrow> \<not> WIFEXITED (encode_status st) \<and> WIFSIGNALED (encode_status st) \<and>
        WTERMSIG (encode_status st) = sig \<and> WIFSTOPPED (encode_status st) = Some False
    | Stopped sig \<Rightarrow> \<not> WIFEXITED (encode_status st) \<and> \<not> WIFSIGNALED (encode_status st) \<and>
        WSTOPSIG (encode_status st) = sig \<and> WIFSTOPPED (encode_status st) = (if sig < 128 then Some True else None)"
proof (cases st)
  case (Exited c)
  then show ?thesis
    using assms status_mods [of c 0] stopped_test [of c 0] stopped_test_undefined [of c 0]
    by (auto simp: WIFEXITED_def)
next
  case (Signaled sig core)
  then have "(sig + (if core then 128 else 0)) mod 128 = sig" "0 < sig" "sig < 128" using assms by auto
  moreover have "WIFSTOPPED (0 * 256 + (sig + (if core then 128 else 0))) = Some False"
    using calculation by (subst stopped_test) auto
  ultimately show ?thesis
    using Signaled status_mods [of 0 "sig + (if core then 128 else 0)"] by (auto simp: WIFEXITED_def)
next
  case (Stopped sig)
  then show ?thesis
    using assms status_mods [of sig 127] stopped_test [of sig 127] stopped_test_undefined [of sig 127]
    by (auto simp: WIFEXITED_def WSTOPSIG_def)
qed

theorem wait_status_decoded_witness:
  "WIFEXITED 768 \<and> WEXITSTATUS 768 = 3 \<and> \<not> WIFSIGNALED 768 \<and> WIFSTOPPED 768 = Some False \<and>
   WIFSTOPPED 32768 = None"
  using wait_status_decoded [of "Exited 3"] wait_status_decoded [of "Exited 128"] by simp

end
