(* ===== verification/C_Types.thy ===== *)
theory C_Types
  imports C_Prelude "HOL-Library.AList"
begin

text \<open>
  The types of C as the headers under \<open>sdk/\<close> write them, and their layout in memory. A type is kept as it
  is spelled (specifier tokens, declarators, array bounds with \<open>sizeof\<close>), with macros expanded when the
  layout is computed, as the preprocessor would have done. The target is a parameter, because the headers
  test \<open>sizeof(long)==8\<close>: \<open>wasm32\<close> is the one the port is built for.

  Qualifiers after a \<open>*\<close> and \<open>__restrict\<close> have no influence on layout and are not written.
\<close>

section \<open>Macros\<close>

text \<open>
  The integer expressions that appear in macro bodies and in \<open>#if\<close>. \<open>ULit\<close> is a literal with the suffix
  \<open>U\<close>; \<open>MCast\<close> is a cast to the type with the given tokens.
\<close>

datatype binop = Plus_op | Minus_op | Times_op | Div_op | Shl_op | Or_op | And_op
  | Eq_op | Ne_op | Lt_op | Gt_op | Ge_op

datatype mexpr = Lit int | ULit int | Ident string | MBin binop mexpr mexpr | MNeg mexpr
  | MCast "string list" mexpr

text \<open>A macro stands for a list of tokens, for an expression, or (\<open>Fn\<close>) takes arguments.\<close>

datatype mbody = Toks "string list" | Val mexpr | Fn mexpr

type_synonym macros = "(string \<times> mbody) list"

text \<open>
  Values are those of \<open>int\<close> and \<open>unsigned int\<close>, 32 bits on all targets here; signed overflow has no value.
\<close>

type_synonym cval = "bool \<times> int"

definition cval :: "bool \<Rightarrow> int \<Rightarrow> cval option" where
  "cval u i = (if u then Some (True, i mod 4294967296)
     else if - 2147483648 \<le> i \<and> i < 2147483648 then Some (False, i) else None)"

fun int_op :: "binop \<Rightarrow> int \<Rightarrow> int \<Rightarrow> int option" where
  "int_op Plus_op a b = Some (a + b)"
| "int_op Minus_op a b = Some (a - b)"
| "int_op Times_op a b = Some (a * b)"
| "int_op Div_op a b = (if b = 0 then None else Some (sgn a * sgn b * (\<bar>a\<bar> div \<bar>b\<bar>)))"
| "int_op Shl_op a b = (if 0 \<le> a \<and> 0 \<le> b \<and> b < 32 then Some (a * 2 ^ nat b) else None)"
| "int_op Or_op a b = Some (or a b)"
| "int_op And_op a b = Some (and a b)"
| "int_op Eq_op a b = Some (of_bool (a = b))"
| "int_op Ne_op a b = Some (of_bool (a \<noteq> b))"
| "int_op Lt_op a b = Some (of_bool (a < b))"
| "int_op Gt_op a b = Some (of_bool (a > b))"
| "int_op Ge_op a b = Some (of_bool (a \<ge> b))"

definition compares :: "binop \<Rightarrow> bool" where
  "compares b \<longleftrightarrow> b \<in> {Eq_op, Ne_op, Lt_op, Gt_op, Ge_op}"

text \<open>
  The usual arithmetic conversions: the operation is unsigned when one operand is (for a shift, when the left
  one is); a comparison has type \<open>int\<close>.
\<close>

fun cbin :: "binop \<Rightarrow> cval \<Rightarrow> cval \<Rightarrow> cval option" where
  "cbin b (u, x) (v, y) =
     (let w = (if b = Shl_op then u else u \<or> v);
          conv = (\<lambda>z. if w then z mod 4294967296 else z)
      in Option.bind (if b = Shl_op then int_op b x y else int_op b (conv x) (conv y))
           (cval (w \<and> \<not> compares b)))"

lemma length_delete_less:
  "map_of ms x = Some b \<Longrightarrow> length (AList.delete x ms) < length ms"
proof (induction ms)
  case (Cons p ms)
  then show ?case
    by (cases "fst p = x") (auto simp: AList.delete_eq less_Suc_eq_le)
qed simp

text \<open>
  The value of an expression. An identifier is replaced by its macro, which is not replaced again inside its
  own body; one that is no macro has the value \<open>d\<close>, which is 0 in \<open>#if\<close> and nothing elsewhere. A macro without body
  counts as 0, which is what it is in \<open>X+0\<close>, the only way the headers compute with one.
\<close>

function mval :: "cval option \<Rightarrow> macros \<Rightarrow> mexpr \<Rightarrow> cval option" where
  "mval d ms (Lit i) = cval False i"
| "mval d ms (ULit i) = cval True i"
| "mval d ms (Ident x) = (case map_of ms x of
       None \<Rightarrow> d
     | Some b \<Rightarrow> (case b of
         Val e \<Rightarrow> mval d (AList.delete x ms) e
       | Toks ts \<Rightarrow> (case ts of [] \<Rightarrow> Some (False, 0)
           | [y] \<Rightarrow> mval d (AList.delete x ms) (Ident y) | _ \<Rightarrow> None)
       | Fn e \<Rightarrow> d))"
| "mval d ms (MBin b e f) = Option.bind (mval d ms e) (\<lambda>x. Option.bind (mval d ms f) (cbin b x))"
| "mval d ms (MNeg e) = Option.bind (mval d ms e) (\<lambda>(u, i). cval u (- i))"
| "mval d ms (MCast ts e) = Option.bind (mval d ms e)
     (\<lambda>(u, i). if ts \<noteq> [] \<and> last ts = ''*'' then cval True i else Some (u, i))"
  by pat_completeness auto
termination
  by (relation "measures [\<lambda>(d, ms, e). length ms, \<lambda>(d, ms, e). size e]")
     (auto simp: length_delete_less)

text \<open>Macro replacement in a list of tokens.\<close>

function expand :: "macros \<Rightarrow> string list \<Rightarrow> string list" where
  "expand ms [] = []"
| "expand ms (t # ts) = (case map_of ms t of
       Some b \<Rightarrow> (case b of
           Toks us \<Rightarrow> expand (AList.delete t ms) us @ expand ms ts
         | Val e \<Rightarrow> ''<expression>'' # expand ms ts
         | Fn e \<Rightarrow> t # expand ms ts)
     | None \<Rightarrow> t # expand ms ts)"
  by pat_completeness auto
termination
  by (relation "measures [\<lambda>(ms, ts). length ms, \<lambda>(ms, ts). length ts]")
     (auto simp: length_delete_less)

section \<open>Types\<close>

text \<open>
  \<open>TSpec\<close> is a list of type specifiers (a basic type, a typedef name, or \<open>struct\<close> or \<open>union\<close> with a tag);
  \<open>TAgg\<close> is a structure or union with its members, the tag empty when there is none. \<open>Aligned\<close> is a member with
  \<open>__attribute__((aligned(n)))\<close>, \<open>BitPad\<close> an unnamed bit-field.
\<close>

datatype agg = Struct | Union

datatype ctype = TSpec "string list" | TPtr ctype | TArr ctype aexpr | TAgg agg string "cfield list"
  | TFun ctype "ctype list"
and cfield = Field string ctype | Aligned mexpr string ctype | BitPad ctype aexpr
and aexpr = AVal mexpr | SizeOf ctype | ABin binop aexpr aexpr | ACond aexpr aexpr aexpr

text \<open>Size and alignment in bytes; a typedef name may stand for a type without size.\<close>

type_synonym layout = "nat \<times> nat"
type_synonym tenv = "(string \<times> layout option) list"

record target =
  long_bytes :: nat
  ptr_bytes :: nat
  va_list_layout :: layout

definition wasm32 :: target where
  "wasm32 = \<lparr>long_bytes = 4, ptr_bytes = 4, va_list_layout = (4, 4)\<rparr>"

definition qualifiers :: "string list" where
  "qualifiers = [''const'', ''volatile'', ''__restrict'', ''extern'', ''static'']"

definition spec_toks :: "macros \<Rightarrow> string list \<Rightarrow> string list" where
  "spec_toks ms ts = filter (\<lambda>t. t \<notin> set qualifiers) (expand ms ts)"

text \<open>The basic types. \<open>signed\<close>, \<open>unsigned\<close> and \<open>int\<close> do not change the layout beside another specifier.\<close>

definition base_layout :: "target \<Rightarrow> string list \<Rightarrow> layout option" where
  "base_layout tg ts =
     (case filter (\<lambda>t. t \<notin> {''signed'', ''unsigned'', ''int''}) ts of
        [] \<Rightarrow> if ts = [] then None else Some (4, 4)
      | [a] \<Rightarrow> if a = ''char'' then Some (1, 1)
               else if a = ''short'' then Some (2, 2)
               else if a = ''long'' then Some (long_bytes tg, long_bytes tg)
               else if ts \<noteq> [a] then None
               else if a = ''_Bool'' then Some (1, 1)
               else if a = ''float'' then Some (4, 4)
               else if a = ''double'' then Some (8, 8)
               else if a = ''__builtin_va_list'' then Some (va_list_layout tg)
               else None
      | [a, b] \<Rightarrow> if a = ''long'' \<and> b = ''long'' then Some (8, 8) else None
      | _ \<Rightarrow> None)"

text \<open>Tags have a name space of their own.\<close>

fun agg_key :: "agg \<Rightarrow> string \<Rightarrow> string" where
  "agg_key Struct tag = ''struct '' @ tag"
| "agg_key Union tag = ''union '' @ tag"

fun tag_key :: "string list \<Rightarrow> string option" where
  "tag_key [a, b] = (if a = ''struct'' then Some (agg_key Struct b)
     else if a = ''union'' then Some (agg_key Union b) else None)"
| "tag_key _ = None"

definition spec_layout :: "target \<Rightarrow> tenv \<Rightarrow> string list \<Rightarrow> layout option" where
  "spec_layout tg te ts =
     (case base_layout tg ts of Some l \<Rightarrow> Some l
      | None \<Rightarrow> (case tag_key ts of Some k \<Rightarrow> Option.bind (map_of te k) id
         | None \<Rightarrow> (case ts of [n] \<Rightarrow> Option.bind (map_of te n) id | _ \<Rightarrow> None)))"

text \<open>Every name in the type is known; a tag may be incomplete.\<close>

definition spec_known :: "target \<Rightarrow> tenv \<Rightarrow> string list \<Rightarrow> bool" where
  "spec_known tg te ts \<longleftrightarrow> base_layout tg ts \<noteq> None \<or> tag_key ts \<noteq> None \<or> ts = [''void''] \<or> ts = [''...'']
     \<or> (\<exists>n. ts = [n] \<and> map_of te n \<noteq> None)"

lemma spec_known_code [code]:
  "spec_known tg te ts = (base_layout tg ts \<noteq> None \<or> tag_key ts \<noteq> None \<or> ts = [''void''] \<or> ts = [''...'']
     \<or> (case ts of [n] \<Rightarrow> map_of te n \<noteq> None | _ \<Rightarrow> False))"
  by (cases ts rule: list.exhaust [case_product list.exhaust]) (auto simp: spec_known_def split: list.splits)

fun names_ok :: "target \<Rightarrow> macros \<Rightarrow> tenv \<Rightarrow> ctype \<Rightarrow> bool" where
  "names_ok tg ms te (TSpec ts) = spec_known tg te (spec_toks ms ts)"
| "names_ok tg ms te (TPtr t) = names_ok tg ms te t"
| "names_ok tg ms te (TArr t e) = names_ok tg ms te t"
| "names_ok tg ms te (TAgg k tag fs) = True"
| "names_ok tg ms te (TFun r as) = (names_ok tg ms te r \<and> (\<forall>a \<in> set as. names_ok tg ms te a))"

section \<open>Layout\<close>

definition align_up :: "nat \<Rightarrow> nat \<Rightarrow> nat" where
  "align_up p a = ((p + a - 1) div a) * a"

fun is_pow2 :: "nat \<Rightarrow> bool" where
  "is_pow2 n = (if n \<le> 1 then n = 1 else even n \<and> is_pow2 (n div 2))"

declare is_pow2.simps [simp del]

text \<open>The members with their offsets, from a list of names, sizes and alignments.\<close>

fun place :: "nat \<Rightarrow> (string \<times> layout) list \<Rightarrow> (string \<times> nat \<times> nat) list" where
  "place p [] = []"
| "place p ((n, s, a) # fs) = (n, align_up p a, s) # place (align_up p a + s) fs"

fun place_end :: "nat \<Rightarrow> (string \<times> layout) list \<Rightarrow> nat" where
  "place_end p [] = p"
| "place_end p ((n, s, a) # fs) = place_end (align_up p a + s) fs"

definition max_align :: "(string \<times> layout) list \<Rightarrow> nat" where
  "max_align fs = fold (\<lambda>(n, s, a). max a) fs 1"

definition max_size :: "(string \<times> layout) list \<Rightarrow> nat" where
  "max_size fs = fold (\<lambda>(n, s, a). max s) fs 0"

fun agg_layout :: "agg \<Rightarrow> (string \<times> layout) list \<Rightarrow> layout" where
  "agg_layout Struct fs = (align_up (place_end 0 fs) (max_align fs), max_align fs)"
| "agg_layout Union fs = (align_up (max_size fs) (max_align fs), max_align fs)"

text \<open>
  The layout of a type, of the members of a structure, and the value of an array bound. A bound has to be
  positive, an alignment a power of two, and an unnamed bit-field as wide as whole bytes.
\<close>

fun layout :: "target \<Rightarrow> macros \<Rightarrow> tenv \<Rightarrow> ctype \<Rightarrow> layout option"
and flayout :: "target \<Rightarrow> macros \<Rightarrow> tenv \<Rightarrow> cfield \<Rightarrow> (string \<times> layout) option"
and flayouts :: "target \<Rightarrow> macros \<Rightarrow> tenv \<Rightarrow> cfield list \<Rightarrow> (string \<times> layout) list option"
and aval :: "target \<Rightarrow> macros \<Rightarrow> tenv \<Rightarrow> aexpr \<Rightarrow> int option" where
  "layout tg ms te (TSpec ts) = spec_layout tg te (spec_toks ms ts)"
| "layout tg ms te (TPtr t) = (if names_ok tg ms te t then Some (ptr_bytes tg, ptr_bytes tg) else None)"
| "layout tg ms te (TArr t e) = (case layout tg ms te t of None \<Rightarrow> None
     | Some (s, a) \<Rightarrow> (case aval tg ms te e of None \<Rightarrow> None
        | Some n \<Rightarrow> if n > 0 then Some (nat n * s, a) else None))"
| "layout tg ms te (TAgg k tag fs) = map_option (agg_layout k) (flayouts tg ms te fs)"
| "layout tg ms te (TFun r as) = None"
| "flayout tg ms te (Field n t) = map_option (Pair n) (layout tg ms te t)"
| "flayout tg ms te (Aligned e n t) = (case layout tg ms te t of None \<Rightarrow> None
     | Some (s, a) \<Rightarrow> (case mval None ms e of None \<Rightarrow> None
        | Some (u, i) \<Rightarrow> if is_pow2 (nat i) then Some (n, s, max a (nat i)) else None))"
| "flayout tg ms te (BitPad t e) = (case layout tg ms te t of None \<Rightarrow> None
     | Some (s, a) \<Rightarrow> (case aval tg ms te e of None \<Rightarrow> None
        | Some w \<Rightarrow> if 0 \<le> w \<and> w \<le> 8 * int s \<and> w mod (8 * int a) = 0 then Some ([], nat w div 8, a) else None))"
| "flayouts tg ms te [] = Some []"
| "flayouts tg ms te (f # fs) = (case flayout tg ms te f of None \<Rightarrow> None
     | Some l \<Rightarrow> map_option ((#) l) (flayouts tg ms te fs))"
| "aval tg ms te (AVal e) = map_option snd (mval None ms e)"
| "aval tg ms te (SizeOf t) = map_option (\<lambda>(s, a). int s) (layout tg ms te t)"
| "aval tg ms te (ABin b e f) = Option.bind (aval tg ms te e) (\<lambda>x. Option.bind (aval tg ms te f) (int_op b x))"
| "aval tg ms te (ACond c e f) = (case aval tg ms te c of None \<Rightarrow> None
     | Some x \<Rightarrow> if x \<noteq> 0 then aval tg ms te e else aval tg ms te f)"


lemma is_pow2_power: "is_pow2 n \<Longrightarrow> \<exists>k. n = 2 ^ k"
proof (induction n rule: is_pow2.induct)
  case (1 n)
  show ?case
  proof (cases "n \<le> 1")
    case True
    then have "n = 2 ^ 0" using 1 by (simp add: is_pow2.simps [of n])
    then show ?thesis by blast
  next
    case False
    then obtain k where "n div 2 = 2 ^ k" and "even n"
      using 1 by (auto simp: is_pow2.simps [of n])
    then have "n = 2 ^ Suc k" by auto
    then show ?thesis by blast
  qed
qed

text \<open>Alignments are powers of two, so of two of them one divides the other.\<close>

definition pow2 :: "nat \<Rightarrow> bool" where
  "pow2 n \<longleftrightarrow> (\<exists>k. n = 2 ^ k)"

lemma pow2_pos: "pow2 n \<Longrightarrow> 0 < n"
  by (auto simp: pow2_def)

lemma pow2_dvd: "pow2 a \<Longrightarrow> pow2 b \<Longrightarrow> a \<le> b \<Longrightarrow> a dvd b"
  by (auto simp: pow2_def le_imp_power_dvd)

lemma pow2_max: "pow2 a \<Longrightarrow> pow2 b \<Longrightarrow> pow2 (max a b)"
  by (simp add: max_def)

lemma pow2_num [simp]: "pow2 (Suc 0)" "pow2 1" "pow2 2" "pow2 4" "pow2 8" "pow2 16"
  unfolding pow2_def by (rule exI [of _ 0], simp, rule exI [of _ 0], simp, rule exI [of _ 1], simp, rule exI [of _ 2], simp,
    rule exI [of _ 3], simp, rule exI [of _ 4], simp)

lemma align_up_ge: "0 < a \<Longrightarrow> p \<le> align_up p a"
  unfolding align_up_def using div_mult_mod_eq [of "p + a - 1" a] mod_less_divisor [of a "p + a - 1"] by linarith

lemma align_up_less: "0 < a \<Longrightarrow> align_up p a < p + a"
  unfolding align_up_def using div_mult_mod_eq [of "p + a - 1" a] by linarith

lemma align_up_dvd [simp]: "a dvd align_up p a"
  by (simp add: align_up_def)

section \<open>Every layout is well formed\<close>

fun wf_layout :: "layout \<Rightarrow> bool" where
  "wf_layout (s, a) \<longleftrightarrow> pow2 a \<and> a dvd s"

definition wf_tenv :: "tenv \<Rightarrow> bool" where
  "wf_tenv te \<longleftrightarrow> (\<forall>n l. map_of te n = Some (Some l) \<longrightarrow> wf_layout l)"

definition wf_target :: "target \<Rightarrow> bool" where
  "wf_target tg \<longleftrightarrow> pow2 (long_bytes tg) \<and> pow2 (ptr_bytes tg) \<and> wf_layout (va_list_layout tg)"

lemma wf_target_wasm32 [simp]: "wf_target wasm32"
  by (simp add: wf_target_def wasm32_def)

lemma base_layout_wf: "wf_target tg \<Longrightarrow> base_layout tg ts = Some l \<Longrightarrow> wf_layout l"
  by (auto simp: base_layout_def wf_target_def split: list.splits if_splits)

lemma spec_layout_wf:
  "wf_target tg \<Longrightarrow> wf_tenv te \<Longrightarrow> spec_layout tg te ts = Some l \<Longrightarrow> wf_layout l"
  unfolding spec_layout_def wf_tenv_def
  by (auto simp: bind_eq_Some_conv base_layout_wf simp del: wf_layout.simps split_paired_All
      split: option.splits list.splits)

lemma fold_max_ge: "(m :: nat) \<le> fold (\<lambda>x. max (f x)) xs m"
  by (induction xs arbitrary: m) (auto intro: order_trans [OF max.cobounded2])

lemma fold_max_member: "x \<in> set xs \<Longrightarrow> f x \<le> fold (\<lambda>x. max (f x)) xs (m :: nat)"
proof (induction xs arbitrary: m)
  case (Cons y ys)
  then show ?case
    using fold_max_ge [of "max (f y) m" f ys] by auto
qed simp

lemma max_align_fold: "max_align fs = fold (\<lambda>x. max (snd (snd x))) fs 1"
  by (simp add: max_align_def split_def)

lemma max_align_ge: "(n, s, a) \<in> set fs \<Longrightarrow> a \<le> max_align fs"
  using fold_max_member [of "(n, s, a)" fs "\<lambda>x. snd (snd x)" 1] by (simp add: max_align_fold)

lemma max_align_pow2:
  assumes "\<forall>(n, s, a) \<in> set fs. pow2 a"
  shows "pow2 (max_align fs)"
proof -
  have "pow2 m \<Longrightarrow> pow2 (fold (\<lambda>x. max (snd (snd x))) fs m)" for m
    using assms by (induction fs arbitrary: m) (auto simp: pow2_max)
  then show ?thesis by (simp add: max_align_fold)
qed

lemma agg_layout_wf: "\<forall>(n, s, a) \<in> set fs. pow2 a \<Longrightarrow> wf_layout (agg_layout k fs)"
  by (cases k) (simp_all add: max_align_pow2)

lemma layout_wf_joint:
  assumes "wf_target tg" "wf_tenv te"
  shows "layout tg ms te t = Some l \<Longrightarrow> wf_layout l"
    and "flayout tg ms te f = Some nl \<Longrightarrow> pow2 (snd (snd nl))"
    and "flayouts tg ms te fs = Some ls \<Longrightarrow> \<forall>(n, s, a) \<in> set ls. pow2 a"
    and "aval tg ms te e = Some i \<Longrightarrow> True"
  using assms
proof (induction tg ms te t and tg ms te f and tg ms te fs and tg ms te e
    arbitrary: l and nl and ls and i rule: layout_flayout_flayouts_aval.induct)
  case (2 tg ms te t)
  then show ?case by (auto simp: wf_target_def split: if_splits)
next
  case (7 tg ms te e n t)
  then show ?case
    using is_pow2_power by (auto intro!: pow2_max simp: pow2_def [symmetric] split: option.splits if_splits)
next
  case (4 tg ms te k tag fs)
  then show ?case by (auto simp: agg_layout_wf simp del: wf_layout.simps)
next
  case (10 tg ms te f fs)
  then show ?case by (fastforce split: option.splits)
qed (auto simp: spec_layout_wf split: option.splits if_splits)

lemma layout_wf:
  "wf_target tg \<Longrightarrow> wf_tenv te \<Longrightarrow> layout tg ms te t = Some l \<Longrightarrow> wf_layout l"
  using layout_wf_joint(1) .

lemma flayouts_pow2:
  "wf_target tg \<Longrightarrow> wf_tenv te \<Longrightarrow> flayouts tg ms te fs = Some ls \<Longrightarrow> \<forall>(n, s, a) \<in> set ls. pow2 a"
  using layout_wf_joint(3) .

section \<open>Members of a structure\<close>

lemma length_place [simp]: "length (place p fs) = length fs"
  by (induction p fs rule: place.induct) auto

lemma place_end_ge:
  "\<forall>(n, s, a) \<in> set fs. 0 < a \<Longrightarrow> p \<le> place_end p fs"
proof (induction p fs rule: place_end.induct)
  case (2 p n s a fs)
  then show ?case using align_up_ge [of a p] by fastforce
qed simp

lemma place_nth:
  "\<forall>(n, s, a) \<in> set fs. 0 < a \<Longrightarrow> i < length fs \<Longrightarrow> fs ! i = (n, s, a) \<Longrightarrow>
   \<exists>q. place p fs ! i = (n, q, s) \<and> a dvd q \<and> p \<le> q \<and> q + s \<le> place_end p fs"
proof (induction p fs arbitrary: i rule: place.induct)
  case (2 p m t b fs)
  have ge: "p \<le> align_up p b" and "align_up p b + t \<le> place_end (align_up p b + t) fs"
    using 2(2) by (auto intro!: align_up_ge place_end_ge)
  then show ?case
  proof (cases i)
    case (Suc j)
    then obtain q where "place (align_up p b + t) fs ! j = (n, q, s) \<and> a dvd q \<and> align_up p b + t \<le> q
        \<and> q + s \<le> place_end (align_up p b + t) fs"
      using 2 by fastforce
    then show ?thesis using ge Suc by auto
  qed (use 2 in auto)
qed simp

lemma place_disjoint:
  "\<forall>(n, s, a) \<in> set fs. 0 < a \<Longrightarrow> i < j \<Longrightarrow> j < length fs \<Longrightarrow>
   place p fs ! i = (n, q, s) \<Longrightarrow> place p fs ! j = (m, r, t) \<Longrightarrow> q + s \<le> r"
proof (induction p fs arbitrary: i j rule: place.induct)
  case (2 p k u b fs)
  obtain j' where j': "j = Suc j'" using 2(3) by (cases j) auto
  show ?case
  proof (cases i)
    case 0
    obtain m' t' a' where f: "fs ! j' = (m', t', a')" by (cases "fs ! j'")
    have "\<forall>(n, s, a) \<in> set fs. 0 < a" "j' < length fs" using 2(2,4) j' by auto
    from place_nth [OF this f, of "align_up p b + u"] show ?thesis
      using 2(5,6) 0 j' by auto
  next
    case (Suc i')
    then show ?thesis using 2 j' by auto
  qed
qed simp

text \<open>
  The members of a structure lie at aligned offsets, in the order of their declaration, without overlapping and
  inside of the structure; the padding at its end is shorter than its alignment.
\<close>

definition members_ok :: "layout \<Rightarrow> (string \<times> layout) list \<Rightarrow> bool" where
  "members_ok l ls \<longleftrightarrow>
     (\<forall>i < length ls. let (n, z, b) = ls ! i; (m, q, y) = place 0 ls ! i in
        m = n \<and> y = z \<and> b dvd q \<and> b dvd snd l \<and> q + z \<le> fst l \<and>
        (\<forall>j. i < j \<and> j < length ls \<longrightarrow> q + z \<le> fst (snd (place 0 ls ! j)))) \<and>
     snd l dvd fst l \<and> fst l < place_end 0 ls + snd l"

lemma struct_members:
  assumes "wf_target tg" "wf_tenv te" and ls: "flayouts tg ms te fs = Some ls"
    and l: "layout tg ms te (TAgg Struct tag fs) = Some l"
  shows "members_ok l ls"
proof -
  have p2: "\<forall>(n, s, a) \<in> set ls. pow2 a" using flayouts_pow2 [OF assms(1,2) ls] .
  then have pos: "\<forall>(n, s, a) \<in> set ls. 0 < a" using pow2_pos by fastforce
  have mp: "pow2 (max_align ls)" using max_align_pow2 [OF p2] .
  have l_eq: "l = (align_up (place_end 0 ls) (max_align ls), max_align ls)" using l ls by simp
  then have up: "place_end 0 ls \<le> fst l" "fst l < place_end 0 ls + snd l"
    using align_up_ge align_up_less pow2_pos [OF mp] by simp_all
  have "let (n, z, b) = ls ! i; (m, q, y) = place 0 ls ! i in
        m = n \<and> y = z \<and> b dvd q \<and> b dvd snd l \<and> q + z \<le> fst l \<and>
        (\<forall>j. i < j \<and> j < length ls \<longrightarrow> q + z \<le> fst (snd (place 0 ls ! j)))" if i: "i < length ls" for i
  proof -
    obtain n z b where f: "ls ! i = (n, z, b)" by (cases "ls ! i")
    from place_nth [OF pos i f] obtain q where
      q: "place 0 ls ! i = (n, q, z)" "b dvd q" "q + z \<le> place_end 0 ls" by blast
    have "(n, z, b) \<in> set ls" using i f nth_mem by metis
    then have "b dvd max_align ls" using p2 mp max_align_ge pow2_dvd by fastforce
    moreover have "q + z \<le> fst (snd (place 0 ls ! j))" if j: "i < j" "j < length ls" for j
    proof -
      obtain m r t where "place 0 ls ! j = (m, r, t)" by (cases "place 0 ls ! j")
      with place_disjoint [OF pos j q(1) this] show ?thesis by simp
    qed
    ultimately show ?thesis using f q up l_eq by auto
  qed
  moreover have "snd l dvd fst l" using l_eq by simp
  ultimately show ?thesis using up by (simp add: members_ok_def)
qed

section \<open>What a layout depends on\<close>

text \<open>
  Two macro tables that agree on the tokens of a type give it the same layout, and a larger type environment
  keeps every layout. An entry without layout is smaller than the same entry with one.
\<close>

definition agree :: "string set \<Rightarrow> macros \<Rightarrow> macros \<Rightarrow> bool" where
  "agree R ms ms' \<longleftrightarrow> (\<forall>x \<in> R. map_of ms x = map_of ms' x)"

fun idents :: "mexpr \<Rightarrow> string list" where
  "idents (Lit i) = []"
| "idents (ULit i) = []"
| "idents (Ident x) = [x]"
| "idents (MBin b e f) = idents e @ idents f"
| "idents (MNeg e) = idents e"
| "idents (MCast ts e) = idents e"

fun body_toks :: "mbody \<Rightarrow> string list" where
  "body_toks (Toks us) = us"
| "body_toks (Val e) = idents e"
| "body_toks (Fn e) = []"

definition closed :: "string set \<Rightarrow> macros \<Rightarrow> bool" where
  "closed R ms \<longleftrightarrow> (\<forall>x \<in> R. \<forall>b. map_of ms x = Some b \<longrightarrow> set (body_toks b) \<subseteq> R)"

lemma agree_delete: "agree R ms ms' \<Longrightarrow> agree R (AList.delete x ms) (AList.delete x ms')"
  by (simp add: agree_def AList.delete_conv)

lemma closed_delete: "closed R ms \<Longrightarrow> closed R (AList.delete x ms)"
  by (simp add: closed_def AList.delete_conv)

lemmas agreement = agree_delete closed_delete

lemma expand_agree:
  "agree R ms ms' \<Longrightarrow> closed R ms \<Longrightarrow> set ts \<subseteq> R \<Longrightarrow> expand ms ts = expand ms' ts"
proof (induction ms ts arbitrary: ms' rule: expand.induct)
  case (2 ms t ts)
  have t: "map_of ms' t = map_of ms t" using 2(6,8) by (simp add: agree_def)
  have tl: "expand ms ts = expand ms' ts"
  proof (cases "map_of ms t")
    case (Some b)
    then show ?thesis using 2 by (cases b) auto
  qed (use 2 in auto)
  show ?case
  proof (cases "map_of ms t")
    case (Some b)
    then have "set (body_toks b) \<subseteq> R" using 2(7,8) unfolding closed_def by (metis list.set_intros(1) subset_iff)
    then show ?thesis using Some t tl 2(2) [OF Some] 2(6,7) by (cases b) (auto simp: agreement)
  qed (simp add: t tl)
qed simp

lemma mval_agree:
  "agree R ms ms' \<Longrightarrow> closed R ms \<Longrightarrow> set (idents e) \<subseteq> R \<Longrightarrow> mval d ms e = mval d ms' e"
proof (induction d ms e arbitrary: ms' rule: mval.induct)
  case (3 d ms x)
  have x: "map_of ms' x = map_of ms x" using 3(3,5) by (simp add: agree_def)
  show ?case
  proof (cases "map_of ms x")
    case (Some b)
    then have "set (body_toks b) \<subseteq> R" using 3(4,5) by (simp add: closed_def)
    then show ?thesis
      using Some x 3(1) [OF Some] 3(2) [OF Some] 3(3,4)
      by (cases b) (auto simp: agreement split: list.splits)
  qed (simp add: x)
next
  case (4 d ms b e f)
  have "mval d ms e = mval d ms' e" "mval d ms f = mval d ms' f" if "mval d ms e \<noteq> None"
    using 4 that by auto
  moreover have "mval d ms e = mval d ms' e" using 4 by simp
  ultimately show ?case by (cases "mval d ms' e") simp_all
qed simp_all

text \<open>All tokens and identifiers of a type satisfy \<open>R\<close>.\<close>

fun toks_ok :: "(string \<Rightarrow> bool) \<Rightarrow> ctype \<Rightarrow> bool"
and ftoks_ok :: "(string \<Rightarrow> bool) \<Rightarrow> cfield \<Rightarrow> bool"
and etoks_ok :: "(string \<Rightarrow> bool) \<Rightarrow> aexpr \<Rightarrow> bool" where
  "toks_ok R (TSpec ts) \<longleftrightarrow> list_all R ts"
| "toks_ok R (TPtr t) \<longleftrightarrow> toks_ok R t"
| "toks_ok R (TArr t e) \<longleftrightarrow> toks_ok R t \<and> etoks_ok R e"
| "toks_ok R (TAgg k tag fs) \<longleftrightarrow> list_all (ftoks_ok R) fs"
| "toks_ok R (TFun r as) \<longleftrightarrow> toks_ok R r \<and> list_all (toks_ok R) as"
| "ftoks_ok R (Field n t) \<longleftrightarrow> toks_ok R t"
| "ftoks_ok R (Aligned e n t) \<longleftrightarrow> list_all R (idents e) \<and> toks_ok R t"
| "ftoks_ok R (BitPad t e) \<longleftrightarrow> toks_ok R t \<and> etoks_ok R e"
| "etoks_ok R (AVal e) \<longleftrightarrow> list_all R (idents e)"
| "etoks_ok R (SizeOf t) \<longleftrightarrow> toks_ok R t"
| "etoks_ok R (ABin b e f) \<longleftrightarrow> etoks_ok R e \<and> etoks_ok R f"
| "etoks_ok R (ACond c e f) \<longleftrightarrow> etoks_ok R c \<and> etoks_ok R e \<and> etoks_ok R f"

lemma list_all_Collect: "list_all R xs \<longleftrightarrow> set xs \<subseteq> Collect R"
  by (auto simp: list_all_iff)

lemma spec_toks_agree:
  "agree (Collect R) ms ms' \<Longrightarrow> closed (Collect R) ms \<Longrightarrow> toks_ok R (TSpec ts) \<Longrightarrow> spec_toks ms ts = spec_toks ms' ts"
  using expand_agree [of "Collect R" ms ms' ts] by (simp add: spec_toks_def list_all_Collect)

lemma names_ok_agree:
  "agree (Collect R) ms ms' \<Longrightarrow> closed (Collect R) ms \<Longrightarrow> toks_ok R t \<Longrightarrow>
   names_ok tg ms te t = names_ok tg ms' te t"
proof (induction tg ms te t rule: names_ok.induct)
  case (1 tg ms te ts)
  then show ?case using spec_toks_agree [OF 1] by simp
qed (auto simp: list_all_iff)

lemma layout_agree_joint:
  assumes "agree (Collect R) ms ms'" "closed (Collect R) ms"
  shows "toks_ok R t \<Longrightarrow> layout tg ms te t = layout tg ms' te t"
    and "ftoks_ok R f \<Longrightarrow> flayout tg ms te f = flayout tg ms' te f"
    and "list_all (ftoks_ok R) fs \<Longrightarrow> flayouts tg ms te fs = flayouts tg ms' te fs"
    and "etoks_ok R e \<Longrightarrow> aval tg ms te e = aval tg ms' te e"
  using assms
proof (induction tg ms te t and tg ms te f and tg ms te fs and tg ms te e
    rule: layout_flayout_flayouts_aval.induct)
  case (1 tg ms te ts)
  then show ?case using spec_toks_agree by simp
next
  case (2 tg ms te t)
  then show ?case using names_ok_agree by (auto cong: if_cong)
next
  case (3 tg ms te t e)
  then have "layout tg ms te t = layout tg ms' te t" by simp
  moreover have "aval tg ms te e = aval tg ms' te e" if "layout tg ms te t = Some (s, a)" for s a
    using 3 that by simp
  ultimately show ?case by (simp split: option.splits)
next
  case (7 tg ms te e n t)
  then have "layout tg ms te t = layout tg ms' te t" "mval None ms e = mval None ms' e"
    using mval_agree [of "Collect R"] by (simp_all add: list_all_Collect)
  then show ?case unfolding flayout.simps by metis
next
  case (8 tg ms te t e)
  then have "layout tg ms te t = layout tg ms' te t" by simp
  moreover have "aval tg ms te e = aval tg ms' te e" if "layout tg ms te t = Some (s, a)" for s a
    using 8 that by simp
  ultimately show ?case by (simp split: option.splits)
next
  case (10 tg ms te f fs)
  then have "flayout tg ms te f = flayout tg ms' te f" by simp
  moreover have "flayouts tg ms te fs = flayouts tg ms' te fs" if "flayout tg ms te f = Some l" for l
    using 10 that by simp
  ultimately show ?case by (simp split: option.splits)
next
  case (11 tg ms te e)
  then show ?case using mval_agree [of "Collect R"] by (simp add: list_all_Collect)
next
  case (13 tg ms te b e f)
  then have "aval tg ms te e = aval tg ms' te e" by simp
  moreover have "aval tg ms te f = aval tg ms' te f" if "aval tg ms te e = Some x" for x
    using 13 that by simp
  ultimately show ?case by (cases "aval tg ms' te e") simp_all
next
  case (14 tg ms te c e f)
  then have "aval tg ms te c = aval tg ms' te c" by simp
  moreover have "aval tg ms te e = aval tg ms' te e" if "aval tg ms te c = Some x" "x \<noteq> 0" for x
    using 14 that by simp
  moreover have "aval tg ms te f = aval tg ms' te f" if "aval tg ms te c = Some 0"
    using 14 that by simp
  ultimately show ?case by (simp split: option.splits)
qed simp_all

lemma layout_agree:
  "agree (Collect R) ms ms' \<Longrightarrow> closed (Collect R) ms \<Longrightarrow> toks_ok R t \<Longrightarrow> layout tg ms te t = layout tg ms' te t"
  using layout_agree_joint(1) .

definition tenv_le :: "tenv \<Rightarrow> tenv \<Rightarrow> bool" where
  "tenv_le te te' \<longleftrightarrow> (\<forall>n v. map_of te n = Some v \<longrightarrow> (\<exists>v'. map_of te' n = Some v' \<and> (v = None \<or> v' = v)))"

lemma tenv_leD: "tenv_le te te' \<Longrightarrow> map_of te n = Some (Some l) \<Longrightarrow> map_of te' n = Some (Some l)"
  by (auto simp: tenv_le_def)

lemma tenv_le_known: "tenv_le te te' \<Longrightarrow> map_of te n \<noteq> None \<Longrightarrow> map_of te' n \<noteq> None"
  by (auto simp: tenv_le_def)

lemma tenv_le_refl [simp]: "tenv_le te te"
  by (simp add: tenv_le_def)

lemma spec_layout_mono:
  "tenv_le te te' \<Longrightarrow> spec_layout tg te ts = Some l \<Longrightarrow> spec_layout tg te' ts = Some l"
  by (auto simp: spec_layout_def bind_eq_Some_conv dest: tenv_leD split: option.splits list.splits)

lemma names_ok_mono: "tenv_le te te' \<Longrightarrow> names_ok tg ms te t \<Longrightarrow> names_ok tg ms te' t"
proof (induction tg ms te t rule: names_ok.induct)
  case (1 tg ms te ts)
  then show ?case using tenv_le_known [OF 1(1)] by (auto simp: spec_known_def)
qed auto

lemma layout_mono_joint:
  assumes "tenv_le te te'"
  shows "layout tg ms te t = Some l \<Longrightarrow> layout tg ms te' t = Some l"
    and "flayout tg ms te f = Some nl \<Longrightarrow> flayout tg ms te' f = Some nl"
    and "flayouts tg ms te fs = Some ls \<Longrightarrow> flayouts tg ms te' fs = Some ls"
    and "aval tg ms te e = Some i \<Longrightarrow> aval tg ms te' e = Some i"
  using assms
proof (induction tg ms te t and tg ms te f and tg ms te fs and tg ms te e
    arbitrary: l and nl and ls and i rule: layout_flayout_flayouts_aval.induct)
  case (2 tg ms te t)
  then show ?case using names_ok_mono by (auto split: if_splits)
next
  case (3 tg ms te t e)
  then show ?case by (fastforce split: option.splits if_splits)
next
  case (8 tg ms te t e)
  then show ?case by (fastforce split: option.splits if_splits)
next
  case (14 tg ms te c e f)
  then show ?case by (auto split: option.splits if_splits)
qed (auto simp: spec_layout_mono bind_eq_Some_conv split: option.splits if_splits)

lemma layout_mono:
  "tenv_le te te' \<Longrightarrow> layout tg ms te t = Some l \<Longrightarrow> layout tg ms te' t = Some l"
  using layout_mono_joint(1) .

end
