(* ===== verification/Cpp.thy ===== *)
theory Cpp
  imports C_Types
begin

text \<open>
  The preprocessor and the declarations of C, as far as the headers under \<open>sdk/\<close> use them. A header is a list of
  directives; \<open>run\<close> executes one on the macros defined so far and the types declared so far. What the
  header includes is passed as the function \<open>inc\<close>; \<open>include_src\<close> closes the loop over the headers of a table, and
  leaves those that are not part of it to a parameter.

  The second half is a checker that follows a header without knowing the whole state, and the proof that a header
  it accepts is executed without error in every state that agrees with what the checker was told.
\<close>

section \<open>Directives\<close>

text \<open>\<open>CExpr\<close> is a condition of \<open>#if\<close> other than \<open>defined\<close>, \<open>!\<close>, \<open>&&\<close> and \<open>||\<close>.\<close>

datatype cond = Defined string | CNot cond | CAnd cond cond | COr cond cond | CExpr mexpr

text \<open>
  \<open>Cond c a b\<close> is \<open>#if c a #else b #endif\<close>. \<open>Declare\<close> is the declaration of a structure, \<open>FunDef\<close> a function
  defined in a header, whose body belongs to the theory of its component, \<open>Invoke\<close> the use of a macro with
  arguments as a declaration, and \<open>Text\<close> a line without influence on types and macros, such as \<open>extern "C" {\<close>.
\<close>

datatype dir = Define string mbody | Undef string | Include string | Cond cond "dir list" "dir list"
  | Err string | Typedef ctype string | Declare ctype | Extern ctype string
  | Proto ctype string "ctype list" | FunDef ctype string "ctype list" | Invoke string "string list" | Text string

record cstate =
  macros :: macros
  types :: tenv
  decls :: "string list"

datatype cerror = UnknownType string | Redefined string | ErrorDirective string | NoMacro string | TooDeep

fun holds :: "macros \<Rightarrow> cond \<Rightarrow> bool" where
  "holds ms (Defined x) \<longleftrightarrow> map_of ms x \<noteq> None"
| "holds ms (CNot c) \<longleftrightarrow> \<not> holds ms c"
| "holds ms (CAnd c d) \<longleftrightarrow> holds ms c \<and> holds ms d"
| "holds ms (COr c d) \<longleftrightarrow> holds ms c \<or> holds ms d"
| "holds ms (CExpr e) \<longleftrightarrow> (case mval (Some (False, 0)) ms e of Some (u, i) \<Rightarrow> i \<noteq> 0 | None \<Rightarrow> False)"

section \<open>Declarations\<close>

text \<open>
  A declaration that defines a tag enters it; a second definition of a tag is an error. A typedef may be repeated
  for the same type, as in C11; of a type the model knows the layout, so that a repetition with another layout, or
  of a name without layout, is an error.
\<close>

definition enter :: "string \<Rightarrow> layout option \<Rightarrow> cstate \<Rightarrow> cerror + cstate" where
  "enter n l s = (if map_of (types s) n \<noteq> None then Inl (Redefined n)
     else Inr (s\<lparr>types := (n, l) # types s, decls := decls s @ [n]\<rparr>))"

definition enter_typedef :: "string \<Rightarrow> layout option \<Rightarrow> cstate \<Rightarrow> cerror + cstate" where
  "enter_typedef n l s = (if l \<noteq> None \<and> map_of (types s) n = Some l then Inr s else enter n l s)"

fun enter_tag :: "target \<Rightarrow> ctype \<Rightarrow> cstate \<Rightarrow> cerror + cstate" where
  "enter_tag tg (TAgg k tag fs) s = (if tag = [] then Inr s
     else case layout tg (macros s) (types s) (TAgg k tag fs) of
         None \<Rightarrow> Inl (UnknownType (agg_key k tag))
       | Some l \<Rightarrow> enter (agg_key k tag) (Some l) s)"
| "enter_tag tg (TArr t e) s = enter_tag tg t s"
| "enter_tag tg _ s = Inr s"

fun type_ok :: "target \<Rightarrow> macros \<Rightarrow> tenv \<Rightarrow> ctype \<Rightarrow> bool" where
  "type_ok tg ms te (TAgg k tag fs) \<longleftrightarrow> layout tg ms te (TAgg k tag fs) \<noteq> None"
| "type_ok tg ms te (TArr t e) \<longleftrightarrow> layout tg ms te (TArr t e) \<noteq> None"
| "type_ok tg ms te t \<longleftrightarrow> names_ok tg ms te t"

definition declare_name :: "target \<Rightarrow> ctype \<Rightarrow> string \<Rightarrow> cstate \<Rightarrow> cerror + cstate" where
  "declare_name tg t n s = (if type_ok tg (macros s) (types s) t then Inr (s\<lparr>decls := decls s @ [n]\<rparr>)
     else Inl (UnknownType n))"

definition typedef_name :: "target \<Rightarrow> ctype \<Rightarrow> string \<Rightarrow> cstate \<Rightarrow> cerror + cstate" where
  "typedef_name tg t n s = (case enter_tag tg t s of Inl e \<Rightarrow> Inl e
     | Inr s1 \<Rightarrow> if type_ok tg (macros s1) (types s1) t
         then enter_typedef n (layout tg (macros s1) (types s1) t) s1 else Inl (UnknownType n))"

section \<open>Running a header\<close>

fun run :: "target \<Rightarrow> (string \<Rightarrow> cstate \<Rightarrow> cerror + cstate) \<Rightarrow> dir list \<Rightarrow> cstate \<Rightarrow> cerror + cstate"
and step :: "target \<Rightarrow> (string \<Rightarrow> cstate \<Rightarrow> cerror + cstate) \<Rightarrow> dir \<Rightarrow> cstate \<Rightarrow> cerror + cstate" where
  "run tg inc [] s = Inr s"
| "run tg inc (d # ds) s = (case step tg inc d s of Inl e \<Rightarrow> Inl e | Inr s' \<Rightarrow> run tg inc ds s')"
| "step tg inc (Define x b) s = Inr (s\<lparr>macros := (x, b) # macros s\<rparr>)"
| "step tg inc (Undef x) s = Inr (s\<lparr>macros := AList.delete x (macros s)\<rparr>)"
| "step tg inc (Include h) s = inc h s"
| "step tg inc (Cond c a b) s = (if holds (macros s) c then run tg inc a s else run tg inc b s)"
| "step tg inc (Err m) s = Inl (ErrorDirective m)"
| "step tg inc (Typedef t n) s = typedef_name tg t n s"
| "step tg inc (Declare t) s = enter_tag tg t s"
| "step tg inc (Extern t n) s = declare_name tg t n s"
| "step tg inc (Proto r n as) s = declare_name tg (TFun r as) n s"
| "step tg inc (FunDef r n as) s = declare_name tg (TFun r as) n s"
| "step tg inc (Invoke x as) s = (case map_of (macros s) x of Some (Fn e) \<Rightarrow> Inr s | _ \<Rightarrow> Inl (NoMacro x))"
| "step tg inc (Text l) s = Inr s"

text \<open>
  \<open>#include\<close> over a table of headers, up to a nesting depth as compilers have one; \<open>lib\<close> stands for the headers
  of the compiler and of wasi-libc.
\<close>

fun include_src :: "target \<Rightarrow> (string \<Rightarrow> dir list option) \<Rightarrow> (string \<Rightarrow> cstate \<Rightarrow> cerror + cstate) \<Rightarrow> nat \<Rightarrow>
    string \<Rightarrow> cstate \<Rightarrow> cerror + cstate" where
  "include_src tg tab lib 0 h s = Inl TooDeep"
| "include_src tg tab lib (Suc k) h s = (case tab h of
     None \<Rightarrow> lib h s
   | Some ds \<Rightarrow> run tg (include_src tg tab lib k) ds s)"

lemma run_append: "run tg inc (as @ bs) s = (case run tg inc as s of Inl e \<Rightarrow> Inl e | Inr s' \<Rightarrow> run tg inc bs s')"
  by (induction as arbitrary: s) (auto split: sum.splits)

section \<open>A checker\<close>

text \<open>
  The convention of \<open>bits/alltypes.h\<close>: a client defines \<open>__NEED_T\<close> before including it, and the header declares
  \<open>T\<close> and defines \<open>__DEFINED_T\<close> unless that has happened before.
\<close>

definition NEED :: "string \<Rightarrow> string" where "NEED n = ''__NEED_'' @ n"
definition DEFINED :: "string \<Rightarrow> string" where "DEFINED n = ''__DEFINED_'' @ n"

definition need :: "string \<Rightarrow> dir list \<Rightarrow> dir" where
  "need n ds = Cond (CAnd (Defined (NEED n)) (CNot (Defined (DEFINED n)))) (ds @ [Define (DEFINED n) (Toks [])]) []"

lemma NEED_DEFINED [simp]:
  "NEED n \<noteq> DEFINED m" "DEFINED m \<noteq> NEED n" "NEED n = NEED m \<longleftrightarrow> n = m" "DEFINED n = DEFINED m \<longleftrightarrow> n = m"
  by (auto simp: NEED_def DEFINED_def)

definition is_NEED :: "string \<Rightarrow> bool" where "is_NEED x \<longleftrightarrow> take 7 x = ''__NEED_''"
definition is_DEFINED :: "string \<Rightarrow> bool" where "is_DEFINED x \<longleftrightarrow> take 10 x = ''__DEFINED_''"

lemma is_NEED_eq: "is_NEED x \<Longrightarrow> x = NEED (drop 7 x)"
  unfolding is_NEED_def NEED_def by (metis append_take_drop_id)

lemma is_DEFINED_eq: "is_DEFINED x \<Longrightarrow> x = DEFINED (drop 10 x)"
  unfolding is_DEFINED_def DEFINED_def by (metis append_take_drop_id)

lemma is_DEFINED_DEFINED [simp]: "is_DEFINED (DEFINED n)"
  by (simp add: is_DEFINED_def DEFINED_def)

text \<open>
  What the checker is told once and for all: the tokens that types may use, whose macros are known exactly, and
  for every requested name the types that are declared with it: those that the header itself declares, which until
  then are absent or have been declared with the same layout elsewhere, and those that another header declares. A tag
  or a type without layout has to be absent. \<open>owner\<close> is the request that a name belongs to, \<open>quiet\<close> are the
  headers that request nothing, and \<open>repeated\<close> are the requests that a header answers in more than one place. \<open>given\<close>
  are layouts that headers outside of the port rely on.
\<close>

record hspec =
  reserved :: "string \<Rightarrow> bool"
  own :: "string \<Rightarrow> (tenv \<times> tenv) option"
  owner :: "string \<Rightarrow> string option"
  quiet :: "string \<Rightarrow> bool"
  repeated :: "string \<Rightarrow> bool"
  given :: "string \<Rightarrow> layout option"

definition wf_hspec :: "hspec \<Rightarrow> bool" where
  "wf_hspec sp \<longleftrightarrow> (\<forall>n st wk k. own sp n = Some (st, wk) \<longrightarrow> k \<in> set (map fst st) \<longrightarrow> owner sp k = Some n) \<and>
     (\<forall>x. reserved sp x \<longrightarrow> \<not> is_NEED x \<and> \<not> is_DEFINED x)"

text \<open>
  What it knows at one point: the macros among the reserved tokens, which of the other macros it follows are defined, types that are
  declared and names that are not, the requests already answered and the one being answered.
\<close>

record abs =
  am :: macros
  amd :: "(string \<times> bool) list"
  have_t :: tenv
  absent :: tenv
  done_n :: "string list"
  cur :: "string option"

definition is_def :: "cstate \<Rightarrow> string \<Rightarrow> bool" where
  "is_def s x \<longleftrightarrow> map_of (macros s) x \<noteq> None"

definition free_for :: "tenv \<Rightarrow> string \<times> layout option \<Rightarrow> bool" where
  "free_for te e \<longleftrightarrow> map_of te (fst e) = None \<or> snd e \<noteq> None \<and> map_of te (fst e) = Some (snd e)"

definition is_tag :: "string \<Rightarrow> bool" where
  "is_tag k \<longleftrightarrow> take 7 k = ''struct '' \<or> take 6 k = ''union ''"

text \<open>The names that must be free before the entries are declared; a tag must not be declared at all.\<close>

definition wanted :: "tenv \<Rightarrow> tenv" where
  "wanted es = map (\<lambda>(k, l). (k, if is_tag k then None else l)) es"

definition inv_for :: "hspec \<Rightarrow> string \<Rightarrow> cstate \<Rightarrow> bool" where
  "inv_for sp n s \<longleftrightarrow> (case own sp n of None \<Rightarrow> True
     | Some (st, wk) \<Rightarrow> if is_def s (DEFINED n) then tenv_le (st @ wk) (types s)
         else \<forall>e \<in> set (wanted st). free_for (types s) e)"

definition givens_ok :: "hspec \<Rightarrow> cstate \<Rightarrow> bool" where
  "givens_ok sp s \<longleftrightarrow> (\<forall>k l v. given sp k = Some l \<longrightarrow> map_of (types s) k = Some v \<longrightarrow> v = Some l)"

lemma givens_ok_macros [simp]: "givens_ok sp (s\<lparr>macros := m\<rparr>) = givens_ok sp s"
  by (simp add: givens_ok_def)

definition knows :: "hspec \<Rightarrow> abs \<Rightarrow> cstate \<Rightarrow> bool" where
  "knows sp A s \<longleftrightarrow>
     agree (Collect (reserved sp)) (am A) (macros s) \<and> closed (Collect (reserved sp)) (am A) \<and>
     (\<forall>x b. map_of (amd A) x = Some b \<longrightarrow> is_def s x = b) \<and>
     tenv_le (have_t A) (types s) \<and>
     (\<forall>e \<in> set (absent A). free_for (types s) e) \<and>
     (\<forall>n. cur A \<noteq> Some n \<longrightarrow> inv_for sp n s) \<and> givens_ok sp s \<and>
     (\<forall>n \<in> set (done_n A). is_def s (NEED n) \<longrightarrow> is_def s (DEFINED n))"

fun acond :: "hspec \<Rightarrow> abs \<Rightarrow> cond \<Rightarrow> bool option" where
  "acond sp A (Defined x) = (if reserved sp x then Some (map_of (am A) x \<noteq> None) else map_of (amd A) x)"
| "acond sp A (CNot c) = map_option Not (acond sp A c)"
| "acond sp A (CAnd c d) = (case acond sp A c of
     Some True \<Rightarrow> acond sp A d
   | Some False \<Rightarrow> Some False
   | None \<Rightarrow> (if acond sp A d = Some False then Some False else None))"
| "acond sp A (COr c d) = (case acond sp A c of
     Some True \<Rightarrow> Some True
   | Some False \<Rightarrow> acond sp A d
   | None \<Rightarrow> (if acond sp A d = Some True then Some True else None))"
| "acond sp A (CExpr e) = (if list_all (reserved sp) (idents e) then Some (holds (am A) (CExpr e)) else None)"

definition entries_in :: "tenv \<Rightarrow> tenv \<Rightarrow> bool" where
  "entries_in es te \<longleftrightarrow> list_all (\<lambda>(k, l). case map_of te k of None \<Rightarrow> False | Some v \<Rightarrow> l = None \<or> v = l) es"

fun tag_entries :: "target \<Rightarrow> macros \<Rightarrow> tenv \<Rightarrow> ctype \<Rightarrow> tenv option" where
  "tag_entries tg ms te (TAgg k tag fs) = (if tag = [] then Some []
     else map_option (\<lambda>l. [(agg_key k tag, Some l)]) (layout tg ms te (TAgg k tag fs)))"
| "tag_entries tg ms te (TArr t e) = tag_entries tg ms te t"
| "tag_entries tg ms te t = Some []"

definition typedef_entries :: "target \<Rightarrow> macros \<Rightarrow> tenv \<Rightarrow> ctype \<Rightarrow> string \<Rightarrow> tenv option" where
  "typedef_entries tg ms te t n = (case tag_entries tg ms te t of None \<Rightarrow> None
     | Some es \<Rightarrow> if type_ok tg ms (es @ te) t then Some ((n, layout tg ms (es @ te) t) # es) else None)"

definition add_entries :: "hspec \<Rightarrow> abs \<Rightarrow> tenv \<Rightarrow> abs option" where
  "add_entries sp A es = (if distinct (map fst es)
      \<and> list_all (\<lambda>(k, l). (List.member (absent A) (k, None) \<or> \<not> is_tag k \<and> List.member (absent A) (k, l)) \<and>
           (owner sp k = None \<or> owner sp k = cur A) \<and> (given sp k = None \<or> given sp k = l)) es
    then Some (A\<lparr>have_t := es @ have_t A, absent := filter (\<lambda>e. \<not> List.member (map fst es) (fst e)) (absent A)\<rparr>) else None)"

definition meet :: "abs \<Rightarrow> abs \<Rightarrow> abs option" where
  "meet A B = (if A = B then Some A else if am A = am B \<and> cur A = cur B then Some (A\<lparr>
       amd := filter (\<lambda>(x, b). map_of (amd A) x = Some b \<and> map_of (amd B) x = Some b) (amd A),
       have_t := filter (\<lambda>(k, v). map_of (have_t A) k = Some v \<and> map_of (have_t B) k = Some v) (have_t A),
       absent := filter (\<lambda>e. List.member (absent B) e) (absent A),
       done_n := filter (\<lambda>n. List.member (done_n B) n) (done_n A)\<rparr>) else None)"

fun need_of :: "cond \<Rightarrow> dir list \<Rightarrow> string option" where
  "need_of (CAnd (Defined x) (CNot (Defined y))) [] =
     (if is_NEED x \<and> y = DEFINED (drop 7 x) then Some (drop 7 x) else None)"
| "need_of _ _ = None"

definition learn :: "tenv \<times> tenv \<Rightarrow> string \<Rightarrow> abs \<Rightarrow> abs" where
  "learn e n A = (if map_of (amd A) (NEED n) = Some True then A\<lparr>have_t := fst e @ snd e @ have_t A\<rparr> else A)"

fun check_define :: "hspec \<Rightarrow> string \<Rightarrow> mbody \<Rightarrow> abs \<Rightarrow> abs option" where
  "check_define sp x b A =
     (if is_DEFINED x then
        (case own sp (drop 10 x) of None \<Rightarrow> None
         | Some (st, wk) \<Rightarrow> if cur A = Some (drop 10 x) \<and> entries_in (st @ wk) (have_t A)
             then Some (A\<lparr>cur := None, amd := (x, True) # amd A\<rparr>) else None)
      else if is_NEED x then
        (if cur A = None
         then Some (A\<lparr>amd := (x, True) # amd A, done_n := filter (\<lambda>n. NEED n \<noteq> x) (done_n A)\<rparr>) else None)
      else if reserved sp x then
        (if list_all (reserved sp) (body_toks b) then Some (A\<lparr>am := (x, b) # am A, amd := (x, True) # amd A\<rparr>) else None)
      else Some (if map_of (amd A) x = None then A else A\<lparr>amd := (x, True) # amd A\<rparr>))"

definition undefine :: "hspec \<Rightarrow> string \<Rightarrow> abs \<Rightarrow> abs" where
  "undefine sp x A = A\<lparr>am := AList.delete x (am A),
     amd := (if reserved sp x \<or> map_of (amd A) x \<noteq> None then (x, False) # amd A else amd A)\<rparr>"

definition answered_for :: "hspec \<Rightarrow> string \<Rightarrow> string list \<Rightarrow> string list" where
  "answered_for sp n ns = (if repeated sp n then n # ns else ns)"

text \<open>Directives that request no type.\<close>

fun calm :: "hspec \<Rightarrow> dir \<Rightarrow> bool" where
  "calm sp (Define x b) \<longleftrightarrow> \<not> is_NEED x"
| "calm sp (Undef x) \<longleftrightarrow> \<not> is_DEFINED x"
| "calm sp (Include h) \<longleftrightarrow> quiet sp h"
| "calm sp (Cond c a b) \<longleftrightarrow> False"
| "calm sp _ \<longleftrightarrow> True"

definition check_type :: "hspec \<Rightarrow> target \<Rightarrow> ctype \<Rightarrow> abs \<Rightarrow> abs option" where
  "check_type sp tg t A = (if toks_ok (reserved sp) t \<and> type_ok tg (am A) (have_t A) t then Some A else None)"

fun chk :: "hspec \<Rightarrow> target \<Rightarrow> (string \<Rightarrow> abs \<Rightarrow> abs option) \<Rightarrow> dir list \<Rightarrow> abs \<Rightarrow> abs option"
and chk1 :: "hspec \<Rightarrow> target \<Rightarrow> (string \<Rightarrow> abs \<Rightarrow> abs option) \<Rightarrow> dir \<Rightarrow> abs \<Rightarrow> abs option" where
  "chk sp tg inc [] A = Some A"
| "chk sp tg inc (d # ds) A = (case chk1 sp tg inc d A of None \<Rightarrow> None | Some A' \<Rightarrow> chk sp tg inc ds A')"
| "chk1 sp tg inc (Define x b) A = check_define sp x b A"
| "chk1 sp tg inc (Undef x) A = (if is_DEFINED x then None else Some (undefine sp x A))"
| "chk1 sp tg inc (Include h) A = inc h A"
| "chk1 sp tg inc (Cond c a b) A = (case need_of c b of
     Some n \<Rightarrow> if cur A \<noteq> None then None else (case own sp n of
         None \<Rightarrow> None
       | Some e \<Rightarrow>
           if List.member (done_n A) n then Some (learn e n A)
           else if map_of (amd A) (NEED n) = Some False then Some (A\<lparr>done_n := answered_for sp n (done_n A)\<rparr>)
           else if \<not> list_all (calm sp) a then None
           else (case chk sp tg inc a (A\<lparr>cur := Some n, absent := wanted (fst e) @ absent A, amd := (NEED n, True) # amd A,
                   done_n := []\<rparr>) of
               None \<Rightarrow> None
             | Some A1 \<Rightarrow> if cur A1 = None \<and> map_of (amd A1) (DEFINED n) = Some True
                 then map_option (\<lambda>A2. learn e n (A2\<lparr>done_n := answered_for sp n (done_n A)\<rparr>)) (meet A A1) else None))
   | None \<Rightarrow> (case acond sp A c of
         Some v \<Rightarrow> if v then chk sp tg inc a A else chk sp tg inc b A
       | None \<Rightarrow> (case chk sp tg inc a A of None \<Rightarrow> None
           | Some A1 \<Rightarrow> (case chk sp tg inc b A of None \<Rightarrow> None | Some A2 \<Rightarrow> meet A1 A2))))"
| "chk1 sp tg inc (Err m) A = None"
| "chk1 sp tg inc (Typedef t n) A = (if toks_ok (reserved sp) t
     then Option.bind (typedef_entries tg (am A) (have_t A) t n) (add_entries sp A) else None)"
| "chk1 sp tg inc (Declare t) A = (if toks_ok (reserved sp) t
     then Option.bind (tag_entries tg (am A) (have_t A) t) (add_entries sp A) else None)"
| "chk1 sp tg inc (Extern t n) A = check_type sp tg t A"
| "chk1 sp tg inc (Proto r n as) A = check_type sp tg (TFun r as) A"
| "chk1 sp tg inc (FunDef r n as) A = check_type sp tg (TFun r as) A"
| "chk1 sp tg inc (Invoke x as) A = None"
| "chk1 sp tg inc (Text l) A = Some A"

section \<open>The checker is sound\<close>

lemma tenv_le_trans: "tenv_le a b \<Longrightarrow> tenv_le b c \<Longrightarrow> tenv_le a c"
  unfolding tenv_le_def by fastforce

lemma tenv_le_keep:
  assumes "tenv_le a b" "\<forall>k v. map_of b k = Some v \<longrightarrow> map_of c k = Some v"
  shows "tenv_le a c"
proof -
  have "tenv_le b c" using assms(2) by (simp add: tenv_le_def)
  with assms(1) show ?thesis by (rule tenv_le_trans)
qed

lemma entries_in_le: "entries_in es te \<Longrightarrow> tenv_le es te"
  unfolding tenv_le_def
proof (intro allI impI)
  fix n v assume "entries_in es te" "map_of es n = Some v"
  then have "case map_of te n of None \<Rightarrow> False | Some w \<Rightarrow> v = None \<or> w = v"
    using map_of_SomeD by (fastforce simp: entries_in_def list_all_iff)
  then show "\<exists>w. map_of te n = Some w \<and> (v = None \<or> w = v)" by (auto split: option.splits)
qed

lemma tenv_le_append:
  "tenv_le a c \<Longrightarrow> tenv_le b c \<Longrightarrow> tenv_le (a @ b) c"
  by (auto simp: tenv_le_def map_add_Some_iff)

lemma map_of_None_keys: "map_of es k = None \<longleftrightarrow> k \<notin> set (map fst es)"
  by (simp add: map_of_eq_None_iff)

lemma tenv_le_extend:
  assumes "tenv_le es es'" "map fst es' = map fst es" "tenv_le te te'"
  shows "tenv_le (es @ te) (es' @ te')"
  unfolding tenv_le_def
proof (intro allI impI)
  fix n v assume v: "map_of (es @ te) n = Some v"
  show "\<exists>v'. map_of (es' @ te') n = Some v' \<and> (v = None \<or> v' = v)"
  proof (cases "map_of es n")
    case None
    then have "map_of es' n = None" using assms(2) by (simp add: map_of_None_keys)
    then show ?thesis using None v assms(3) by (simp add: tenv_le_def map_add_def)
  next
    case (Some w)
    then have "v = w" using v by (simp add: map_add_def)
    then obtain v' where "map_of es' n = Some v' \<and> (v = None \<or> v' = v)"
      using Some assms(1) by (auto simp: tenv_le_def)
    then show ?thesis by (simp add: map_add_def)
  qed
qed

lemma tenv_le_fresh:
  "tenv_le a te \<Longrightarrow> \<forall>k \<in> set (map fst es). map_of te k = None \<Longrightarrow> tenv_le a (es @ te)"
  unfolding tenv_le_def
  by (metis map_of_None_keys map_of_append map_add_dom_app_simps(3) domIff option.distinct(1))

lemma type_ok_agree:
  assumes "agree (Collect R) ms ms'" "closed (Collect R) ms" "toks_ok R t"
  shows "type_ok tg ms te t = type_ok tg ms' te t"
  using layout_agree [OF assms] names_ok_agree [OF assms] by (cases t) simp_all

lemma type_ok_mono: "tenv_le te te' \<Longrightarrow> type_ok tg ms te t \<Longrightarrow> type_ok tg ms te' t"
  using layout_mono [of te te' tg ms t] names_ok_mono [of te te' tg ms t]
  by (cases t) (auto simp del: layout.simps names_ok.simps)

lemma type_ok_sound:
  assumes "knows sp A s" "toks_ok (reserved sp) t" "type_ok tg (am A) (have_t A) t"
  shows "type_ok tg (macros s) (types s) t"
  using assms type_ok_agree [of "reserved sp" "am A" "macros s" t tg "types s"]
    type_ok_mono [of "have_t A" "types s" tg "am A" t] by (simp add: knows_def)

lemma acond_sound: "knows sp A s \<Longrightarrow> acond sp A c = Some v \<Longrightarrow> holds (macros s) c = v"
proof (induction sp A c arbitrary: v rule: acond.induct)
  case (5 sp A e)
  then show ?case
    using mval_agree [of "Collect (reserved sp)" "am A" "macros s" e "Some (False, 0)"]
    by (simp add: knows_def list_all_Collect split: if_splits)
qed (auto simp: knows_def agree_def is_def_def split: option.splits if_splits bool.splits)

text \<open>A declaration with the entries \<open>es\<close>, some of which may have been there before.\<close>

definition grows :: "tenv \<Rightarrow> cstate \<Rightarrow> cstate \<Rightarrow> bool" where
  "grows es s s' \<longleftrightarrow> macros s' = macros s \<and> tenv_le es (types s') \<and>
     (\<forall>k v. map_of (types s) k = Some v \<longrightarrow> map_of (types s') k = Some v) \<and>
     (\<forall>k. map_of (types s) k = None \<longrightarrow> k \<notin> set (map fst es) \<longrightarrow> map_of (types s') k = None)"

lemma is_tag_key [simp]: "is_tag (agg_key k tag)"
  by (cases k) (simp_all add: is_tag_def)

lemma map_of_fresh_append:
  assumes "\<forall>k \<in> set (map fst es). map_of te k = None" "map_of te k = Some v"
  shows "map_of (es @ te) k = Some v"
proof (cases "map_of es k")
  case (Some w)
  then have "k \<in> set (map fst es)" by (force dest: map_of_SomeD)
  then show ?thesis using assms by auto
qed (use assms(2) in \<open>simp add: map_add_Some_iff\<close>)

lemma tenv_le_prefix [simp]: "tenv_le es (es @ te)"
  by (auto simp: tenv_le_def map_add_Some_iff)

lemma enter_tag_sound:
  assumes "agree (Collect R) ms (macros s)" "closed (Collect R) ms" "toks_ok R t" "tenv_le te (types s)"
    and "tag_entries tg ms te t = Some es" "\<forall>e \<in> set (wanted es). free_for (types s) e"
  shows "\<exists>s'. enter_tag tg t s = Inr s' \<and> macros s' = macros s \<and> types s' = es @ types s
    \<and> (\<forall>k \<in> set (map fst es). map_of (types s) k = None)"
  using assms
proof (induction tg ms te t rule: tag_entries.induct)
  case (1 tg ms te k tag fs)
  show ?case
  proof (cases "tag = []")
    case False
    then obtain l where l: "layout tg ms te (TAgg k tag fs) = Some l" "es = [(agg_key k tag, Some l)]"
      using 1(5) by auto
    then have "layout tg (macros s) (types s) (TAgg k tag fs) = Some l"
      using layout_agree [OF 1(1-3)] layout_mono [OF 1(4)] by metis
    then show ?thesis using l 1(6) False by (simp add: enter_def wanted_def free_for_def del: layout.simps)
  qed (use 1 in simp)
qed auto

lemma typedef_sound:
  assumes ag: "agree (Collect R) ms (macros s)" "closed (Collect R) ms" "toks_ok R t" and te: "tenv_le te (types s)"
    and es: "typedef_entries tg ms te t n = Some es" "\<forall>e \<in> set (wanted es). free_for (types s) e"
      "distinct (map fst es)"
  shows "\<exists>s'. typedef_name tg t n s = Inr s' \<and> grows es s s'"
proof -
  obtain es0 where es0: "tag_entries tg ms te t = Some es0" "type_ok tg ms (es0 @ te) t"
    "es = (n, layout tg ms (es0 @ te) t) # es0"
    using es(1) by (auto simp: typedef_entries_def split: option.splits if_splits)
  then have "\<forall>e \<in> set (wanted es0). free_for (types s) e" using es(2) by (simp add: wanted_def)
  from enter_tag_sound [OF ag te es0(1) this] obtain s1 where
    s1: "enter_tag tg t s = Inr s1" "macros s1 = macros s" "types s1 = es0 @ types s"
    and new: "\<forall>k \<in> set (map fst es0). map_of (types s) k = None" by blast
  have le: "tenv_le (es0 @ te) (es0 @ types s)" using tenv_le_extend te by simp
  have ok: "type_ok tg (macros s1) (types s1) t"
    using es0(2) type_ok_mono [OF le] type_ok_agree [OF ag] s1 by metis
  define la where "la = layout tg ms (es0 @ te) t"
  define lc where "lc = layout tg (macros s1) (types s1) t"
  have lay: "la = None \<or> lc = la"
    using layout_mono [OF le] layout_agree [OF ag] s1 unfolding la_def lc_def
    by (cases "layout tg ms (es0 @ te) t") metis+
  have n0: "map_of es0 n = None" using es(3) es0(3) by (simp add: map_of_eq_None_iff)
  have keep: "map_of (es0 @ types s) k = Some v" if "map_of (types s) k = Some v" for k v
    using map_of_fresh_append [OF new that] .
  have le0: "tenv_le es0 (es0 @ types s)" by simp
  have run: "typedef_name tg t n s = enter_typedef n lc s1" using s1 ok by (simp add: typedef_name_def lc_def)
  have "free_for (types s) (n, if is_tag n then None else la)" using es(2) es0(3) by (simp add: wanted_def la_def cong: if_cong)
  then consider (new) "map_of (types s) n = None" | (old) "la \<noteq> None" "map_of (types s) n = Some la"
    by (auto simp: free_for_def split: if_splits)
  then show ?thesis
  proof cases
    case new
    then have "map_of (types s1) n = None" using n0 s1(3) by simp
    then have "typedef_name tg t n s = Inr (s1\<lparr>types := (n, lc) # es0 @ types s, decls := decls s1 @ [n]\<rparr>)"
      using run s1(3) by (simp add: enter_typedef_def enter_def map_add_def del: not_None_eq)
    moreover have "tenv_le es ((n, lc) # es0 @ types s)"
      using lay le0 es0(3) n0 unfolding la_def [symmetric] by (auto simp: tenv_le_def)
    moreover have "map_of ((n, lc) # es0 @ types s) k = Some v" if "map_of (types s) k = Some v" for k v
      using keep [OF that] that new by auto
    moreover have "map_of ((n, lc) # es0 @ types s) k = None" if "map_of (types s) k = None" "k \<notin> set (map fst es)" for k
      using that es0(3) by (simp add: map_of_eq_None_iff)
    ultimately show ?thesis using s1(2) by (simp add: grows_def)
  next
    case old
    then have "map_of (types s1) n = Some lc" "lc \<noteq> None" using n0 s1(3) lay by (auto simp: map_add_Some_iff)
    then have "typedef_name tg t n s = Inr s1" using run by (simp add: enter_typedef_def)
    moreover have "tenv_le es (es0 @ types s)"
      using le0 es0(3) n0 old unfolding la_def [symmetric] by (auto simp: tenv_le_def map_add_Some_iff)
    moreover have "map_of (es0 @ types s) k = None" if "map_of (types s) k = None" "k \<notin> set (map fst es)" for k
      using that es0(3) by (simp add: map_of_eq_None_iff)
    ultimately show ?thesis using s1(2,3) keep by (simp add: grows_def)
  qed
qed

lemma free_for_grows: "free_for (types s) e \<Longrightarrow> grows es s s' \<Longrightarrow> fst e \<notin> set (map fst es) \<Longrightarrow> free_for (types s') e"
  by (auto simp: free_for_def grows_def)

lemma givens_grow:
  assumes s: "givens_ok sp s" and g: "grows es s s'" and add: "add_entries sp A es = Some A'"
  shows "givens_ok sp s'"
  unfolding givens_ok_def
proof (intro allI impI)
  fix k l v assume kl: "given sp k = Some l" and v: "map_of (types s') k = Some v"
  show "v = Some l"
  proof (cases "map_of (types s) k")
    case None
    then have "k \<notin> set (map fst es) \<longrightarrow> map_of (types s') k = None" using g unfolding grows_def by blast
    then have "k \<in> set (map fst es)" using v by auto
    then obtain w where w: "map_of es k = Some w" using map_of_None_keys by (metis option.exhaust)
    then have "(k, w) \<in> set es" by (rule map_of_SomeD)
    then have "w = Some l" using add kl by (auto simp: add_entries_def list_all_iff split: if_splits)
    then show ?thesis using tenv_leD [of es "types s'" k l] w g v by (simp add: grows_def)
  next
    case (Some u)
    then have "v = u" using g v by (simp add: grows_def)
    then show ?thesis using s kl Some unfolding givens_ok_def by blast
  qed
qed

lemma add_entries_sound:
  assumes k: "knows sp A s" and add: "add_entries sp A es = Some A'" and g: "grows es s s'" and wf: "wf_hspec sp"
  shows "knows sp A' s'"
proof -
  have A': "A' = A\<lparr>have_t := es @ have_t A, absent := filter (\<lambda>e. \<not> List.member (map fst es) (fst e)) (absent A)\<rparr>"
    and all: "\<forall>x \<in> set es. owner sp (fst x) = None \<or> owner sp (fst x) = cur A"
    using add by (simp_all add: add_entries_def list_all_iff split_def split: if_splits)
  then have ow: "\<forall>k \<in> set (map fst es). owner sp k = None \<or> owner sp k = cur A" by fastforce
  have "inv_for sp n s'" if n: "cur A \<noteq> Some n" for n
  proof (cases "own sp n")
    case (Some e)
    obtain st wk where e: "e = (st, wk)" by (cases e)
    then have "owner sp x = Some n" if "x \<in> set (map fst st)" for x using wf Some that by (auto simp: wf_hspec_def)
    then have "x \<notin> set (map fst es)" if "x \<in> set (map fst st)" for x using ow n that by fastforce
    moreover have "fst f \<in> set (map fst st)" if "f \<in> set (wanted st)" for f
      using that by (force simp: wanted_def)
    ultimately have "\<forall>f \<in> set (wanted st). free_for (types s) f \<longrightarrow> free_for (types s') f"
      using free_for_grows [OF _ g] by blast
    moreover have "inv_for sp n s" using k n by (simp add: knows_def)
    moreover have "is_def s' (DEFINED n) = is_def s (DEFINED n)" using g by (simp add: is_def_def grows_def)
    moreover have "tenv_le (st @ wk) (types s')" if "tenv_le (st @ wk) (types s)"
      using tenv_le_keep [OF that] g by (simp add: grows_def)
    ultimately show ?thesis
      using Some e unfolding inv_for_def by (auto split: if_splits)
  qed (simp add: inv_for_def)
  moreover have "\<forall>x \<in> set (absent A'). free_for (types s') x"
    using k A' free_for_grows [OF _ g] by (simp add: knows_def)
  moreover have "tenv_le (have_t A') (types s')"
    using k A' g tenv_le_append tenv_le_keep [of "have_t A" "types s" "types s'"] by (simp add: knows_def grows_def)
  moreover have "givens_ok sp s'" using givens_grow [OF _ g add] k by (simp add: knows_def)
  ultimately show ?thesis using k A' g by (simp add: knows_def is_def_def grows_def)
qed

lemma add_entries_free:
  assumes "add_entries sp A es = Some A'" "knows sp A s"
  shows "\<forall>e \<in> set (wanted es). free_for (types s) e" "distinct (map fst es)"
proof -
  have "(k, None) \<in> set (absent A) \<or> \<not> is_tag k \<and> (k, l) \<in> set (absent A)" if "(k, l) \<in> set es" for k l
    using assms(1) that by (auto simp: add_entries_def list_all_iff split: if_splits)
  then show "\<forall>e \<in> set (wanted es). free_for (types s) e"
    using assms(2) by (fastforce simp: wanted_def knows_def free_for_def)
  show "distinct (map fst es)" using assms(1) by (simp add: add_entries_def split: if_splits)
qed

lemma map_of_filter_fact:
  "map_of (filter (\<lambda>(x, b). P x b) xs) x = Some b \<Longrightarrow> P x b"
  by (auto dest: map_of_SomeD)

lemma meet_amd:
  "map_of (filter (\<lambda>(x, b). map_of p x = Some b \<and> map_of q x = Some b) r) x = Some b \<Longrightarrow>
   map_of p x = Some b \<and> map_of q x = Some b"
  by (auto dest: map_of_SomeD)

lemma meet_sound: "meet A B = Some C \<Longrightarrow> knows sp A s \<or> knows sp B s \<Longrightarrow> knows sp C s"
  unfolding meet_def knows_def
  by (auto split: if_splits simp: tenv_le_def dest!: meet_amd) 

lemma learn_sound:
  assumes "knows sp A s" "own sp n = Some e" "cur A \<noteq> Some n" "is_def s (NEED n) \<longrightarrow> is_def s (DEFINED n)"
  shows "knows sp (learn e n A) s"
proof (cases "map_of (amd A) (NEED n) = Some True")
  case True
  then have "is_def s (DEFINED n)" "inv_for sp n s" using assms by (simp_all add: knows_def)
  then have "tenv_le (fst e @ snd e) (types s)"
    using assms(2) by (auto simp: inv_for_def)
  then show ?thesis
    using assms(1) tenv_le_append [of "fst e @ snd e" "types s" "have_t A"] True
    by (simp add: learn_def knows_def inv_for_def)
qed (use assms(1) in \<open>simp add: learn_def\<close>)

lemma is_def_define [simp]: "is_def (s\<lparr>macros := (x, b) # macros s\<rparr>) y \<longleftrightarrow> y = x \<or> is_def s y"
  by (simp add: is_def_def)

lemma is_def_undef [simp]: "is_def (s\<lparr>macros := AList.delete x (macros s)\<rparr>) y \<longleftrightarrow> y \<noteq> x \<and> is_def s y"
  by (simp add: is_def_def AList.delete_conv)

lemma inv_for_macros:
  "types s' = types s \<Longrightarrow> is_def s' (DEFINED n) = is_def s (DEFINED n) \<Longrightarrow> inv_for sp n s' = inv_for sp n s"
  by (simp add: inv_for_def split: option.splits)

lemma check_define_sound:
  assumes "check_define sp x b A = Some A'" "knows sp A s" and wf: "wf_hspec sp"
  shows "knows sp A' (s\<lparr>macros := (x, b) # macros s\<rparr>)"
proof (cases "is_DEFINED x")
  case True
  then have x: "x = DEFINED (drop 10 x)" by (rule is_DEFINED_eq)
  obtain st wk where e: "own sp (drop 10 x) = Some (st, wk)" "cur A = Some (drop 10 x)"
    "entries_in (st @ wk) (have_t A)" "A' = A\<lparr>cur := None, amd := (x, True) # amd A\<rparr>"
    using assms(1) True by (auto split: option.splits if_splits)
  have le: "tenv_le (st @ wk) (types s)"
    using entries_in_le [OF e(3)] tenv_le_trans assms(2) by (auto simp: knows_def)
  have "inv_for sp n (s\<lparr>macros := (x, b) # macros s\<rparr>)" for n
  proof (cases "n = drop 10 x")
    case True
    then show ?thesis using le e(1) x by (simp add: inv_for_def)
  next
    case False
    then have "DEFINED n \<noteq> x" using x by (metis NEED_DEFINED(4))
    then show ?thesis
      using assms(2) e(2) False inv_for_macros [of "s\<lparr>macros := (x, b) # macros s\<rparr>" s n sp] by (auto simp: knows_def)
  qed
  moreover have "NEED n \<noteq> x" for n using x by (metis NEED_DEFINED(1))
  moreover have "\<not> reserved sp x" using wf True by (auto simp: wf_hspec_def)
  ultimately show ?thesis using assms(2) e(4) by (auto simp: knows_def agree_def)
next
  case False
  then have nd: "DEFINED n \<noteq> x" for n by auto
  then have inv: "inv_for sp n (s\<lparr>macros := (x, b) # macros s\<rparr>) = inv_for sp n s" for n
    by (intro inv_for_macros) auto
  have ag: "agree (Collect (reserved sp)) (am A) (macros s)" "closed (Collect (reserved sp)) (am A)"
    using assms(2) by (simp_all add: knows_def)
  show ?thesis
  proof (cases "is_NEED x")
    case True
    then have out: "\<not> reserved sp x" using wf by (auto simp: wf_hspec_def)
    have A': "A' = A\<lparr>amd := (x, True) # amd A, done_n := filter (\<lambda>n. NEED n \<noteq> x) (done_n A)\<rparr>"
      using assms(1) False True by (simp_all split: if_splits)
    have "agree (Collect (reserved sp)) (am A) ((x, b) # macros s)" using ag(1) out by (auto simp: agree_def)
    then show ?thesis using assms(2) A' nd by (simp add: knows_def inv)
  next
    case nn: False
    then have need: "NEED n \<noteq> x" for n by (auto simp: is_NEED_def NEED_def)
    show ?thesis
    proof (cases "reserved sp x")
      case True
      then have b: "set (body_toks b) \<subseteq> Collect (reserved sp)" and A': "A' = A\<lparr>am := (x, b) # am A, amd := (x, True) # amd A\<rparr>"
        using assms(1) False nn by (simp_all add: list_all_Collect split: if_splits)
      have "agree (Collect (reserved sp)) ((x, b) # am A) ((x, b) # macros s)" using ag(1) by (simp add: agree_def)
      moreover have "closed (Collect (reserved sp)) ((x, b) # am A)" using ag(2) b by (simp add: closed_def)
      ultimately show ?thesis using assms(2) A' nd need by (simp add: knows_def inv)
    next
      case out: False
      then have A': "A' = (if map_of (amd A) x = None then A else A\<lparr>amd := (x, True) # amd A\<rparr>)" using assms(1) False nn by simp
      have "agree (Collect (reserved sp)) (am A) ((x, b) # macros s)" using ag(1) out by (auto simp: agree_def)
      then show ?thesis using assms(2) A' nd need by (auto simp: knows_def inv)
    qed
  qed
qed

lemma undef_sound:
  assumes "\<not> is_DEFINED x" "knows sp A s"
  shows "knows sp (undefine sp x A) (s\<lparr>macros := AList.delete x (macros s)\<rparr>)"
proof -
  have nd: "DEFINED n \<noteq> x" for n using assms(1) by auto
  then have inv: "inv_for sp n (s\<lparr>macros := AList.delete x (macros s)\<rparr>) = inv_for sp n s" for n
    by (intro inv_for_macros) auto
  show ?thesis
    using assms(2) nd agree_delete closed_delete by (auto simp: undefine_def knows_def inv)
qed

lemma declare_macros:
  "enter n l s = Inr s' \<Longrightarrow> macros s' = macros s"
  "enter_tag tg t s = Inr s' \<Longrightarrow> macros s' = macros s"
  "typedef_name tg t n s = Inr s' \<Longrightarrow> macros s' = macros s"
  "declare_name tg t n s = Inr s' \<Longrightarrow> macros s' = macros s"
proof -
  show e: "enter n l s = Inr s' \<Longrightarrow> macros s' = macros s" for n l s s'
    by (auto simp: enter_def split: if_splits)
  have d: "enter_typedef n l s = Inr s' \<Longrightarrow> macros s' = macros s" for n l s s'
    by (auto simp: enter_typedef_def dest: e split: if_splits)
  show t: "enter_tag tg t s = Inr s' \<Longrightarrow> macros s' = macros s" for s s'
    by (induction tg t s rule: enter_tag.induct) (auto dest: e split: if_splits option.splits)
  show "typedef_name tg t n s = Inr s' \<Longrightarrow> macros s' = macros s"
    by (auto simp: typedef_name_def dest!: t d split: sum.splits if_splits)
  show "declare_name tg t n s = Inr s' \<Longrightarrow> macros s' = macros s"
    by (auto simp: declare_name_def split: if_splits)
qed

text \<open>No request is added and none of the answered ones is forgotten.\<close>

definition requests_kept :: "cstate \<Rightarrow> cstate \<Rightarrow> bool" where
  "requests_kept s s' \<longleftrightarrow>
     (\<forall>n. (is_def s' (NEED n) \<longrightarrow> is_def s (NEED n)) \<and> (is_def s (DEFINED n) \<longrightarrow> is_def s' (DEFINED n)))"

definition inc_sound :: "hspec \<Rightarrow> (string \<Rightarrow> cstate \<Rightarrow> cerror + cstate) \<Rightarrow> (string \<Rightarrow> abs \<Rightarrow> abs option) \<Rightarrow> bool" where
  "inc_sound sp inc ainc \<longleftrightarrow>
     (\<forall>h A A' s. ainc h A = Some A' \<longrightarrow> knows sp A s \<longrightarrow> (\<exists>s'. inc h s = Inr s' \<and> knows sp A' s')) \<and>
     (\<forall>h s s'. quiet sp h \<longrightarrow> inc h s = Inr s' \<longrightarrow> requests_kept s s')"

lemma knows_decls [simp]: "knows sp A (s\<lparr>decls := d\<rparr>) = knows sp A s"
proof -
  have "inv_for sp n (s\<lparr>decls := d\<rparr>) = inv_for sp n s" for n
    by (rule inv_for_macros) (simp_all add: is_def_def)
  then show ?thesis by (simp add: knows_def is_def_def givens_ok_def)
qed

lemma check_type_sound:
  assumes "check_type sp tg t A = Some A'" "knows sp A s"
  shows "\<exists>s'. declare_name tg t n s = Inr s' \<and> knows sp A' s'"
proof -
  have "type_ok tg (macros s) (types s) t" "A' = A"
    using assms type_ok_sound by (auto simp: check_type_def split: if_splits)
  then show ?thesis using assms(2) by (simp add: declare_name_def)
qed

lemma declare_sound:
  assumes "toks_ok (reserved sp) t" "knows sp A s" "tag_entries tg (am A) (have_t A) t = Some es"
    and add: "add_entries sp A es = Some A'" and wf: "wf_hspec sp"
  shows "\<exists>s'. enter_tag tg t s = Inr s' \<and> knows sp A' s'"
proof -
  note free = add_entries_free [OF add assms(2)]
  from enter_tag_sound [of "reserved sp" "am A" s t "have_t A" tg es] obtain s' where
    s': "enter_tag tg t s = Inr s'" "macros s' = macros s" "types s' = es @ types s"
      "\<forall>k \<in> set (map fst es). map_of (types s) k = None"
    using assms(1-3) free(1) by (auto simp: knows_def)
  then have "grows es s s'"
    using map_of_fresh_append [OF s'(4)]
    by (auto simp: grows_def map_of_eq_None_iff simp del: map_of_append)
  then show ?thesis using add_entries_sound [OF assms(2) add _ wf] s'(1) by blast
qed

lemma typedef_chk_sound:
  assumes "toks_ok (reserved sp) t" "knows sp A s" "typedef_entries tg (am A) (have_t A) t n = Some es"
    and add: "add_entries sp A es = Some A'" and wf: "wf_hspec sp"
  shows "\<exists>s'. typedef_name tg t n s = Inr s' \<and> knows sp A' s'"
proof -
  note free = add_entries_free [OF add assms(2)]
  from typedef_sound [of "reserved sp" "am A" s t "have_t A" tg n es] obtain s' where
    s': "typedef_name tg t n s = Inr s'" "grows es s s'"
    using assms(1-3) free by (auto simp: knows_def)
  then show ?thesis using add_entries_sound [OF assms(2) add _ wf] by blast
qed

lemma need_of_eq: "need_of c b = Some n \<Longrightarrow> c = CAnd (Defined (NEED n)) (CNot (Defined (DEFINED n))) \<and> b = []"
  by (induction c b rule: need_of.induct) (auto simp: is_NEED_eq [symmetric] split: if_splits)

lemma calm_step: "calm sp d \<Longrightarrow> step tg inc d s = Inr s' \<Longrightarrow> inc_sound sp inc ainc \<Longrightarrow> requests_kept s s'"
proof (induction sp d rule: calm.induct)
  case (1 sp x b)
  then have "NEED n \<noteq> x" for n by (auto simp: is_NEED_def NEED_def)
  then show ?case using 1 by (auto simp: requests_kept_def)
next
  case (2 sp x)
  then have "DEFINED n \<noteq> x" for n by auto
  then show ?case using 2 by (auto simp: requests_kept_def)
next
  case (3 sp h)
  then show ?case by (simp add: inc_sound_def)
qed (auto simp: requests_kept_def is_def_def dest: declare_macros split: option.splits mbody.splits)

lemma requests_kept_trans: "requests_kept a b \<Longrightarrow> requests_kept b c \<Longrightarrow> requests_kept a c"
  by (simp add: requests_kept_def)

lemma calm_run:
  "list_all (calm sp) ds \<Longrightarrow> run tg inc ds s = Inr s' \<Longrightarrow> inc_sound sp inc ainc \<Longrightarrow> requests_kept s s'"
proof (induction ds arbitrary: s)
  case (Cons d ds)
  then obtain s1 where "step tg inc d s = Inr s1" "run tg inc ds s1 = Inr s'" by (auto split: sum.splits)
  moreover have "calm sp d" "list_all (calm sp) ds" using Cons.prems(1) by simp_all
  ultimately show ?case using Cons.IH Cons.prems(3) calm_step requests_kept_trans by blast
qed (simp add: requests_kept_def)

text \<open>Entering the block of a request whose type is not yet declared.\<close>

lemma knows_enter_block:
  assumes "knows sp A s" "own sp n = Some e" "cur A = None" "is_def s (NEED n)" "\<not> is_def s (DEFINED n)"
  shows "knows sp (A\<lparr>cur := Some n, absent := wanted (fst e) @ absent A, amd := (NEED n, True) # amd A, done_n := []\<rparr>) s"
proof -
  have "inv_for sp n s" using assms(1,3) by (simp add: knows_def)
  then have "\<forall>f \<in> set (wanted (fst e)). free_for (types s) f"
    using assms(2,5) by (auto simp: inv_for_def)
  then show ?thesis using assms by (auto simp: knows_def inv_for_def)
qed

lemma knows_done:
  "knows sp A s \<Longrightarrow> \<forall>n \<in> set ns. is_def s (NEED n) \<longrightarrow> is_def s (DEFINED n) \<Longrightarrow> knows sp (A\<lparr>done_n := ns\<rparr>) s"
  by (simp add: knows_def inv_for_def)

lemma chk_sound:
  assumes "inc_sound sp inc ainc" "wf_hspec sp"
  shows "chk sp tg ainc ds A = Some A' \<Longrightarrow> knows sp A s \<Longrightarrow> \<exists>s'. run tg inc ds s = Inr s' \<and> knows sp A' s'"
    and "chk1 sp tg ainc d A = Some A' \<Longrightarrow> knows sp A s \<Longrightarrow> \<exists>s'. step tg inc d s = Inr s' \<and> knows sp A' s'"
  using assms
proof (induction sp tg ainc ds A and sp tg ainc d A arbitrary: A' s and A' s rule: chk_chk1.induct)
  case (2 sp tg ainc d ds A)
  then obtain A1 where A1: "chk1 sp tg ainc d A = Some A1" "chk sp tg ainc ds A1 = Some A'"
    by (auto split: option.splits)
  obtain s1 where s1: "step tg inc d s = Inr s1" "knows sp A1 s1" using 2(1) A1(1) 2(4-6) by blast
  then obtain s' where "run tg inc ds s1 = Inr s'" "knows sp A' s'" using 2(2) A1 2(5,6) by blast
  then show ?case using s1 by simp
next
  case (3 sp tg ainc x b A)
  then show ?case using check_define_sound by (simp del: check_define.simps)
next
  case (4 sp tg ainc x A)
  then show ?case using undef_sound [of x sp A s] by (auto split: if_splits)
next
  case (5 sp tg ainc h A)
  then show ?case by (simp add: inc_sound_def)
next
  case (6 sp tg ainc c a b A)
  show ?case
  proof (cases "need_of c b")
    case (Some n)
    have c: "c = CAnd (Defined (NEED n)) (CNot (Defined (DEFINED n)))" "b = []"
      using need_of_eq [OF Some] by simp_all
    then have skip: "\<not> (is_def s (NEED n) \<and> \<not> is_def s (DEFINED n)) \<Longrightarrow> step tg inc (Cond c a b) s = Inr s"
      and fire: "is_def s (NEED n) \<and> \<not> is_def s (DEFINED n) \<Longrightarrow> step tg inc (Cond c a b) s = run tg inc a s"
      by (auto simp: is_def_def)
    obtain e where e: "cur A = None" "own sp n = Some e"
      using 6(6) Some by (auto split: option.splits if_splits)
    show ?thesis
    proof (cases "n \<in> set (done_n A)")
      case True
      then have "A' = learn e n A" using 6(6) Some e by simp
      moreover have "is_def s (NEED n) \<longrightarrow> is_def s (DEFINED n)" using True 6(7) by (simp add: knows_def)
      ultimately show ?thesis using skip learn_sound [OF 6(7) e(2)] e(1) by auto
    next
      case nd: False
      show ?thesis
      proof (cases "map_of (amd A) (NEED n) = Some False")
        case True
        then have "A' = A\<lparr>done_n := answered_for sp n (done_n A)\<rparr>" "\<not> is_def s (NEED n)"
          using 6(6,7) Some e nd by (auto simp: knows_def)
        moreover have "\<forall>m \<in> set (done_n A). is_def s (NEED m) \<longrightarrow> is_def s (DEFINED m)"
          using 6(7) by (simp add: knows_def)
        ultimately show ?thesis using skip knows_done [OF 6(7), of "answered_for sp n (done_n A)"] by (auto simp: answered_for_def)
      next
        case nf: False
        let ?A = "A\<lparr>cur := Some n, absent := wanted (fst e) @ absent A, amd := (NEED n, True) # amd A, done_n := []\<rparr>"
        obtain A1 A2 where A1: "chk sp tg ainc a ?A = Some A1" "cur A1 = None"
          "map_of (amd A1) (DEFINED n) = Some True" "meet A A1 = Some A2"
          "A' = learn e n (A2\<lparr>done_n := answered_for sp n (done_n A)\<rparr>)" and calm: "list_all (calm sp) a"
          using 6(6) Some e nd nf by (auto split: option.splits if_splits)
        have cur2: "cur A2 = None" using A1(4) e(1) by (auto simp: meet_def split: if_splits)
        have dn: "\<forall>m \<in> set (done_n A). is_def s (NEED m) \<longrightarrow> is_def s (DEFINED m)" using 6(7) by (simp add: knows_def)
        have fin: "knows sp A' t" if "knows sp A t \<or> knows sp A1 t" "is_def t (NEED n) \<longrightarrow> is_def t (DEFINED n)"
          "\<forall>m \<in> set (done_n A). is_def t (NEED m) \<longrightarrow> is_def t (DEFINED m)" for t
          using meet_sound [OF A1(4) that(1)] that(2,3) learn_sound [OF knows_done e(2)] cur2 A1(5) by (simp add: answered_for_def)
        show ?thesis
        proof (cases "is_def s (NEED n) \<and> \<not> is_def s (DEFINED n)")
          case True
          then have "knows sp ?A s" using knows_enter_block [OF 6(7) e(2,1)] by simp
          then obtain s' where s': "run tg inc a s = Inr s'" "knows sp A1 s'"
            using 6(5) [OF Some _ e(2)] A1(1) calm e(1) nd nf 6(8,9) by auto
          moreover have "is_def s' (DEFINED n)" using s'(2) A1(3) by (simp add: knows_def)
          moreover have "\<forall>m \<in> set (done_n A). is_def s' (NEED m) \<longrightarrow> is_def s' (DEFINED m)"
            using dn calm_run [OF calm s'(1) 6(8)] by (simp add: requests_kept_def)
          ultimately show ?thesis using fire True fin by auto
        next
          case False
          then show ?thesis using skip fin 6(7) dn by auto
        qed
      qed
    qed
  next
    case None
    then show ?thesis
      using 6(1-4) 6(6-9) acond_sound [OF 6(7)] meet_sound
      by (fastforce split: option.splits if_splits)
  qed
next
  case (8 sp tg ainc t n A)
  then show ?case using typedef_chk_sound by (auto simp: bind_eq_Some_conv split: if_splits)
next
  case (9 sp tg ainc t A)
  then show ?case using declare_sound by (auto simp: bind_eq_Some_conv split: if_splits)
qed (auto intro: check_type_sound)

section \<open>Headers that are not part of the port\<close>

text \<open>
  What is assumed of the headers of the compiler and of wasi-libc. Each one can be included at any point where no name
  has been given a layout it does not expect. It keeps
  the macros in \<open>keep\<close>, except for those it is said to settle, and the types declared so far; it declares the types
  listed for it; and a name of the port it declares, if at all, with the layout it has in the port (\<open>src\<close>). A header
  that is no client of \<open>bits/alltypes.h\<close> keeps the macros \<open>__NEED_T\<close> and \<open>__DEFINED_T\<close>; a client follows their
  convention.
\<close>

record prov =
  gives :: tenv
  settles :: "(string \<times> bool) list"
  client :: bool

definition lib_keeps :: "string list \<Rightarrow> prov \<Rightarrow> string \<Rightarrow> bool" where
  "lib_keeps keep p x \<longleftrightarrow> (List.member keep x \<or> \<not> client p \<and> (is_NEED x \<or> is_DEFINED x)) \<and> map_of (settles p) x = None"

definition lib_step :: "hspec \<Rightarrow> string list \<Rightarrow> tenv \<Rightarrow> prov \<Rightarrow> cstate \<Rightarrow> cstate \<Rightarrow> bool" where
  "lib_step sp keep src p s s' \<longleftrightarrow>
     (\<forall>x. lib_keeps keep p x \<longrightarrow> map_of (macros s') x = map_of (macros s) x) \<and>
     (\<forall>x b. map_of (settles p) x = Some b \<longrightarrow> is_def s' x = b) \<and>
     (\<forall>k v. map_of (types s) k = Some v \<longrightarrow> map_of (types s') k = Some v) \<and>
     (\<forall>e \<in> set src. free_for (types s) e \<longrightarrow> free_for (types s') e) \<and>
     (client p \<longrightarrow> (\<forall>n. inv_for sp n s \<longrightarrow> inv_for sp n s')) \<and>
     (givens_ok sp s \<longrightarrow> givens_ok sp s') \<and> tenv_le (gives p) (types s')"

definition lib_ok :: "hspec \<Rightarrow> string list \<Rightarrow> tenv \<Rightarrow> (string \<times> prov) list \<Rightarrow> (string \<Rightarrow> cstate \<Rightarrow> cerror + cstate) \<Rightarrow> bool" where
  "lib_ok sp keep src ps lib \<longleftrightarrow>
     (\<forall>h p s. map_of ps h = Some p \<longrightarrow> (givens_ok sp s \<longrightarrow> (\<exists>s'. lib h s = Inr s')) \<and>
        (\<forall>s'. lib h s = Inr s' \<longrightarrow> lib_step sp keep src p s s'))"

definition alib :: "hspec \<Rightarrow> string list \<Rightarrow> tenv \<Rightarrow> (string \<times> prov) list \<Rightarrow> string \<Rightarrow> abs \<Rightarrow> abs option" where
  "alib sp keep src ps h A = (case map_of ps h of None \<Rightarrow> None
     | Some p \<Rightarrow>
        if client p \<longrightarrow> cur A = None
        then Some (A\<lparr>amd := settles p @ filter (\<lambda>(x, b). lib_keeps keep p x) (amd A), have_t := gives p @ have_t A,
               absent := filter (\<lambda>e. List.member src e) (absent A), done_n := (if client p then [] else done_n A)\<rparr>)
        else None)"

lemma map_of_filter_key:
  "map_of (filter (\<lambda>(x, b). P x) xs) x = (if P x then map_of xs x else None)"
  by (induction xs) auto

lemma lib_step_inv:
  assumes st: "lib_step sp keep src p s s'" and n: "inv_for sp n s" "map_of (settles p) (DEFINED n) = None"
    and own: "\<forall>n st wk. own sp n = Some (st, wk) \<longrightarrow> set (wanted st) \<subseteq> set src"
  shows "inv_for sp n s'"
proof (cases "client p \<or> own sp n = None")
  case True
  moreover have "client p \<longrightarrow> inv_for sp n s'" using st n(1) unfolding lib_step_def by blast
  moreover have "own sp n = None \<longrightarrow> inv_for sp n s'" by (simp add: inv_for_def)
  ultimately show ?thesis by blast
next
  case False
  then obtain st wk where e: "own sp n = Some (st, wk)" by auto
  then have sub: "set (wanted st) \<subseteq> set src" using own by blast
  have "lib_keeps keep p (DEFINED n)" using False n(2) by (simp add: lib_keeps_def)
  then have "is_def s' (DEFINED n) = is_def s (DEFINED n)"
    using st by (simp add: lib_step_def is_def_def)
  moreover have "tenv_le a (types s')" if "tenv_le a (types s)" for a
    using tenv_le_keep [OF that] st by (simp add: lib_step_def)
  moreover have "free_for (types s') f" if "f \<in> set (wanted st)" "free_for (types s) f" for f
    using that st sub unfolding lib_step_def by blast
  ultimately show ?thesis using n(1) e unfolding inv_for_def by (simp split: if_splits)
qed

lemma settles_apart:
  assumes sets: "\<forall>(h, p) \<in> set ps. list_all (\<lambda>(x, b). \<not> reserved sp x \<and> \<not> is_NEED x \<and> \<not> is_DEFINED x) (settles p)"
    and p: "map_of ps h = Some p" and x: "reserved sp x \<or> is_NEED x \<or> is_DEFINED x"
  shows "map_of (settles p) x = None"
proof (rule ccontr)
  assume "map_of (settles p) x \<noteq> None"
  then obtain b where "(x, b) \<in> set (settles p)" by (auto dest: map_of_SomeD)
  then show False using sets x map_of_SomeD [OF p] by (fastforce simp: list_all_iff)
qed

lemma alib_sound:
  assumes ok: "lib_ok sp keep src ps lib" and res: "Collect (reserved sp) \<subseteq> set keep"
    and own: "\<forall>n st wk. own sp n = Some (st, wk) \<longrightarrow> set (wanted st) \<subseteq> set src"
    and qt: "\<forall>h. quiet sp h \<longrightarrow> (\<exists>p. map_of ps h = Some p \<and> \<not> client p)"
    and sets: "\<forall>(h, p) \<in> set ps. list_all (\<lambda>(x, b). \<not> reserved sp x \<and> \<not> is_NEED x \<and> \<not> is_DEFINED x) (settles p)"
  shows "inc_sound sp lib (alib sp keep src ps)"
  unfolding inc_sound_def
proof (intro conjI allI impI)
  fix h A A' s
  assume h: "alib sp keep src ps h A = Some A'" and k: "knows sp A s"
  obtain p where p: "map_of ps h = Some p" and cl: "client p \<longrightarrow> cur A = None"
    and A': "A' = A\<lparr>amd := settles p @ filter (\<lambda>(x, b). lib_keeps keep p x) (amd A), have_t := gives p @ have_t A,
        absent := filter (\<lambda>e. List.member src e) (absent A), done_n := (if client p then [] else done_n A)\<rparr>"
    using h by (auto simp: alib_def split: option.splits if_splits)
  have "givens_ok sp s" using k by (simp add: knows_def)
  then obtain s' where s': "lib h s = Inr s'" and st: "lib_step sp keep src p s s'"
    using ok p unfolding lib_ok_def by blast
  then have giv: "givens_ok sp s'" using \<open>givens_ok sp s\<close> by (simp add: lib_step_def)
  note out = settles_apart [OF sets p]
  have same: "map_of (macros s') x = map_of (macros s) x" if "lib_keeps keep p x" for x
    using st that by (simp add: lib_step_def)
  have nd: "is_NEED (NEED n)" for n by (simp add: is_NEED_def NEED_def)
  have amd: "is_def s' x = b" if "map_of (amd A') x = Some b" for x b
  proof (cases "map_of (settles p) x")
    case None
    then have "lib_keeps keep p x" "map_of (amd A) x = Some b"
      using that A' by (simp_all add: map_add_def map_of_filter_key split: if_splits)
    then show ?thesis using same k by (simp add: is_def_def knows_def)
  next
    case (Some c)
    then show ?thesis using that A' st by (simp add: lib_step_def map_add_def)
  qed
  have "agree (Collect (reserved sp)) (am A') (macros s')"
    using k same out res A' by (auto simp: knows_def agree_def lib_keeps_def)
  moreover have "tenv_le (have_t A') (types s')"
    using k st A' tenv_le_append tenv_le_keep [of "have_t A" "types s" "types s'"] by (simp add: lib_step_def knows_def)
  moreover have "\<forall>x \<in> set (absent A'). free_for (types s') x"
    using k st A' unfolding lib_step_def knows_def by simp
  moreover have "inv_for sp n s'" if "cur A' \<noteq> Some n" for n
    using that k A' lib_step_inv [OF st _ out own] by (simp add: knows_def)
  moreover have "is_def s' (DEFINED n)" if "n \<in> set (done_n A')" "is_def s' (NEED n)" for n
  proof -
    have "\<not> client p" "n \<in> set (done_n A)" using that(1) A' by (auto split: if_splits)
    then have "lib_keeps keep p (NEED n)" "lib_keeps keep p (DEFINED n)" using out nd by (simp_all add: lib_keeps_def)
    then show ?thesis using that(2) k same \<open>n \<in> set (done_n A)\<close> by (simp add: knows_def is_def_def)
  qed
  ultimately have "knows sp A' s'" using k A' amd giv by (simp add: knows_def)
  then show "\<exists>s'. lib h s = Inr s' \<and> knows sp A' s'" using s' by blast
next
  fix h s s'
  assume "quiet sp h" and s': "lib h s = Inr s'"
  then obtain p where p: "map_of ps h = Some p" "\<not> client p" using qt by blast
  then have st: "lib_step sp keep src p s s'" using ok s' unfolding lib_ok_def by blast
  have "is_NEED (NEED n)" for n by (simp add: is_NEED_def NEED_def)
  then have "lib_keeps keep p (NEED n)" "lib_keeps keep p (DEFINED n)" for n
    using settles_apart [OF sets p(1)] p(2) by (simp_all add: lib_keeps_def)
  then show "requests_kept s s'" using st by (simp add: requests_kept_def lib_step_def is_def_def)
qed

section \<open>What a header leaves alone\<close>

fun touched :: "dir list \<Rightarrow> string list" and touched1 :: "dir \<Rightarrow> string list" where
  "touched [] = []"
| "touched (d # ds) = touched1 d @ touched ds"
| "touched1 (Define x b) = [x]"
| "touched1 (Undef x) = [x]"
| "touched1 (Cond c a b) = touched a @ touched b"
| "touched1 _ = []"

fun undefs :: "dir list \<Rightarrow> string list" and undefs1 :: "dir \<Rightarrow> string list" where
  "undefs [] = []"
| "undefs (d # ds) = undefs1 d @ undefs ds"
| "undefs1 (Undef x) = [x]"
| "undefs1 (Cond c a b) = undefs a @ undefs b"
| "undefs1 _ = []"

fun included :: "dir list \<Rightarrow> string list" and included1 :: "dir \<Rightarrow> string list" where
  "included [] = []"
| "included (d # ds) = included1 d @ included ds"
| "included1 (Include h) = [h]"
| "included1 (Cond c a b) = included a @ included b"
| "included1 _ = []"

lemma touched_append: "touched (as @ bs) = touched as @ touched bs"
  by (induction as) auto

lemma undefs_append: "undefs (as @ bs) = undefs as @ undefs bs"
  by (induction as) auto

lemma included_append: "included (as @ bs) = included as @ included bs"
  by (induction as) auto

lemma chk_append:
  "chk sp tg inc (as @ bs) A = (case chk sp tg inc as A of None \<Rightarrow> None | Some A' \<Rightarrow> chk sp tg inc bs A')"
  by (induction as arbitrary: A) (auto split: option.splits)

lemma run_untouched:
  assumes "\<And>h s s'. h \<in> H \<Longrightarrow> inc h s = Inr s' \<Longrightarrow> map_of (macros s') x = map_of (macros s) x"
  shows "run tg inc ds s = Inr s' \<Longrightarrow> x \<notin> set (touched ds) \<Longrightarrow> set (included ds) \<subseteq> H \<Longrightarrow>
      map_of (macros s') x = map_of (macros s) x"
    and "step tg inc d s = Inr s' \<Longrightarrow> x \<notin> set (touched1 d) \<Longrightarrow> set (included1 d) \<subseteq> H \<Longrightarrow>
      map_of (macros s') x = map_of (macros s) x"
  using assms
proof (induction tg inc ds s and tg inc d s arbitrary: s' and s' rule: run_step.induct)
  case (2 tg inc d ds s)
  then show ?case by (fastforce split: sum.splits)
qed (auto simp: AList.delete_conv dest: declare_macros split: if_splits option.splits mbody.splits)

lemma declare_types:
  "enter n l s = Inr s' \<Longrightarrow> map_of (types s) k = Some v \<Longrightarrow> map_of (types s') k = Some v"
  "enter_tag tg t s = Inr s' \<Longrightarrow> map_of (types s) k = Some v \<Longrightarrow> map_of (types s') k = Some v"
  "typedef_name tg t n s = Inr s' \<Longrightarrow> map_of (types s) k = Some v \<Longrightarrow> map_of (types s') k = Some v"
  "declare_name tg t n s = Inr s' \<Longrightarrow> map_of (types s) k = Some v \<Longrightarrow> map_of (types s') k = Some v"
proof -
  show e: "enter n l s = Inr s' \<Longrightarrow> map_of (types s) k = Some v \<Longrightarrow> map_of (types s') k = Some v" for n l s s'
    by (auto simp: enter_def split: if_splits)
  have d: "enter_typedef n l s = Inr s' \<Longrightarrow> map_of (types s) k = Some v \<Longrightarrow> map_of (types s') k = Some v" for n l s s'
    by (auto simp: enter_typedef_def dest: e split: if_splits)
  show t: "enter_tag tg t s = Inr s' \<Longrightarrow> map_of (types s) k = Some v \<Longrightarrow> map_of (types s') k = Some v" for s s'
    by (induction tg t s rule: enter_tag.induct) (auto dest: e split: if_splits option.splits)
  show "typedef_name tg t n s = Inr s' \<Longrightarrow> map_of (types s) k = Some v \<Longrightarrow> map_of (types s') k = Some v"
    by (auto simp: typedef_name_def dest!: t d split: sum.splits if_splits)
  show "declare_name tg t n s = Inr s' \<Longrightarrow> map_of (types s) k = Some v \<Longrightarrow> map_of (types s') k = Some v"
    by (auto simp: declare_name_def split: if_splits)
qed

lemma run_types:
  assumes "\<And>h s s'. h \<in> H \<Longrightarrow> inc h s = Inr s' \<Longrightarrow> map_of (types s) k = Some v \<Longrightarrow> map_of (types s') k = Some v"
  shows "run tg inc ds s = Inr s' \<Longrightarrow> set (included ds) \<subseteq> H \<Longrightarrow> map_of (types s) k = Some v \<Longrightarrow> map_of (types s') k = Some v"
    and "step tg inc d s = Inr s' \<Longrightarrow> set (included1 d) \<subseteq> H \<Longrightarrow> map_of (types s) k = Some v \<Longrightarrow> map_of (types s') k = Some v"
  using assms
proof (induction tg inc ds s and tg inc d s arbitrary: s' and s' rule: run_step.induct)
  case (2 tg inc d ds s)
  then show ?case by (fastforce split: sum.splits)
qed (auto dest: declare_types split: if_splits option.splits mbody.splits)

fun tags_of :: "ctype \<Rightarrow> string list" where
  "tags_of (TAgg k tag fs) = [agg_key k tag]"
| "tags_of (TArr t e) = tags_of t"
| "tags_of _ = []"

fun declared :: "dir list \<Rightarrow> string list" and declared1 :: "dir \<Rightarrow> string list" where
  "declared [] = []"
| "declared (d # ds) = declared1 d @ declared ds"
| "declared1 (Typedef t n) = n # tags_of t"
| "declared1 (Declare t) = tags_of t"
| "declared1 (Cond c a b) = declared a @ declared b"
| "declared1 _ = []"

lemma declare_others:
  "enter_tag tg t s = Inr s' \<Longrightarrow> k \<notin> set (tags_of t) \<Longrightarrow> map_of (types s') k = map_of (types s) k"
  "typedef_name tg t n s = Inr s' \<Longrightarrow> k \<notin> set (n # tags_of t) \<Longrightarrow> map_of (types s') k = map_of (types s) k"
  "declare_name tg t n s = Inr s' \<Longrightarrow> types s' = types s"
proof -
  show t: "enter_tag tg t s = Inr s' \<Longrightarrow> k \<notin> set (tags_of t) \<Longrightarrow> map_of (types s') k = map_of (types s) k" for s s'
    by (induction tg t s rule: enter_tag.induct) (auto simp: enter_def split: if_splits option.splits)
  show "typedef_name tg t n s = Inr s' \<Longrightarrow> k \<notin> set (n # tags_of t) \<Longrightarrow> map_of (types s') k = map_of (types s) k"
    by (auto simp: typedef_name_def enter_typedef_def enter_def dest!: t split: sum.splits if_splits)
  show "declare_name tg t n s = Inr s' \<Longrightarrow> types s' = types s"
    by (auto simp: declare_name_def split: if_splits)
qed

lemma run_not_declared:
  assumes "\<And>h s s'. h \<in> H \<Longrightarrow> inc h s = Inr s' \<Longrightarrow> map_of (types s') k = map_of (types s) k"
  shows "run tg inc ds s = Inr s' \<Longrightarrow> k \<notin> set (declared ds) \<Longrightarrow> set (included ds) \<subseteq> H \<Longrightarrow> map_of (types s') k = map_of (types s) k"
    and "step tg inc d s = Inr s' \<Longrightarrow> k \<notin> set (declared1 d) \<Longrightarrow> set (included1 d) \<subseteq> H \<Longrightarrow> map_of (types s') k = map_of (types s) k"
  using assms
proof (induction tg inc ds s and tg inc d s arbitrary: s' and s' rule: run_step.induct)
  case (2 tg inc d ds s)
  then show ?case by (fastforce split: sum.splits)
next
  case (8 tg inc t n s)
  then show ?case using declare_others(2) by simp
qed (auto dest: declare_others split: if_splits option.splits mbody.splits)

text \<open>Once the block of a request has been passed, a request for it has been answered.\<close>

fun answers_of :: "dir \<Rightarrow> string list" where
  "answers_of (Cond c a b) = (case need_of c b of
     Some n \<Rightarrow> (if a \<noteq> [] \<and> last a = Define (DEFINED n) (Toks []) then [n] else [])
   | None \<Rightarrow> [])"
| "answers_of _ = []"

lemma run_last_define:
  assumes "run tg inc a s = Inr s'" "a \<noteq> []" "last a = Define x b"
  shows "is_def s' x"
proof -
  have "run tg inc (butlast a @ [Define x b]) s = Inr s'" using assms by (metis append_butlast_last_id)
  then show ?thesis by (auto simp: run_append is_def_def split: sum.splits)
qed

lemma answers_step:
  assumes "n \<in> set (answers_of d)" "step tg inc d s = Inr s'" "is_def s' (NEED n)"
    and "is_def s' (NEED n) \<longrightarrow> is_def s (NEED n)"
  shows "is_def s' (DEFINED n)"
proof -
  obtain c a b where d: "d = Cond c a b" "need_of c b = Some n" "a \<noteq> []" "last a = Define (DEFINED n) (Toks [])"
    using assms(1) by (cases d) (auto split: option.splits if_splits)
  then have c: "c = CAnd (Defined (NEED n)) (CNot (Defined (DEFINED n)))" "b = []" using need_of_eq by auto
  show ?thesis
  proof (cases "is_def s (DEFINED n)")
    case True
    then show ?thesis using assms(2) d(1) c by (simp add: is_def_def)
  next
    case False
    then have "run tg inc a s = Inr s'" using assms d(1) c by (simp add: is_def_def)
    then show ?thesis using run_last_define d(3,4) by blast
  qed
qed

lemma run_untouched_need:
  assumes "\<And>h s s'. h \<in> H \<Longrightarrow> inc h s = Inr s' \<Longrightarrow> requests_kept s s'"
  shows "run tg inc ds s = Inr s' \<Longrightarrow> list_all (\<lambda>x. \<not> is_NEED x) (touched ds) \<Longrightarrow> list_all (\<lambda>x. \<not> is_DEFINED x) (undefs ds)
      \<Longrightarrow> set (included ds) \<subseteq> H \<Longrightarrow> requests_kept s s'"
    and "step tg inc d s = Inr s' \<Longrightarrow> list_all (\<lambda>x. \<not> is_NEED x) (touched1 d) \<Longrightarrow> list_all (\<lambda>x. \<not> is_DEFINED x) (undefs1 d)
      \<Longrightarrow> set (included1 d) \<subseteq> H \<Longrightarrow> requests_kept s s'"
  using assms
proof (induction tg inc ds s and tg inc d s arbitrary: s' and s' rule: run_step.induct)
  case (2 tg inc d ds s)
  then obtain s1 where s1: "step tg inc d s = Inr s1" "run tg inc ds s1 = Inr s'" by (auto split: sum.splits)
  then have "requests_kept s s1" "requests_kept s1 s'" using 2 by auto
  then show ?case by (rule requests_kept_trans)
next
  case (3 tg inc x b s)
  then have "NEED n \<noteq> x" for n by (auto simp: is_NEED_def NEED_def)
  then show ?case using 3 by (auto simp: requests_kept_def)
next
  case (4 tg inc x s)
  then have "DEFINED n \<noteq> x" for n by auto
  then show ?case using 4 by (auto simp: requests_kept_def)
qed (auto simp: requests_kept_def is_def_def dest: declare_macros split: if_splits option.splits mbody.splits)

lemma run_answers:
  assumes inc: "\<And>h s s'. h \<in> H \<Longrightarrow> inc h s = Inr s' \<Longrightarrow> requests_kept s s'"
    and ds: "run tg inc ds s = Inr s'" "list_all (\<lambda>x. \<not> is_NEED x) (touched ds)" "list_all (\<lambda>x. \<not> is_DEFINED x) (undefs ds)"
      "set (included ds) \<subseteq> H"
    and n: "n \<in> set (concat (map answers_of ds))" "is_def s (NEED n)"
    and keep: "map_of (macros s') (NEED n) = map_of (macros s) (NEED n)"
  shows "is_def s' (DEFINED n)"
proof -
  obtain d where d: "d \<in> set ds" "n \<in> set (answers_of d)" using n(1) by auto
  then obtain as bs where ab: "ds = as @ d # bs" using split_list by metis
  obtain s1 s2 where s: "run tg inc as s = Inr s1" "step tg inc d s1 = Inr s2" "run tg inc bs s2 = Inr s'"
    using ds(1) ab by (auto simp: run_append split: sum.splits)
  have "requests_kept s1 s2" "requests_kept s2 s'"
    using run_untouched_need [OF inc] s ds(2-4) ab by (auto simp: touched_append undefs_append included_append)
  moreover have "is_def s' (NEED n)" using n(2) keep by (simp add: is_def_def)
  ultimately show ?thesis using answers_step [OF d(2) s(2)] by (simp add: requests_kept_def)
qed

text \<open>A library of headers as the assumptions describe it; it refuses a state with an unexpected layout.\<close>

fun settle :: "(string \<times> bool) list \<Rightarrow> macros \<Rightarrow> macros" where
  "settle [] ms = ms"
| "settle ((x, b) # xs) ms = (if b then (x, Toks []) # settle xs ms else AList.delete x (settle xs ms))"

definition table_lib :: "hspec \<Rightarrow> (string \<times> prov) list \<Rightarrow> string \<Rightarrow> cstate \<Rightarrow> cerror + cstate" where
  "table_lib sp ps h s = (case map_of ps h of None \<Rightarrow> Inl (ErrorDirective h)
     | Some p \<Rightarrow> if entries_in (filter (\<lambda>(k, l). map_of (types s) k \<noteq> None) (gives p)) (types s)
         then Inr (s\<lparr>macros := settle (settles p) (macros s),
           types := filter (\<lambda>(k, l). map_of (types s) k = None) (gives p) @ types s\<rparr>) else Inl (Redefined h))"

lemma map_of_settle:
  "map_of (settle xs ms) x = (case map_of xs x of None \<Rightarrow> map_of ms x | Some b \<Rightarrow> if b then Some (Toks []) else None)"
  by (induction xs ms rule: settle.induct) (auto simp: AList.delete_conv)

lemma table_lib_types:
  assumes "table_lib sp ps h s = Inr s'" "map_of ps h = Some p"
  shows "map_of (types s') k = (case map_of (types s) k of Some v \<Rightarrow> Some v | None \<Rightarrow> map_of (gives p) k)"
proof -
  have "types s' = filter (\<lambda>(k, l). map_of (types s) k = None) (gives p) @ types s"
    using assms by (auto simp: table_lib_def split: if_splits)
  then show ?thesis by (auto simp: map_add_def map_of_filter_key split: option.splits)
qed

lemma table_lib_ok:
  assumes giv: "\<And>h p k l. map_of ps h = Some p \<Longrightarrow> (k, Some l) \<in> set (gives p) \<Longrightarrow> given sp k = Some l"
    and free: "\<And>h p e l. map_of ps h = Some p \<Longrightarrow> e \<in> set src \<Longrightarrow> map_of (gives p) (fst e) = Some l \<Longrightarrow> snd e = l \<and> l \<noteq> None"
    and apart: "\<And>h p n. map_of ps h = Some p \<Longrightarrow> client p \<Longrightarrow> map_of (settles p) (DEFINED n) = None"
    and wk: "\<And>n st wk. own sp n = Some (st, wk) \<Longrightarrow> set (wanted st) \<subseteq> set src"
    and gnone: "\<And>h p k. map_of ps h = Some p \<Longrightarrow> (k, None) \<in> set (gives p) \<Longrightarrow> given sp k = None"
  shows "lib_ok sp keep src ps (table_lib sp ps)"
  unfolding lib_ok_def
proof (intro allI impI conjI)
  fix h p s assume p: "map_of ps h = Some p" and s: "givens_ok sp s"
  have "l = None \<or> v = l" if "(k, l) \<in> set (gives p)" "map_of (types s) k = Some v" for k l v
  proof (cases l)
    case (Some m)
    then have "given sp k = Some m" using giv [OF p] that(1) by simp
    then show ?thesis using s that(2) Some unfolding givens_ok_def by blast
  qed simp
  then have "entries_in (filter (\<lambda>(k, l). map_of (types s) k \<noteq> None) (gives p)) (types s)"
    by (auto simp: entries_in_def list_all_iff)
  then show "\<exists>s'. table_lib sp ps h s = Inr s'" using p by (simp add: table_lib_def)
next
  fix h p s s' assume p: "map_of ps h = Some p" and s': "table_lib sp ps h s = Inr s'"
  note ty = table_lib_types [OF s' p]
  have ma: "macros s' = settle (settles p) (macros s)" using s' p by (auto simp: table_lib_def split: if_splits)
  have ent: "entries_in (filter (\<lambda>(k, l). map_of (types s) k \<noteq> None) (gives p)) (types s)"
    using s' p by (auto simp: table_lib_def split: if_splits)
  have fr: "free_for (types s') e" if "e \<in> set src" "free_for (types s) e" for e
    using that free [OF p that(1)] ty [of "fst e"] by (auto simp: free_for_def split: option.splits)
  have le: "tenv_le a (types s')" if "tenv_le a (types s)" for a
    using tenv_le_keep [OF that] ty by simp
  have inv: "inv_for sp n s'" if "inv_for sp n s" "client p" for n
  proof (cases "own sp n")
    case (Some e)
    obtain st w where e: "e = (st, w)" by (cases e)
    have "is_def s' (DEFINED n) = is_def s (DEFINED n)"
      using apart [OF p that(2)] ma by (simp add: is_def_def map_of_settle)
    then show ?thesis
      using that(1) Some e fr le wk [of n st w] unfolding inv_for_def by (auto split: if_splits)
  qed (simp add: inv_for_def)
  have "tenv_le (gives p) (types s')"
    unfolding tenv_le_def
  proof (intro allI impI)
    fix k l assume k: "map_of (gives p) k = Some l"
    show "\<exists>v'. map_of (types s') k = Some v' \<and> (l = None \<or> v' = l)"
    proof (cases "map_of (types s) k")
      case None
      then show ?thesis using ty [of k] k by simp
    next
      case (Some v)
      then have "(k, l) \<in> set (filter (\<lambda>(k, l). map_of (types s) k \<noteq> None) (gives p))" using k by (simp add: map_of_SomeD)
      then have "case (k, l) of (k, l) \<Rightarrow> case map_of (types s) k of None \<Rightarrow> False | Some v \<Rightarrow> l = None \<or> v = l"
        using ent unfolding entries_in_def list_all_iff by blast
      then have "l = None \<or> v = l" using Some by simp
      then show ?thesis using ty [of k] Some by simp
    qed
  qed
  moreover have "givens_ok sp s'" if "givens_ok sp s"
    unfolding givens_ok_def
  proof (intro allI impI)
    fix k l v assume kl: "given sp k = Some l" and v: "map_of (types s') k = Some v"
    show "v = Some l"
    proof (cases "map_of (types s) k")
      case None
      then have "(k, v) \<in> set (gives p)" using ty [of k] v by (simp add: map_of_SomeD)
      then show ?thesis using giv [OF p] kl gnone p by (cases v) auto
    next
      case (Some u)
      then have "v = u" using v ty [of k] by simp
      then show ?thesis using that kl Some unfolding givens_ok_def by blast
    qed
  qed
  ultimately show "lib_step sp keep src p s s'"
    using fr inv ty ma by (auto simp: lib_step_def lib_keeps_def is_def_def map_of_settle)
qed

end
