(* ===== verification/All_Types.thy ===== *)
theory All_Types
  imports Cpp
begin

text \<open>
  \<open>sysfix/bits/alltypes.h\<close>, the header that declares the basic types of the C library on request. It is kept in the
  order of the file, one definition per group of its blocks. \<open>need n ds\<close> is the block
  \<open>#if defined(__NEED_n) && !defined(__DEFINED_n) ds #define __DEFINED_n #endif\<close>.

  The headers of the compiler and of wasi-libc that it includes are the parameter \<open>lib\<close>; \<open>lib_ok\<close> is what is
  assumed of them. Shown: whatever types are requested, in any sequence of inclusions, each one is declared, once, and
  with the layout of \<open>alltypes_table\<close>; the exception is \<open>pthread_barrier_t\<close>, whose block in this port uses
  types that it does not request.
\<close>

section \<open>The header\<close>

text \<open>\<open>sizeof(long)==8?a:b\<close>\<close>

definition if_long8 :: "int \<Rightarrow> int \<Rightarrow> aexpr" where
  "if_long8 a b = ACond (ABin Eq_op (SizeOf (TSpec [''long''])) (AVal (Lit 8))) (AVal (Lit a)) (AVal (Lit b))"

definition alltypes_lower :: "dir list" where
  "alltypes_lower =
     [Define ''_Addr'' (Toks [''long'']),
      Define ''_Int64'' (Toks [''long'', ''long'']),
      Define ''_Reg'' (Toks [''long'', ''long'']),
      Define ''__BYTE_ORDER'' (Toks [''__BYTE_ORDER__'']),
      Define ''__LONG_MAX'' (Toks [''__LONG_MAX__'']),
      need ''wchar_t'' [Define ''__need_wchar_t'' (Toks []), Include ''stddef.h''],
      need ''wint_t'' [Define ''__need_wint_t'' (Toks []), Include ''stddef.h''],
      need ''float_t'' [Typedef (TSpec [''float'']) ''float_t''],
      need ''double_t'' [Typedef (TSpec [''double'']) ''double_t''],
      need ''max_align_t'' [Define ''__need_max_align_t'' (Toks []), Include ''stddef.h''],
      need ''time_t'' [Include ''__typedef_time_t.h''],
      need ''suseconds_t'' [Include ''__typedef_suseconds_t.h''],
      need ''clockid_t'' [Include ''__typedef_clockid_t.h''],
      need ''sigset_t'' [Include ''__typedef_sigset_t.h''],
      need ''clock_t'' [Include ''__typedef_clock_t.h'']]"

definition alltypes_addr :: "dir list" where
  "alltypes_addr =
     [Define ''__LITTLE_ENDIAN'' (Val (Lit 1234)),
      Define ''__BIG_ENDIAN'' (Val (Lit 4321)),
      Define ''__USE_TIME_BITS64'' (Val (Lit 1)),
      need ''size_t'' [Typedef (TSpec [''unsigned'', ''_Addr'']) ''size_t''],
      need ''uintptr_t'' [Typedef (TSpec [''unsigned'', ''_Addr'']) ''uintptr_t''],
      need ''ptrdiff_t'' [Typedef (TSpec [''_Addr'']) ''ptrdiff_t''],
      need ''ssize_t'' [Typedef (TSpec [''_Addr'']) ''ssize_t''],
      need ''intptr_t'' [Typedef (TSpec [''_Addr'']) ''intptr_t''],
      need ''regoff_t'' [Typedef (TSpec [''_Addr'']) ''regoff_t''],
      need ''register_t'' [Typedef (TSpec [''_Reg'']) ''register_t'']]"

definition alltypes_time :: "dir list" where
  "alltypes_time =
     [Cond (Defined ''__wasilibc_unmodified_upstream'')
        [need ''time_t'' [Typedef (TSpec [''_Int64'']) ''time_t''],
         need ''suseconds_t'' [Typedef (TSpec [''_Int64'']) ''suseconds_t'']]
        [need ''time_t'' [Include ''__typedef_time_t.h''],
         need ''suseconds_t'' [Include ''__typedef_suseconds_t.h'']]]"

definition alltypes_int :: "dir list" where
  "alltypes_int =
     [need ''int8_t'' [Typedef (TSpec [''signed'', ''char'']) ''int8_t''],
      need ''int16_t'' [Typedef (TSpec [''signed'', ''short'']) ''int16_t''],
      need ''int32_t'' [Typedef (TSpec [''signed'', ''int'']) ''int32_t''],
      need ''int64_t'' [Typedef (TSpec [''signed'', ''_Int64'']) ''int64_t''],
      need ''intmax_t'' [Typedef (TSpec [''signed'', ''_Int64'']) ''intmax_t''],
      need ''uint8_t'' [Typedef (TSpec [''unsigned'', ''char'']) ''uint8_t''],
      need ''uint16_t'' [Typedef (TSpec [''unsigned'', ''short'']) ''uint16_t''],
      need ''uint32_t'' [Typedef (TSpec [''unsigned'', ''int'']) ''uint32_t''],
      need ''uint64_t'' [Typedef (TSpec [''unsigned'', ''_Int64'']) ''uint64_t''],
      need ''u_int64_t'' [Typedef (TSpec [''unsigned'', ''_Int64'']) ''u_int64_t''],
      need ''uintmax_t'' [Typedef (TSpec [''unsigned'', ''_Int64'']) ''uintmax_t'']]"

definition alltypes_file :: "dir list" where
  "alltypes_file =
     [need ''mode_t'' [Typedef (TSpec [''unsigned'']) ''mode_t''],
      need ''nlink_t'' [Typedef (TSpec [''unsigned'', ''_Reg'']) ''nlink_t''],
      need ''off_t'' [Typedef (TSpec [''_Int64'']) ''off_t''],
      need ''ino_t'' [Typedef (TSpec [''unsigned'', ''_Int64'']) ''ino_t''],
      need ''dev_t'' [Typedef (TSpec [''unsigned'', ''_Int64'']) ''dev_t''],
      need ''blksize_t'' [Typedef (TSpec [''long'']) ''blksize_t''],
      need ''blkcnt_t'' [Typedef (TSpec [''_Int64'']) ''blkcnt_t''],
      need ''fsblkcnt_t'' [Typedef (TSpec [''unsigned'', ''_Int64'']) ''fsblkcnt_t''],
      need ''fsfilcnt_t'' [Typedef (TSpec [''unsigned'', ''_Int64'']) ''fsfilcnt_t'']]"

definition alltypes_wide :: "dir list" where
  "alltypes_wide =
     [need ''wint_t'' [Typedef (TSpec [''unsigned'']) ''wint_t''],
      need ''wctype_t'' [Typedef (TSpec [''unsigned'', ''long'']) ''wctype_t''],
      need ''timer_t'' [Typedef (TPtr (TSpec [''void''])) ''timer_t''],
      need ''clockid_t'' [Typedef (TSpec [''int'']) ''clockid_t''],
      need ''clock_t'' [Typedef (TSpec [''long'']) ''clock_t'']]"

definition alltypes_struct_time :: "dir list" where
  "alltypes_struct_time =
     [Cond (Defined ''__wasilibc_unmodified_upstream'')
        [need ''struct_timeval'' [Declare (TAgg Struct ''timeval'' [Field ''tv_sec'' (TSpec [''time_t'']),
              Field ''tv_usec'' (TSpec [''suseconds_t''])])],
         need ''struct_timespec'' [Declare (TAgg Struct ''timespec'' [Field ''tv_sec'' (TSpec [''time_t'']),
               BitPad (TSpec [''int'']) (ABin Times_op (ABin Times_op (AVal (Lit 8))
               (ABin Minus_op (SizeOf (TSpec [''time_t''])) (SizeOf (TSpec [''long'']))))
               (AVal (MBin Eq_op (Ident ''__BYTE_ORDER'') (Lit 4321)))), Field ''tv_nsec'' (TSpec [''long'']),
               BitPad (TSpec [''int'']) (ABin Times_op (ABin Times_op (AVal (Lit 8))
               (ABin Minus_op (SizeOf (TSpec [''time_t''])) (SizeOf (TSpec [''long'']))))
               (AVal (MBin Ne_op (Ident ''__BYTE_ORDER'') (Lit 4321))))])]]
        [Include ''__struct_timeval.h'',
         Include ''__struct_timespec.h'']]"

definition alltypes_ids :: "dir list" where
  "alltypes_ids =
     [need ''pid_t'' [Typedef (TSpec [''int'']) ''pid_t''],
      need ''id_t'' [Typedef (TSpec [''unsigned'']) ''id_t''],
      need ''uid_t'' [Typedef (TSpec [''unsigned'']) ''uid_t''],
      need ''gid_t'' [Typedef (TSpec [''unsigned'']) ''gid_t''],
      need ''key_t'' [Typedef (TSpec [''int'']) ''key_t''],
      need ''useconds_t'' [Typedef (TSpec [''unsigned'']) ''useconds_t'']]"

definition alltypes_pthread :: "dir list" where
  "alltypes_pthread =
     [Cond (Defined ''__cplusplus'')
        [need ''pthread_t'' [Typedef (TSpec [''unsigned'', ''long'']) ''pthread_t'']]
        [need ''pthread_t'' [Typedef (TPtr (TSpec [''struct'', ''__pthread''])) ''pthread_t'']],
      need ''pthread_once_t'' [Typedef (TSpec [''int'']) ''pthread_once_t''],
      need ''pthread_key_t'' [Typedef (TSpec [''unsigned'']) ''pthread_key_t''],
      need ''pthread_spinlock_t'' [Typedef (TSpec [''int'']) ''pthread_spinlock_t''],
      need ''pthread_mutexattr_t''
            [Typedef (TAgg Struct [] [Field ''__attr'' (TSpec [''unsigned''])]) ''pthread_mutexattr_t''],
      need ''pthread_condattr_t''
            [Typedef (TAgg Struct [] [Field ''__attr'' (TSpec [''unsigned''])]) ''pthread_condattr_t''],
      need ''pthread_barrierattr_t''
            [Typedef (TAgg Struct [] [Field ''__attr'' (TSpec [''unsigned''])]) ''pthread_barrierattr_t''],
      need ''pthread_rwlockattr_t''
            [Typedef (TAgg Struct [] [Field ''__attr'' (TArr (TSpec [''unsigned'']) (AVal (Lit 2)))]) ''pthread_rwlockattr_t'']]"

definition alltypes_stdio :: "dir list" where
  "alltypes_stdio =
     [Cond (Defined ''__wasilibc_unmodified_upstream'')
        [need ''struct__IO_FILE'' [Declare (TAgg Struct ''_IO_FILE'' [Field ''__x'' (TSpec [''char''])])]]
        [],
      need ''FILE'' [Typedef (TSpec [''struct'', ''_IO_FILE'']) ''FILE''],
      need ''va_list'' [Typedef (TSpec [''__builtin_va_list'']) ''va_list''],
      need ''__isoc_va_list'' [Typedef (TSpec [''__builtin_va_list'']) ''__isoc_va_list''],
      need ''mbstate_t'' [Typedef (TAgg Struct ''__mbstate_t'' [Field ''__opaque1'' (TSpec [''unsigned'']),
            Field ''__opaque2'' (TSpec [''unsigned''])]) ''mbstate_t''],
      need ''locale_t'' [Typedef (TPtr (TSpec [''struct'', ''__locale_struct''])) ''locale_t''],
      need ''sigset_t''
            [Typedef (TAgg Struct ''__sigset_t'' [Field ''__bits'' (TArr (TSpec [''unsigned'', ''long'']) (ABin Div_op (AVal (Lit 128)) (SizeOf (TSpec [''long'']))))]) ''sigset_t'']]"

definition alltypes_misc :: "dir list" where
  "alltypes_misc =
     [Cond (Defined ''__wasilibc_unmodified_upstream'')
        [need ''struct_iovec'' [Declare (TAgg Struct ''iovec'' [Field ''iov_base'' (TPtr (TSpec [''void''])),
              Field ''iov_len'' (TSpec [''size_t''])])]]
        [Include ''__struct_iovec.h''],
      need ''struct_winsize''
            [Declare (TAgg Struct ''winsize'' [Field ''ws_row'' (TSpec [''unsigned'', ''short'']),
            Field ''ws_col'' (TSpec [''unsigned'', ''short'']),
            Field ''ws_xpixel'' (TSpec [''unsigned'', ''short'']),
            Field ''ws_ypixel'' (TSpec [''unsigned'', ''short''])])],
      need ''socklen_t'' [Typedef (TSpec [''unsigned'']) ''socklen_t''],
      need ''sa_family_t'' [Typedef (TSpec [''unsigned'', ''short'']) ''sa_family_t'']]"

definition alltypes_locks :: "dir list" where
  "alltypes_locks =
     [need ''pthread_attr_t''
           [Typedef (TAgg Struct [] [Field ''__u'' (TAgg Union [] [Field ''__i'' (TArr (TSpec [''int'']) (if_long8 14 9)),
           Field ''__vi'' (TArr (TSpec [''volatile'', ''int'']) (if_long8 14 9)),
           Field ''__s'' (TArr (TSpec [''unsigned'', ''long'']) (if_long8 7 9))])]) ''pthread_attr_t''],
      need ''pthread_mutex_t''
            [Typedef (TAgg Struct [] [Field ''__u'' (TAgg Union [] [Field ''__i'' (TArr (TSpec [''int'']) (if_long8 10 6)),
            Field ''__vi'' (TArr (TSpec [''volatile'', ''int'']) (if_long8 10 6)),
            Field ''__p'' (TArr (TPtr (TSpec [''volatile'', ''void''])) (if_long8 5 6))])]) ''pthread_mutex_t''],
      need ''mtx_t''
            [Typedef (TAgg Struct [] [Field ''__u'' (TAgg Union [] [Field ''__i'' (TArr (TSpec [''int'']) (if_long8 10 6)),
            Field ''__vi'' (TArr (TSpec [''volatile'', ''int'']) (if_long8 10 6)),
            Field ''__p'' (TArr (TPtr (TSpec [''volatile'', ''void''])) (if_long8 5 6))])]) ''mtx_t''],
      need ''pthread_cond_t''
            [Typedef (TAgg Struct [] [Field ''__u'' (TAgg Union [] [Field ''__i'' (TArr (TSpec [''int'']) (AVal (Lit 12))),
            Field ''__vi'' (TArr (TSpec [''volatile'', ''int'']) (AVal (Lit 12))),
            Field ''__p'' (TArr (TPtr (TSpec [''void''])) (ABin Div_op (ABin Times_op (AVal (Lit 12)) (SizeOf (TSpec [''int'']))) (SizeOf (TPtr (TSpec [''void''])))))])]) ''pthread_cond_t''],
      need ''cnd_t''
            [Typedef (TAgg Struct [] [Field ''__u'' (TAgg Union [] [Field ''__i'' (TArr (TSpec [''int'']) (AVal (Lit 12))),
            Field ''__vi'' (TArr (TSpec [''volatile'', ''int'']) (AVal (Lit 12))),
            Field ''__p'' (TArr (TPtr (TSpec [''void''])) (ABin Div_op (ABin Times_op (AVal (Lit 12)) (SizeOf (TSpec [''int'']))) (SizeOf (TPtr (TSpec [''void''])))))])]) ''cnd_t''],
      need ''pthread_rwlock_t''
            [Typedef (TAgg Struct [] [Field ''__u'' (TAgg Union [] [Field ''__i'' (TArr (TSpec [''int'']) (if_long8 14 8)),
            Field ''__vi'' (TArr (TSpec [''volatile'', ''int'']) (if_long8 14 8)),
            Field ''__p'' (TArr (TPtr (TSpec [''void''])) (if_long8 7 8))])]) ''pthread_rwlock_t'']]"

definition alltypes_barrier :: "dir list" where
  "alltypes_barrier =
     [need ''pthread_barrier_t'' [Include ''stdbool.h'',
        Typedef (TAgg Struct ''pg_pthread_barrier''
          [Field ''sense'' (TSpec [''bool'']), Field ''count'' (TSpec [''int'']), Field ''arrived'' (TSpec [''int'']),
           Field ''mutex'' (TSpec [''pthread_mutex_t'']), Field ''cond'' (TSpec [''pthread_cond_t''])])
          ''pthread_barrier_t'']]"

definition alltypes_undef :: "dir list" where
  "alltypes_undef =
     [Undef ''_Addr'',
      Undef ''_Int64'',
      Undef ''_Reg'']"

definition alltypes_h :: "dir list" where
  "alltypes_h = alltypes_lower @ alltypes_addr @ alltypes_time @ alltypes_int @ alltypes_file @ alltypes_wide
     @ alltypes_struct_time @ alltypes_ids @ alltypes_pthread @ alltypes_stdio @ alltypes_misc @ alltypes_locks
     @ alltypes_barrier @ alltypes_undef"

lemmas alltypes_defs = alltypes_lower_def alltypes_addr_def alltypes_time_def alltypes_int_def alltypes_file_def
  alltypes_wide_def alltypes_struct_time_def alltypes_ids_def alltypes_pthread_def alltypes_stdio_def
  alltypes_misc_def alltypes_locks_def alltypes_barrier_def alltypes_undef_def

section \<open>The table of types\<close>

text \<open>
  For every name that can be requested on WASI, the type names and tags that its block declares, with size and
  alignment on wasm32, and the names that another header declares for it.
\<close>

definition prim :: "string \<Rightarrow> nat \<Rightarrow> nat \<Rightarrow> string \<times> tenv \<times> tenv" where
  "prim n s a = (n, [(n, Some (s, a))], [])"

definition lower :: "string \<Rightarrow> layout option \<Rightarrow> string \<times> tenv \<times> tenv" where
  "lower n l = (n, [], [(n, l)])"

definition table_lower :: "(string \<times> tenv \<times> tenv) list" where
  "table_lower =
     [(''wchar_t'', [], []), (''wint_t'', [], []), (''max_align_t'', [], []), lower ''time_t'' (Some (8, 8)),
      lower ''suseconds_t'' None, lower ''clockid_t'' None, lower ''sigset_t'' None, lower ''clock_t'' None]"

definition table_addr :: "(string \<times> tenv \<times> tenv) list" where
  "table_addr =
     [prim ''float_t'' 4 4, prim ''double_t'' 8 8, prim ''size_t'' 4 4, prim ''uintptr_t'' 4 4,
      prim ''ptrdiff_t'' 4 4, prim ''ssize_t'' 4 4, prim ''intptr_t'' 4 4, prim ''regoff_t'' 4 4,
      prim ''register_t'' 8 8]"

definition table_int :: "(string \<times> tenv \<times> tenv) list" where
  "table_int =
     [prim ''int8_t'' 1 1, prim ''int16_t'' 2 2, prim ''int32_t'' 4 4, prim ''int64_t'' 8 8,
      prim ''intmax_t'' 8 8, prim ''uint8_t'' 1 1, prim ''uint16_t'' 2 2, prim ''uint32_t'' 4 4,
      prim ''uint64_t'' 8 8, prim ''u_int64_t'' 8 8, prim ''uintmax_t'' 8 8]"

definition table_file :: "(string \<times> tenv \<times> tenv) list" where
  "table_file =
     [prim ''mode_t'' 4 4, prim ''nlink_t'' 8 8, prim ''off_t'' 8 8, prim ''ino_t'' 8 8, prim ''dev_t'' 8 8,
      prim ''blksize_t'' 4 4, prim ''blkcnt_t'' 8 8, prim ''fsblkcnt_t'' 8 8, prim ''fsfilcnt_t'' 8 8]"

definition table_ids :: "(string \<times> tenv \<times> tenv) list" where
  "table_ids =
     [prim ''wctype_t'' 4 4, prim ''timer_t'' 4 4, prim ''pid_t'' 4 4, prim ''id_t'' 4 4, prim ''uid_t'' 4 4,
      prim ''gid_t'' 4 4, prim ''key_t'' 4 4, prim ''useconds_t'' 4 4]"

definition table_pthread :: "(string \<times> tenv \<times> tenv) list" where
  "table_pthread =
     [prim ''pthread_t'' 4 4, prim ''pthread_once_t'' 4 4, prim ''pthread_key_t'' 4 4,
      prim ''pthread_spinlock_t'' 4 4, prim ''pthread_mutexattr_t'' 4 4, prim ''pthread_condattr_t'' 4 4,
      prim ''pthread_barrierattr_t'' 4 4, prim ''pthread_rwlockattr_t'' 8 4]"

definition table_stdio :: "(string \<times> tenv \<times> tenv) list" where
  "table_stdio =
     [(''FILE'', [(''FILE'', None)], []), prim ''va_list'' 4 4, prim ''__isoc_va_list'' 4 4,
      (''mbstate_t'', [(''mbstate_t'', Some (8, 4)), (''struct __mbstate_t'', Some (8, 4))], []),
      prim ''locale_t'' 4 4, (''struct_winsize'', [(''struct winsize'', Some (8, 2))], []),
      prim ''socklen_t'' 4 4, prim ''sa_family_t'' 2 2]"

definition table_locks :: "(string \<times> tenv \<times> tenv) list" where
  "table_locks =
     [prim ''pthread_attr_t'' 36 4, prim ''pthread_mutex_t'' 24 4, prim ''mtx_t'' 24 4,
      prim ''pthread_cond_t'' 48 4, prim ''cnd_t'' 48 4, prim ''pthread_rwlock_t'' 32 4,
      (''pthread_barrier_t'', [(''pthread_barrier_t'', Some (84, 4)), (''struct pg_pthread_barrier'', Some (84, 4))], [])]"

definition alltypes_table :: "(string \<times> tenv \<times> tenv) list" where
  "alltypes_table = table_lower @ table_addr @ table_int @ table_file @ table_ids @ table_pthread @ table_stdio @ table_locks"


section \<open>Names\<close>

text \<open>
  The tokens that the types in the headers of the port are written with. None of them is a macro, except for the
  three that \<open>alltypes.h\<close> defines and undefines, and for the alignment that the compiler predefines.
\<close>

definition c_keywords :: "string list" where
  "c_keywords =
     [''int'', ''unsigned'', ''long'', ''char'', ''void'', ''struct'', ''short'', ''signed'', ''const'', ''volatile'', ''union'',
      ''float'', ''double'', ''...'', ''__builtin_va_list'', ''_Bool'',
      ''_Addr'', ''_Int64'', ''_Reg'', ''__BIGGEST_ALIGNMENT__'', ''_REDIR_TIME64'']"

definition c_typenames :: "string list" where
  "c_typenames =
     [''size_t'', ''FILE'', ''ssize_t'', ''off_t'', ''__isoc_va_list'', ''fpos_t'', ''time_t'', ''pid_t'', ''uid_t'', ''gid_t'',
      ''mode_t'', ''key_t'', ''socklen_t'', ''uint32_t'', ''sa_family_t'', ''suseconds_t'', ''pthread_mutex_t'',
      ''pthread_cond_t'', ''bool'', ''cookie_read_function_t'', ''cookie_write_function_t'', ''cookie_seek_function_t'',
      ''cookie_close_function_t'', ''cookie_io_functions_t'', ''__jmp_buf'', ''jmp_buf'', ''sigjmp_buf'', ''Dl_info'']"

definition c_tags :: "string list" where
  "c_tags =
     [''_IO_FILE'', ''__pthread'', ''__locale_struct'', ''sockaddr'', ''addrinfo'', ''netent'', ''hostent'', ''servent'',
      ''protoent'', ''passwd'', ''timespec'', ''ipc_perm'', ''shmid_ds'', ''sembuf'']"

text \<open>The macros among them, inside and outside of \<open>alltypes.h\<close>.\<close>

definition token_macros :: macros where
  "token_macros = [(''__BIGGEST_ALIGNMENT__'', Val (Lit 16))]"

definition UPSTREAM :: string where "UPSTREAM = ''__wasilibc_unmodified_upstream''"

definition header_macros :: "string list" where
  "header_macros = [UPSTREAM, NEED ''pthread_barrier_t'', ''__cplusplus'', ''_GNU_SOURCE'', ''_BSD_SOURCE'', ''_POSIX_SOURCE'', ''_POSIX_C_SOURCE'',
      ''_XOPEN_SOURCE'', ''_LARGEFILE64_SOURCE'', ''_REENTRANT'', ''_WASI_EMULATED_MMAN'',
      ''_STDIO_H'', ''_NETDB_H'', ''_SYS_MMAN_H'', ''_SYS_SHM_H'', ''_SYS_IPC_H'', ''_SYS_SEM_H'', ''_SETJMP_H'',
      ''_DLFCN_H'', ''_WASIX_PWD_H'']"

definition keepers :: "string list" where
  "keepers = c_keywords @ c_typenames @ c_tags @ header_macros"

definition is_token :: "string \<Rightarrow> bool" where
  "is_token t \<longleftrightarrow> List.member c_keywords t \<or> List.member c_typenames t \<or> List.member c_tags t"

text \<open>The same by first letter, for evaluation.\<close>

definition tokens_underscore :: "string list" where
  "tokens_underscore =
     [''__builtin_va_list'', ''_Bool'', ''_Addr'', ''_Int64'', ''_Reg'', ''__BIGGEST_ALIGNMENT__'',
      ''_REDIR_TIME64'', ''__isoc_va_list'', ''__jmp_buf'', ''_IO_FILE'', ''__pthread'', ''__locale_struct'']"

definition tokens_s :: "string list" where
  "tokens_s =
     [''struct'', ''short'', ''signed'', ''size_t'', ''ssize_t'', ''socklen_t'', ''sa_family_t'',
      ''suseconds_t'', ''sigjmp_buf'', ''sockaddr'', ''servent'', ''shmid_ds'', ''sembuf'']"

definition tokens_c :: "string list" where
  "tokens_c =
     [''char'', ''const'', ''cookie_read_function_t'', ''cookie_write_function_t'', ''cookie_seek_function_t'',
      ''cookie_close_function_t'', ''cookie_io_functions_t'']"

definition tokens_p :: "string list" where
  "tokens_p =
     [''pid_t'', ''pthread_mutex_t'', ''pthread_cond_t'', ''protoent'', ''passwd'']"

definition tokens_other :: "string list" where
  "tokens_other =
     [''int'', ''unsigned'', ''long'', ''void'', ''volatile'', ''union'', ''float'', ''double'', ''...'',
      ''FILE'', ''off_t'', ''fpos_t'', ''time_t'', ''uid_t'', ''gid_t'', ''mode_t'', ''key_t'', ''uint32_t'',
      ''bool'', ''jmp_buf'', ''Dl_info'', ''addrinfo'', ''netent'', ''hostent'', ''timespec'', ''ipc_perm'']"

definition tokens_from :: "char \<Rightarrow> string list" where
  "tokens_from c = (if c = CHR ''_'' then tokens_underscore else if c = CHR ''s'' then tokens_s
     else if c = CHR ''c'' then tokens_c else if c = CHR ''p'' then tokens_p else tokens_other)"

lemma is_token_code [code]: "is_token t = (case t of [] \<Rightarrow> False | c # cs \<Rightarrow> List.member (tokens_from c) t)"
proof -
  have "list_all (\<lambda>t. case t of [] \<Rightarrow> False | c # cs \<Rightarrow> List.member (tokens_from c) t) (c_keywords @ c_typenames @ c_tags)"
    by code_simp
  then have "case t of [] \<Rightarrow> False | c # cs \<Rightarrow> List.member (tokens_from c) t" if "is_token t"
    using that by (auto simp: is_token_def list_all_iff)
  moreover have "list_all (\<lambda>t. List.member c_keywords t \<or> List.member c_typenames t \<or> List.member c_tags t)
      (tokens_underscore @ tokens_s @ tokens_c @ tokens_p @ tokens_other)"
    by code_simp
  then have "is_token t" if "t \<in> set (tokens_from c)" for c
    using that by (auto simp: is_token_def tokens_from_def list_all_iff split: if_splits)
  ultimately show ?thesis by (auto split: list.splits)
qed

definition alltypes_own :: "string \<Rightarrow> (tenv \<times> tenv) option" where
  "alltypes_own n = (case map_of table_lower n of Some e \<Rightarrow> Some e
     | None \<Rightarrow> (case map_of table_addr n of Some e \<Rightarrow> Some e
     | None \<Rightarrow> (case map_of table_int n of Some e \<Rightarrow> Some e
     | None \<Rightarrow> (case map_of table_file n of Some e \<Rightarrow> Some e
     | None \<Rightarrow> (case map_of table_ids n of Some e \<Rightarrow> Some e
     | None \<Rightarrow> (case map_of table_pthread n of Some e \<Rightarrow> Some e
     | None \<Rightarrow> (case map_of table_stdio n of Some e \<Rightarrow> Some e
     | None \<Rightarrow> map_of table_locks n)))))))"

lemma alltypes_own_table: "alltypes_own n = map_of alltypes_table n"
  by (simp add: alltypes_own_def alltypes_table_def map_add_def split: option.splits)

definition alltypes_tags :: "(string \<times> string) list" where
  "alltypes_tags = [(''struct __mbstate_t'', ''mbstate_t''), (''struct winsize'', ''struct_winsize''),
     (''struct pg_pthread_barrier'', ''pthread_barrier_t'')]"

definition alltypes_owner :: "string \<Rightarrow> string option" where
  "alltypes_owner k = (case map_of alltypes_tags k of Some n \<Rightarrow> Some n
     | None \<Rightarrow> if alltypes_own k \<noteq> None then Some k else None)"

text \<open>The lower headers of \<open>alltypes.h\<close>; none of them requests a type.\<close>

definition alltypes_lower_headers :: "string list" where
  "alltypes_lower_headers = [''stddef.h'', ''__typedef_time_t.h'', ''__typedef_suseconds_t.h'', ''__typedef_clockid_t.h'',
     ''__typedef_sigset_t.h'', ''__typedef_clock_t.h'', ''__struct_timeval.h'', ''__struct_timespec.h'',
     ''__struct_iovec.h'', ''stdbool.h'']"

definition is_lower :: "string \<Rightarrow> bool" where
  "is_lower h = List.member alltypes_lower_headers h"

definition is_repeated :: "string \<Rightarrow> bool" where
  "is_repeated n = List.member [''wint_t'', ''time_t'', ''suseconds_t'', ''clockid_t'', ''sigset_t'', ''clock_t'', ''pthread_t''] n"

definition alltypes_given :: "string \<Rightarrow> layout option" where
  "alltypes_given k = map_of [(''time_t'', (8, 8)), (''bool'', (1, 1)), (''socklen_t'', (4, 4)), (''uint32_t'', (4, 4)),
     (''uid_t'', (4, 4)), (''gid_t'', (4, 4))] k"

definition alltypes_spec :: hspec where
  "alltypes_spec = \<lparr>reserved = is_token, own = alltypes_own, owner = alltypes_owner, quiet = is_lower,
     repeated = is_repeated, given = alltypes_given\<rparr>"

text \<open>The names that the other headers of the port declare.\<close>

definition header_names :: "string list" where
  "header_names =
     [''fpos_t'', ''union _G_fpos64_t'', ''cookie_read_function_t'', ''cookie_write_function_t'',
      ''cookie_seek_function_t'', ''cookie_close_function_t'', ''cookie_io_functions_t'',
      ''struct _IO_cookie_io_functions_t'', ''struct addrinfo'', ''struct netent'', ''struct hostent'',
      ''struct servent'', ''struct protoent'', ''struct ipc_perm'', ''struct shmid_ds'', ''struct shminfo'',
      ''struct shm_info'', ''shmatt_t'', ''struct semid_ds'', ''struct seminfo'', ''struct sembuf'',
      ''struct __jmp_buf_tag'', ''jmp_buf'', ''sigjmp_buf'', ''Dl_info'', ''struct passwd'']"

definition port_names :: tenv where
  "port_names = concat (map (\<lambda>(n, st, wk). wanted st) alltypes_table) @ map (\<lambda>k. (k, None)) header_names"

text \<open>The feature test macros, and which of them are defined once \<open>features.h\<close> has been included.\<close>

record features =
  gnu :: bool
  bsd :: bool
  posix :: bool
  posix_c :: bool
  xopen :: bool
  large :: bool

definition feature_macros :: "features \<Rightarrow> (string \<times> bool) list" where
  "feature_macros f = [(''_GNU_SOURCE'', gnu f), (''_BSD_SOURCE'', bsd f), (''_POSIX_SOURCE'', posix f),
     (''_POSIX_C_SOURCE'', posix_c f), (''_XOPEN_SOURCE'', xopen f), (''_LARGEFILE64_SOURCE'', large f)]"

text \<open>What the headers below give. \<open>stdbool.h\<close> makes \<open>bool\<close> a name of the one-byte type \<open>_Bool\<close>
  (with a macro in C17), which is entered as a type here.\<close>

definition plain :: "tenv \<Rightarrow> prov" where
  "plain te = \<lparr>gives = te, settles = [], client = False\<rparr>"

definition system_headers :: "features \<Rightarrow> (string \<times> prov) list" where
  "system_headers f =
     [(''features.h'', \<lparr>gives = [], settles = feature_macros f, client = False\<rparr>),
      (''stddef.h'', plain []), (''__seek.h'', plain []),
      (''__typedef_time_t.h'', plain [(''time_t'', Some (8, 8))]),
      (''__typedef_suseconds_t.h'', plain [(''suseconds_t'', None)]),
      (''__typedef_clockid_t.h'', plain [(''clockid_t'', None)]),
      (''__typedef_sigset_t.h'', plain [(''sigset_t'', None)]),
      (''__typedef_clock_t.h'', plain [(''clock_t'', None)]),
      (''__struct_timeval.h'', plain []), (''__struct_timespec.h'', plain []), (''__struct_iovec.h'', plain []),
      (''stdbool.h'', plain [(''bool'', Some (1, 1))]),
      (''bits/mman.h'', plain []), (''bits/ipcstat.h'', plain []),
      (''netinet/in.h'', \<lparr>gives = [(''socklen_t'', Some (4, 4)), (''uint32_t'', Some (4, 4))], settles = [], client = True\<rparr>),
      (''unistd.h'', \<lparr>gives = [(''uid_t'', Some (4, 4)), (''gid_t'', Some (4, 4))], settles = [], client = True\<rparr>)]"

definition system_ok :: "features \<Rightarrow> (string \<Rightarrow> cstate \<Rightarrow> cerror + cstate) \<Rightarrow> bool" where
  "system_ok f = lib_ok alltypes_spec keepers port_names (system_headers f)"

definition system_inc :: "features \<Rightarrow> string \<Rightarrow> abs \<Rightarrow> abs option" where
  "system_inc f h A = alib alltypes_spec keepers port_names (system_headers f) h A"

definition start :: "(string \<times> bool) list \<Rightarrow> abs" where
  "start known = \<lparr>am = token_macros, amd = (UPSTREAM, False) # known, have_t = [], absent = [], done_n = [], cur = None\<rparr>"

section \<open>The checker accepts the header\<close>

text \<open>
  The state of the checker between two groups: the three helper macros are defined, and the requests with a
  second block have been answered.
\<close>

definition inside :: "(string \<times> bool) list \<Rightarrow> tenv \<Rightarrow> string list \<Rightarrow> abs" where
  "inside ks te ns =
     \<lparr>am = [(''_Reg'', Toks [''long'', ''long'']), (''_Int64'', Toks [''long'', ''long'']), (''_Addr'', Toks [''long''])]
        @ token_macros,
      amd = ks @ [(''_Reg'', True), (''_Int64'', True), (''_Addr'', True), (UPSTREAM, False)],
      have_t = te, absent = [], done_n = ns, cur = None\<rparr>"

definition all_repeated :: "string list" where
  "all_repeated = [''clock_t'', ''sigset_t'', ''clockid_t'', ''suseconds_t'', ''time_t'', ''wint_t'']"

definition all_repeated' :: "string list" where
  "all_repeated' = ''pthread_t'' # all_repeated"

abbreviation check_group :: "features \<Rightarrow> dir list \<Rightarrow> abs \<Rightarrow> abs option" where
  "check_group f ds A \<equiv> chk alltypes_spec wasm32 (system_inc f) ds A"

lemma chk_lower: "check_group f alltypes_lower (start []) = Some (inside [] [] all_repeated)"
  by code_simp

lemma chk_addr: "check_group f alltypes_addr (inside [] [] all_repeated) = Some (inside [] [] all_repeated)"
  by code_simp

lemma chk_time: "check_group f alltypes_time (inside [] [] all_repeated) = Some (inside [] [] all_repeated)"
  by code_simp

lemma chk_int: "check_group f alltypes_int (inside [] [] all_repeated) = Some (inside [] [] all_repeated)"
  by code_simp

lemma chk_file: "check_group f alltypes_file (inside [] [] all_repeated) = Some (inside [] [] all_repeated)"
  by code_simp

lemma chk_wide: "check_group f alltypes_wide (inside [] [] all_repeated) = Some (inside [] [] all_repeated)"
  by code_simp

lemma chk_struct_time: "check_group f alltypes_struct_time (inside [] [] all_repeated) = Some (inside [] [] all_repeated)"
  by code_simp

lemma chk_ids: "check_group f alltypes_ids (inside [] [] all_repeated) = Some (inside [] [] all_repeated)"
  by code_simp

lemma chk_pthread: "check_group f alltypes_pthread (inside [] [] all_repeated) = Some (inside [] [] all_repeated')"
  by code_simp

lemma chk_stdio: "check_group f alltypes_stdio (inside [] [] all_repeated') = Some (inside [] [] all_repeated')"
  by code_simp

lemma chk_misc: "check_group f alltypes_misc (inside [] [] all_repeated') = Some (inside [] [] all_repeated')"
  by code_simp

lemma chk_locks: "check_group f alltypes_locks (inside [] [] all_repeated') = Some (inside [] [] all_repeated')"
  by code_simp





lemmas chk_groups = chk_lower chk_addr chk_time chk_int chk_file chk_wide chk_struct_time chk_ids chk_pthread
  chk_stdio chk_misc chk_locks

definition alltypes_before :: "dir list" where
  "alltypes_before = alltypes_lower @ alltypes_addr @ alltypes_time @ alltypes_int @ alltypes_file @ alltypes_wide
     @ alltypes_struct_time @ alltypes_ids @ alltypes_pthread @ alltypes_stdio @ alltypes_misc @ alltypes_locks"

lemma chk_before: "check_group f alltypes_before (start []) = Some (inside [] [] all_repeated')"
  by (simp add: alltypes_before_def chk_append chk_groups)



lemma wf_alltypes: "wf_hspec alltypes_spec"
proof -
  have tab: "list_all (\<lambda>(n, st, wk). list_all (\<lambda>(k, l). alltypes_owner k = Some n) st) alltypes_table" by code_simp
  have tok: "list_all (\<lambda>x. \<not> is_NEED x \<and> \<not> is_DEFINED x) (c_keywords @ c_typenames @ c_tags)" by code_simp
  have "alltypes_owner k = Some n" if "alltypes_own n = Some (st, wk)" "k \<in> set (map fst st)" for n st wk k
  proof -
    have "(n, st, wk) \<in> set alltypes_table" using that(1) by (simp add: alltypes_own_table map_of_SomeD)
    then show ?thesis using tab that(2) by (fastforce simp: list_all_iff)
  qed
  moreover have "\<not> is_NEED x \<and> \<not> is_DEFINED x" if "is_token x" for x
    using tok that by (auto simp: list_all_iff is_token_def)
  ultimately show ?thesis by (simp add: wf_hspec_def alltypes_spec_def)
qed

lemma system_inc_sound:
  assumes "system_ok f lib"
  shows "inc_sound alltypes_spec lib (system_inc f)"
proof -
  have "inc_sound alltypes_spec lib (alib alltypes_spec keepers port_names (system_headers f))"
  proof (rule alib_sound)
    show "lib_ok alltypes_spec keepers port_names (system_headers f) lib" using assms by (simp add: system_ok_def)
    show "Collect (reserved alltypes_spec) \<subseteq> set keepers" by (auto simp: alltypes_spec_def is_token_def keepers_def)
    show "\<forall>n st wk. own alltypes_spec n = Some (st, wk) \<longrightarrow> set (wanted st) \<subseteq> set port_names"
    proof (intro allI impI)
      fix n st wk assume "own alltypes_spec n = Some (st, wk)"
      then have "(n, st, wk) \<in> set alltypes_table"
        by (simp add: alltypes_spec_def alltypes_own_table map_of_SomeD)
      then show "set (wanted st) \<subseteq> set port_names" by (auto simp: port_names_def)
    qed
    have "list_all (\<lambda>h. case map_of (system_headers f) h of None \<Rightarrow> False | Some p \<Rightarrow> \<not> client p) alltypes_lower_headers"
      by code_simp
    then show "\<forall>h. quiet alltypes_spec h \<longrightarrow> (\<exists>p. map_of (system_headers f) h = Some p \<and> \<not> client p)"
      by (auto simp: alltypes_spec_def is_lower_def list_all_iff split: option.splits)
    have "list_all (\<lambda>x. \<not> is_token x \<and> \<not> is_NEED x \<and> \<not> is_DEFINED x) (map fst (feature_macros f))"
      by code_simp
    then show "\<forall>(h, p) \<in> set (system_headers f).
        list_all (\<lambda>(x, b). \<not> reserved alltypes_spec x \<and> \<not> is_NEED x \<and> \<not> is_DEFINED x) (settles p)"
      by (simp add: system_headers_def plain_def alltypes_spec_def feature_macros_def)
  qed
  then show ?thesis unfolding inc_sound_def by (simp add: system_inc_def)
qed

section \<open>What including the header does\<close>

text \<open>
  The states in which it may be included: the tokens of its types are no macros, and every type of the table that
  is marked as declared is declared, every other one is free.
\<close>

definition ready :: "cstate \<Rightarrow> bool" where
  "ready s \<longleftrightarrow> agree (Collect is_token) token_macros (macros s) \<and> \<not> is_def s UPSTREAM \<and>
     (\<forall>n. inv_for alltypes_spec n s) \<and> givens_ok alltypes_spec s"

lemma closed_token_macros: "closed (Collect is_token) token_macros"
  by (auto simp: closed_def token_macros_def split: if_splits)

lemma ready_knows: "ready s \<longleftrightarrow> knows alltypes_spec (start []) s"
  by (auto simp: ready_def knows_def start_def alltypes_spec_def closed_token_macros tenv_le_def)

lemma system_keeps_requests:
  assumes "system_ok f lib" "h \<in> set alltypes_lower_headers" "lib h s = Inr s'"
  shows "requests_kept s s'" "map_of (macros s') (NEED n) = map_of (macros s) (NEED n)"
    "map_of (types s) k = Some v \<Longrightarrow> map_of (types s') k = Some v"
    "map_of (macros s') (DEFINED n) = map_of (macros s) (DEFINED n)"
proof -
  have q: "quiet alltypes_spec h" using assms(2) by (simp add: alltypes_spec_def is_lower_def)
  then show "requests_kept s s'" using system_inc_sound [OF assms(1)] assms(3) by (simp add: inc_sound_def)
  have "list_all (\<lambda>h. case map_of (system_headers f) h of None \<Rightarrow> False | Some p \<Rightarrow> \<not> client p \<and> settles p = []) alltypes_lower_headers"
    by code_simp
  then obtain p where p: "map_of (system_headers f) h = Some p" "\<not> client p" "settles p = []"
    using assms(2) by (auto simp: list_all_iff split: option.splits)
  then have st: "lib_step alltypes_spec keepers port_names p s s'"
    using assms(1,3) unfolding system_ok_def lib_ok_def by blast
  have "lib_keeps keepers p (NEED n)" "lib_keeps keepers p (DEFINED n)"
    using p by (simp_all add: lib_keeps_def is_NEED_def NEED_def)
  then show "map_of (macros s') (NEED n) = map_of (macros s) (NEED n)"
    "map_of (macros s') (DEFINED n) = map_of (macros s) (DEFINED n)" using st by (simp_all add: lib_step_def)
  show "map_of (types s) k = Some v \<Longrightarrow> map_of (types s') k = Some v" using st by (simp add: lib_step_def)
qed

lemma alltypes_shape:
  "list_all (\<lambda>x. \<not> is_NEED x) (touched alltypes_h)" "list_all (\<lambda>x. \<not> is_DEFINED x) (undefs alltypes_h)"
  "set (included alltypes_h) \<subseteq> set alltypes_lower_headers"
proof -
  show "list_all (\<lambda>x. \<not> is_NEED x) (touched alltypes_h)" by code_simp
  show "list_all (\<lambda>x. \<not> is_DEFINED x) (undefs alltypes_h)" by code_simp
  have "list_all (\<lambda>h. List.member alltypes_lower_headers h) (included alltypes_h)" by code_simp
  then show "set (included alltypes_h) \<subseteq> set alltypes_lower_headers" by (auto simp: list_all_iff)
qed

lemma alltypes_split: "alltypes_h = alltypes_before @ alltypes_barrier @ alltypes_undef"
  by (simp add: alltypes_h_def alltypes_before_def)

lemma needs_kept:
  assumes "system_ok f lib" "run wasm32 lib ds s = Inr s'" "list_all (\<lambda>x. \<not> is_NEED x) (touched ds)"
    "set (included ds) \<subseteq> set alltypes_lower_headers"
  shows "map_of (macros s') (NEED n) = map_of (macros s) (NEED n)"
proof (rule run_untouched(1) [OF _ assms(2)])
  show "map_of (macros s') (NEED n) = map_of (macros s) (NEED n)"
    if "h \<in> set alltypes_lower_headers" "lib h s = Inr s'" for h s s'
    using system_keeps_requests(2) [OF assms(1) that] .
  have "is_NEED (NEED n)" by (simp add: is_NEED_def NEED_def)
  then show "NEED n \<notin> set (touched ds)" using assms(3) by (auto simp: list_all_iff)
qed (use assms(4) in simp)








section \<open>Requests\<close>




lemma ready_requests:
  assumes "ready s" "types s' = types s"
    and ms: "\<forall>x. map_of (macros s') x = (if x \<in> NEED ` set r then Some (Toks []) else map_of (macros s) x)"
  shows "ready s'"
proof -
  have tok: "\<not> is_NEED x" if "is_token x" for x
    using wf_alltypes that by (auto simp: wf_hspec_def alltypes_spec_def)
  have "is_NEED (NEED m)" "\<not> is_DEFINED (NEED m)" "NEED m \<noteq> UPSTREAM" for m
    by (simp_all add: is_NEED_def NEED_def UPSTREAM_def is_DEFINED_def)
  then have "x \<notin> NEED ` set r" if "is_token x \<or> x = UPSTREAM \<or> is_DEFINED x" for x
    using that tok by (auto dest: tok)
  then have same: "map_of (macros s') x = map_of (macros s) x" if "is_token x \<or> x = UPSTREAM \<or> is_DEFINED x" for x
    using ms that by simp
  have "inv_for alltypes_spec n s' = inv_for alltypes_spec n s" for n
    using assms(2) same [of "DEFINED n"] by (intro inv_for_macros) (simp_all add: is_def_def)
  then show ?thesis
    using assms(1,2) same by (auto simp: ready_def agree_def is_def_def givens_ok_def)
qed




section \<open>Properties\<close>

text \<open>The table as a library of lower headers, and a translation unit at its start.\<close>

definition sample_lib :: "features \<Rightarrow> string \<Rightarrow> cstate \<Rightarrow> cerror + cstate" where
  "sample_lib f = table_lib alltypes_spec (system_headers f)"

definition no_features :: features where
  "no_features = \<lparr>gnu = False, bsd = False, posix = False, posix_c = False, xopen = False, large = False\<rparr>"

definition fresh_unit :: cstate where
  "fresh_unit = \<lparr>macros = token_macros, types = [], decls = []\<rparr>"

lemma sample_lib_ok: "system_ok f (sample_lib f)"
  unfolding system_ok_def sample_lib_def
proof (rule table_lib_ok)
  have tab: "list_all (\<lambda>(h, p). list_all (\<lambda>(k, l). alltypes_given k = l) (gives p)) (system_headers f)"
    by code_simp
  have ok: "alltypes_given k = l" if "map_of (system_headers f) h = Some p" "(k, l) \<in> set (gives p)" for h p k l
    using tab map_of_SomeD [OF that(1)] that(2) by (fastforce simp: list_all_iff)
  show "given alltypes_spec k = Some l" if "map_of (system_headers f) h = Some p" "(k, Some l) \<in> set (gives p)" for h p k l
    using ok [OF that] by (simp add: alltypes_spec_def)
  show "given alltypes_spec k = None" if "map_of (system_headers f) h = Some p" "(k, None) \<in> set (gives p)" for h p k
    using ok [OF that] by (simp add: alltypes_spec_def)
  have "list_all (\<lambda>(h, p). list_all (\<lambda>(k, l). list_all (\<lambda>e. fst e = k \<longrightarrow> snd e = l \<and> l \<noteq> None) port_names) (gives p)) (system_headers f)"
    by code_simp
  then show "snd e = l \<and> l \<noteq> None" if "map_of (system_headers f) h = Some p" "e \<in> set port_names" "map_of (gives p) (fst e) = Some l" for h p e l
    using map_of_SomeD [OF that(1)] that(2) map_of_SomeD [OF that(3)] by (fastforce simp: list_all_iff)
  have sets: "list_all (\<lambda>(h, p). client p \<longrightarrow> settles p = []) (system_headers f)" by code_simp
  show "map_of (settles p) (DEFINED n) = None" if "map_of (system_headers f) h = Some p" "client p" for h p n
    using sets map_of_SomeD [OF that(1)] that(2) by (auto simp: list_all_iff)
  show "set (wanted st) \<subseteq> set port_names" if "own alltypes_spec n = Some (st, wk)" for n st wk
  proof -
    have "(n, st, wk) \<in> set alltypes_table" using that by (simp add: alltypes_spec_def alltypes_own_table map_of_SomeD)
    then show ?thesis by (auto simp: port_names_def)
  qed
qed

lemma fresh_unit_ready: "ready fresh_unit"
proof -
  have "inv_for alltypes_spec n fresh_unit" for n
    by (auto simp: inv_for_def fresh_unit_def is_def_def token_macros_def DEFINED_def free_for_def split: option.splits)
  then show ?thesis
    by (simp add: ready_def fresh_unit_def agree_def is_def_def token_macros_def UPSTREAM_def givens_ok_def)
qed



lemma skipped_request:
  assumes "step tg inc (need n ds) s = Inr s'" "\<not> is_def s (NEED n)"
  shows "s' = s"
  using assms by (simp add: need_def is_def_def)

text \<open>The block of the mutex, and what surrounds it.\<close>

definition mutex_block :: dir where
  "mutex_block = alltypes_locks ! 1"

lemma mutex_block_need: "\<exists>ds. mutex_block = need ''pthread_mutex_t'' ds"
  unfolding mutex_block_def alltypes_locks_def by (rule exI) (simp add: numeral_nat)

lemma before_mutex: "alltypes_before = (alltypes_lower @ alltypes_addr @ alltypes_time @ alltypes_int @ alltypes_file @ alltypes_wide
     @ alltypes_struct_time @ alltypes_ids @ alltypes_pthread @ alltypes_stdio @ alltypes_misc @ take 1 alltypes_locks)
     @ mutex_block # drop 2 alltypes_locks"
  by (simp add: alltypes_before_def mutex_block_def alltypes_locks_def numeral_nat)

lemma mutex_undeclared:
  assumes run: "run wasm32 lib alltypes_before s = Inr s1" and ok: "system_ok f lib"
    and lib: "\<And>h s s'. h \<in> set alltypes_lower_headers \<Longrightarrow> lib h s = Inr s' \<Longrightarrow>
      map_of (types s') ''pthread_mutex_t'' = map_of (types s) ''pthread_mutex_t''"
    and no: "\<not> is_def s (NEED ''pthread_mutex_t'')" "map_of (types s) ''pthread_mutex_t'' = None"
  shows "map_of (types s1) ''pthread_mutex_t'' = None"
proof -
  define as where "as = alltypes_lower @ alltypes_addr @ alltypes_time @ alltypes_int @ alltypes_file @ alltypes_wide
     @ alltypes_struct_time @ alltypes_ids @ alltypes_pthread @ alltypes_stdio @ alltypes_misc @ take 1 alltypes_locks"
  define bs where "bs = drop 2 alltypes_locks"
  have split: "alltypes_before = as @ mutex_block # bs" using before_mutex by (simp add: as_def bs_def)
  have nd: "''pthread_mutex_t'' \<notin> set (declared as)" "''pthread_mutex_t'' \<notin> set (declared bs)"
  proof -
    have "\<not> List.member (declared as) ''pthread_mutex_t''" unfolding as_def by code_simp
    moreover have "\<not> List.member (declared bs) ''pthread_mutex_t''" unfolding bs_def by code_simp
    ultimately show "''pthread_mutex_t'' \<notin> set (declared as)" "''pthread_mutex_t'' \<notin> set (declared bs)" by simp_all
  qed
  have sh: "list_all (\<lambda>x. \<not> is_NEED x) (touched as)" "set (included as) \<subseteq> set alltypes_lower_headers"
    "set (included bs) \<subseteq> set alltypes_lower_headers"
    using alltypes_shape unfolding alltypes_split split by (auto simp: touched_append included_append)
  obtain t u where t: "run wasm32 lib as s = Inr t" "step wasm32 lib mutex_block t = Inr u" "run wasm32 lib bs u = Inr s1"
    using run unfolding split by (auto simp: run_append split: sum.splits)
  have "map_of (types t) ''pthread_mutex_t'' = None" using run_not_declared(1) [OF lib t(1) nd(1) sh(2)] no(2) by simp
  moreover have "\<not> is_def t (NEED ''pthread_mutex_t'')" using needs_kept [OF ok t(1) sh(1,2)] no(1) by (simp add: is_def_def)
  then have "u = t" using skipped_request t(2) mutex_block_need by metis
  ultimately show ?thesis using run_not_declared(1) [OF lib t(3) nd(2) sh(3)] by simp
qed

definition barrier_struct :: ctype where
  "barrier_struct = TAgg Struct ''pg_pthread_barrier''
     [Field ''sense'' (TSpec [''bool'']), Field ''count'' (TSpec [''int'']), Field ''arrived'' (TSpec [''int'']),
      Field ''mutex'' (TSpec [''pthread_mutex_t'']), Field ''cond'' (TSpec [''pthread_cond_t''])]"

lemma alltypes_barrier_eq:
  "alltypes_barrier = [need ''pthread_barrier_t'' [Include ''stdbool.h'', Typedef barrier_struct ''pthread_barrier_t'']]"
  by (simp add: alltypes_barrier_def barrier_struct_def)

lemma unknown_mutex:
  assumes "knows alltypes_spec A s" "am A = am (inside [] [] all_repeated')" "map_of (types s) ''pthread_mutex_t'' = None"
  shows "layout wasm32 (macros s) (types s) (TSpec [''pthread_mutex_t'']) = None"
proof -
  have "is_token ''pthread_mutex_t''" by code_simp
  then have "spec_toks (am A) [''pthread_mutex_t''] = spec_toks (macros s) [''pthread_mutex_t'']"
    using assms(1) by (intro spec_toks_agree [of is_token]) (simp_all add: knows_def alltypes_spec_def)
  moreover have "spec_toks (am (inside [] [] all_repeated')) [''pthread_mutex_t''] = [''pthread_mutex_t'']" by code_simp
  moreover have "base_layout wasm32 [''pthread_mutex_t''] = None" by code_simp
  ultimately show ?thesis using assms(2,3) by (simp add: spec_layout_def)
qed

text \<open>
  C33. A client that requests \<open>pthread_barrier_t\<close> alone, as it may with the original header, gets an error: the block
  of this port is a structure with a mutex and a condition variable, and it does not request them.
\<close>

theorem barrier_alone_fails:
  assumes ok: "system_ok f lib" and s: "ready s"
    and lib: "\<And>h s s'. h \<in> set alltypes_lower_headers \<Longrightarrow> lib h s = Inr s' \<Longrightarrow>
      map_of (types s') ''pthread_mutex_t'' = map_of (types s) ''pthread_mutex_t''"
    and b: "is_def s (NEED ''pthread_barrier_t'')" "\<not> is_def s (DEFINED ''pthread_barrier_t'')"
    and no: "\<not> is_def s (NEED ''pthread_mutex_t'')" "map_of (types s) ''pthread_mutex_t'' = None"
  shows "run wasm32 lib alltypes_h s = Inl (UnknownType ''struct pg_pthread_barrier'')"
proof -
  note snd = chk_sound(1) [OF system_inc_sound [OF ok] wf_alltypes]
  from snd [OF chk_before] s obtain s1 where
    s1: "run wasm32 lib alltypes_before s = Inr s1" "knows alltypes_spec (inside [] [] all_repeated') s1"
    unfolding ready_knows by blast
  note mx = mutex_undeclared [OF s1(1) ok lib no]
  have sh: "list_all (\<lambda>x. \<not> is_NEED x) (touched alltypes_before)" "set (included alltypes_before) \<subseteq> set alltypes_lower_headers"
    using alltypes_shape unfolding alltypes_split by (auto simp: touched_append included_append)
  have b1: "is_def s1 (NEED ''pthread_barrier_t'')" using needs_kept [OF ok s1(1) sh] b(1) by (simp add: is_def_def)
  have "\<not> List.member (touched alltypes_before) (DEFINED ''pthread_barrier_t'')" by code_simp
  then have "map_of (macros s1) (DEFINED ''pthread_barrier_t'') = map_of (macros s) (DEFINED ''pthread_barrier_t'')"
    using run_untouched(1) [OF system_keeps_requests(4) [OF ok] s1(1) _ sh(2)] by simp
  then have b2: "\<not> is_def s1 (DEFINED ''pthread_barrier_t'')" using b(2) by (simp add: is_def_def)
  have "map_option am (system_inc f ''stdbool.h'' (inside [] [] all_repeated')) = Some (am (inside [] [] all_repeated'))"
    by code_simp
  then obtain A where A: "system_inc f ''stdbool.h'' (inside [] [] all_repeated') = Some A" "am A = am (inside [] [] all_repeated')"
    by auto
  from system_inc_sound [OF ok] A(1) s1(2) obtain s2 where s2: "lib ''stdbool.h'' s1 = Inr s2" "knows alltypes_spec A s2"
    unfolding inc_sound_def by blast
  have "List.member alltypes_lower_headers ''stdbool.h''" by code_simp
  then have mx2: "map_of (types s2) ''pthread_mutex_t'' = None" using lib [OF _ s2(1)] mx by simp
  have "layout wasm32 (macros s2) (types s2) (TSpec [''pthread_mutex_t'']) = None"
    using s2(2) A(2) mx2 by (rule unknown_mutex)
  then have "layout wasm32 (macros s2) (types s2) barrier_struct = None"
    by (simp add: barrier_struct_def split: option.splits)
  then have "run wasm32 lib alltypes_barrier s1 = Inl (UnknownType ''struct pg_pthread_barrier'')"
    using b1 b2 s2(1) by (simp add: alltypes_barrier_eq need_def is_def_def typedef_name_def barrier_struct_def del: layout.simps)
  then show ?thesis using s1(1) by (simp add: alltypes_split run_append)
qed

definition barrier_unit :: cstate where
  "barrier_unit = \<lparr>macros = (NEED ''pthread_barrier_t'', Toks []) # token_macros, types = [], decls = []\<rparr>"

lemma barrier_unit_ready: "ready barrier_unit"
  by (rule ready_requests [OF fresh_unit_ready, of _ "[''pthread_barrier_t'']"]) (auto simp: barrier_unit_def fresh_unit_def)

theorem barrier_alone_fails_witness:
  "run wasm32 (sample_lib no_features) alltypes_h barrier_unit = Inl (UnknownType ''struct pg_pthread_barrier'')"
proof (rule barrier_alone_fails [OF sample_lib_ok barrier_unit_ready])
  have tab: "list_all (\<lambda>h. case map_of (system_headers no_features) h of None \<Rightarrow> False
     | Some p \<Rightarrow> map_of (gives p) ''pthread_mutex_t'' = None) alltypes_lower_headers" by code_simp
  show "map_of (types s') ''pthread_mutex_t'' = map_of (types s) ''pthread_mutex_t''"
    if h: "h \<in> set alltypes_lower_headers" and s': "sample_lib no_features h s = Inr s'" for h s s'
  proof -
    obtain p where p: "map_of (system_headers no_features) h = Some p" "map_of (gives p) ''pthread_mutex_t'' = None"
      using tab h by (auto simp: list_all_iff split: option.splits)
    show ?thesis using table_lib_types [OF s' [unfolded sample_lib_def] p(1), of "''pthread_mutex_t''"] p(2)
      by (simp split: option.splits)
  qed
qed (simp_all add: barrier_unit_def is_def_def token_macros_def NEED_def DEFINED_def)

end
