(* ===== verification/Headers.thy ===== *)
theory Headers
  imports All_Types
begin

text \<open>
  The headers that the port puts in front of those of wasi-libc, as directives of theory \<open>Cpp\<close>: \<open>stdio.h\<close>,
  \<open>sys/mman.h\<close>, \<open>netdb.h\<close>, the System V headers, \<open>pwd.h\<close>, \<open>dlfcn.h\<close> and the small ones beside them.
\<close>

section \<open>The texts\<close>

text \<open>The types that occur all the time, by names close to the ones in C.\<close>

abbreviation c_int :: ctype where "c_int \<equiv> TSpec [''int'']"
abbreviation c_long :: ctype where "c_long \<equiv> TSpec [''long'']"
abbreviation c_ulong :: ctype where "c_ulong \<equiv> TSpec [''unsigned'', ''long'']"
abbreviation c_void :: ctype where "c_void \<equiv> TSpec [''void'']"
abbreviation varargs :: ctype where "varargs \<equiv> TSpec [''...'']"
abbreviation va_args :: ctype where "va_args \<equiv> TSpec [''__isoc_va_list'']"
abbreviation size_t :: ctype where "size_t \<equiv> TSpec [''size_t'']"
abbreviation ssize_t :: ctype where "ssize_t \<equiv> TSpec [''ssize_t'']"
abbreviation off_t :: ctype where "off_t \<equiv> TSpec [''off_t'']"
abbreviation time_t :: ctype where "time_t \<equiv> TSpec [''time_t'']"
abbreviation FILE_p :: ctype where "FILE_p \<equiv> TPtr (TSpec [''FILE''])"
abbreviation char_p :: ctype where "char_p \<equiv> TPtr (TSpec [''char''])"
abbreviation char_pp :: ctype where "char_pp \<equiv> TPtr char_p"
abbreviation cstr_p :: ctype where "cstr_p \<equiv> TPtr (TSpec [''const'', ''char''])"
abbreviation void_p :: ctype where "void_p \<equiv> TPtr (TSpec [''void''])"
abbreviation cvoid_p :: ctype where "cvoid_p \<equiv> TPtr (TSpec [''const'', ''void''])"
abbreviation struct_p :: "string \<Rightarrow> ctype" where "struct_p tag \<equiv> TPtr (TSpec [''struct'', tag])"

text \<open>A request to \<open>bits/alltypes.h\<close>, and the two feature tests that most headers share.\<close>

abbreviation NEEDED :: "string \<Rightarrow> dir" where "NEEDED n \<equiv> Define (NEED n) (Toks [])"

abbreviation gnu_or_bsd :: cond where
  "gnu_or_bsd \<equiv> COr (Defined ''_GNU_SOURCE'') (Defined ''_BSD_SOURCE'')"

abbreviation any_source :: cond where
  "any_source \<equiv> COr (COr (COr (COr (Defined ''_POSIX_SOURCE'') (Defined ''_POSIX_C_SOURCE''))
     (Defined ''_XOPEN_SOURCE'')) (Defined ''_GNU_SOURCE'')) (Defined ''_BSD_SOURCE'')"

text \<open>The standard streams, \<open>sysfix/stdio.h\<close>.\<close>

definition stdio_needs :: "dir list" where
  "stdio_needs =
     [Define ''_STDIO_H'' (Toks []),
      Cond (Defined ''__cplusplus'')
        [Text ''extern \"C\" {'']
        [],
      Include ''features.h'',
      NEEDED ''FILE'',
      NEEDED ''__isoc_va_list'',
      NEEDED ''size_t'',
      Cond (Defined ''__wasilibc_unmodified_upstream'')
        [Cond (CExpr (MBin Lt_op (Ident ''__STDC_VERSION__'') (Lit 201112)))
           [NEEDED ''struct__IO_FILE'']
           []]
        [],
      Cond any_source
        [NEEDED ''ssize_t'',
         NEEDED ''off_t'',
         NEEDED ''va_list'']
        [],
      Include ''bits/alltypes.h'']"

definition stdio_constants :: "dir list" where
  "stdio_constants =
     [Cond (Defined ''__wasilibc_unmodified_upstream'')
        [Cond (CExpr (MBin Ge_op (Ident ''__cplusplus'') (Lit 201103)))
           [Define ''NULL'' (Toks [''nullptr''])]
           [Cond (Defined ''__cplusplus'')
              [Define ''NULL'' (Val (Lit 0))]
              [Define ''NULL'' (Val (MCast [''void'', ''*''] (Lit 0)))]]]
        [Define ''__need_NULL'' (Toks []),
         Include ''stddef.h''],
      Undef ''EOF'',
      Define ''EOF'' (Val (MNeg (Lit 1))),
      Cond (Defined ''__wasilibc_unmodified_upstream'')
        [Undef ''SEEK_SET'',
         Undef ''SEEK_CUR'',
         Undef ''SEEK_END'',
         Define ''SEEK_SET'' (Val (Lit 0)),
         Define ''SEEK_CUR'' (Val (Lit 1)),
         Define ''SEEK_END'' (Val (Lit 2))]
        [Include ''__seek.h''],
      Define ''_IOFBF'' (Val (Lit 0)),
      Define ''_IOLBF'' (Val (Lit 1)),
      Define ''_IONBF'' (Val (Lit 2)),
      Define ''BUFSIZ'' (Val (Lit 1024)),
      Define ''FILENAME_MAX'' (Val (Lit 4096)),
      Define ''FOPEN_MAX'' (Val (Lit 1000)),
      Cond (Defined ''__wasilibc_unmodified_upstream'')
        [Define ''TMP_MAX'' (Val (Lit 10000)),
         Define ''L_tmpnam'' (Val (Lit 20))]
        []]"

definition stdio_streams :: "dir list" where
  "stdio_streams =
     [Typedef (TAgg Union ''_G_fpos64_t'' [Field ''__opaque'' (TArr (TSpec [''char'']) (AVal (Lit 16))),
          Field ''__lldata'' (TSpec [''long'', ''long'']), Field ''__align'' (TSpec [''double''])]) ''fpos_t'',
      Extern FILE_p ''stdin'',
      Extern FILE_p ''stdout'',
      Extern FILE_p ''stderr'',
      Define ''stdin'' (Toks [''('', ''stdin'', '')'']),
      Define ''stdout'' (Toks [''('', ''stdout'', '')'']),
      Define ''stderr'' (Toks [''('', ''stderr'', '')'']),
      Proto FILE_p ''fopen'' [cstr_p, cstr_p],
      Proto FILE_p ''freopen'' [cstr_p, cstr_p, FILE_p],
      Proto c_int ''fclose'' [FILE_p],
      Proto c_int ''remove'' [cstr_p],
      Proto c_int ''rename'' [cstr_p, cstr_p],
      Proto c_int ''feof'' [FILE_p],
      Proto c_int ''ferror'' [FILE_p],
      Proto c_int ''fflush'' [FILE_p],
      Proto c_void ''clearerr'' [FILE_p],
      Proto c_int ''fseek'' [FILE_p, c_long, c_int],
      Proto c_long ''ftell'' [FILE_p],
      Proto c_void ''rewind'' [FILE_p],
      Proto c_int ''fgetpos'' [FILE_p, (TPtr (TSpec [''fpos_t'']))],
      Proto c_int ''fsetpos'' [FILE_p, (TPtr (TSpec [''const'', ''fpos_t'']))]]"

definition stdio_chars :: "dir list" where
  "stdio_chars =
     [Proto size_t ''fread'' [void_p, size_t, size_t, FILE_p],
      Proto size_t ''fwrite'' [cvoid_p, size_t, size_t, FILE_p],
      Proto c_int ''fgetc'' [FILE_p],
      Proto c_int ''getc'' [FILE_p],
      Proto c_int ''getchar'' [],
      Proto c_int ''ungetc'' [c_int, FILE_p],
      Proto c_int ''fputc'' [c_int, FILE_p],
      Proto c_int ''putc'' [c_int, FILE_p],
      Proto c_int ''putchar'' [c_int],
      Proto char_p ''fgets'' [char_p, c_int, FILE_p],
      Cond (CExpr (MBin Lt_op (Ident ''__STDC_VERSION__'') (Lit 201112)))
        [Cond (Defined ''__wasilibc_unmodified_upstream'')
           [Proto char_p ''gets'' [char_p]]
           [Proto char_p ''gets'' [char_p]]]
        []]"

definition stdio_format :: "dir list" where
  "stdio_format =
     [Proto c_int ''fputs'' [cstr_p, FILE_p],
      Proto c_int ''puts'' [cstr_p],
      Proto c_int ''printf'' [cstr_p, varargs],
      Proto c_int ''fprintf'' [FILE_p, cstr_p, varargs],
      Proto c_int ''sprintf'' [char_p, cstr_p, varargs],
      Proto c_int ''snprintf'' [char_p, size_t, cstr_p, varargs],
      Proto c_int ''vprintf'' [cstr_p, va_args],
      Proto c_int ''vfprintf'' [FILE_p, cstr_p, va_args],
      Proto c_int ''vsprintf'' [char_p, cstr_p, va_args],
      Proto c_int ''vsnprintf'' [char_p, size_t, cstr_p, va_args],
      Proto c_int ''scanf'' [cstr_p, varargs],
      Proto c_int ''fscanf'' [FILE_p, cstr_p, varargs],
      Proto c_int ''sscanf'' [cstr_p, cstr_p, varargs],
      Proto c_int ''vscanf'' [cstr_p, va_args],
      Proto c_int ''vfscanf'' [FILE_p, cstr_p, va_args],
      Proto c_int ''vsscanf'' [cstr_p, cstr_p, va_args],
      Proto c_void ''perror'' [cstr_p],
      Proto c_int ''setvbuf'' [FILE_p, char_p, c_int, size_t],
      Proto c_void ''setbuf'' [FILE_p, char_p],
      Cond (Defined ''__wasilibc_unmodified_upstream'')
        [Proto char_p ''tmpnam'' [char_p],
         Proto FILE_p ''tmpfile'' []]
        [Proto char_p ''tmpnam'' [char_p],
         Proto FILE_p ''tmpfile'' []]]"

definition stdio_posix :: "dir list" where
  "stdio_posix =
     [Cond any_source
        [Proto FILE_p ''fmemopen'' [void_p, size_t, cstr_p],
         Proto FILE_p ''open_memstream'' [char_pp, (TPtr size_t)],
         Proto FILE_p ''fdopen'' [c_int, cstr_p],
         Cond (Defined ''__wasilibc_unmodified_upstream'')
           [Proto FILE_p ''popen'' [cstr_p, cstr_p],
            Proto c_int ''pclose'' [FILE_p]]
           [],
         Proto c_int ''fileno'' [FILE_p],
         Proto c_int ''fseeko'' [FILE_p, off_t, c_int],
         Proto off_t ''ftello'' [FILE_p],
         Proto c_int ''dprintf'' [c_int, cstr_p, varargs],
         Proto c_int ''vdprintf'' [c_int, cstr_p, va_args],
         Cond (COr (Defined ''__wasilibc_unmodified_upstream'') (Defined ''_REENTRANT''))
           [Proto c_void ''flockfile'' [FILE_p],
            Proto c_int ''ftrylockfile'' [FILE_p],
            Proto c_void ''funlockfile'' [FILE_p]]
           [],
         Proto c_int ''getc_unlocked'' [FILE_p],
         Proto c_int ''getchar_unlocked'' [],
         Proto c_int ''putc_unlocked'' [c_int, FILE_p],
         Proto c_int ''putchar_unlocked'' [c_int],
         Proto ssize_t ''getdelim'' [char_pp, (TPtr size_t), c_int, FILE_p],
         Proto ssize_t ''getline'' [char_pp, (TPtr size_t), FILE_p],
         Proto c_int ''renameat'' [c_int, cstr_p, c_int, cstr_p],
         Proto char_p ''ctermid'' [char_p],
         Define ''L_ctermid'' (Val (Lit 20))]
        []]"

definition stdio_bsd :: "dir list" where
  "stdio_bsd =
     [Cond (Defined ''__wasilibc_unmodified_upstream'')
        [Cond (COr (COr (Defined ''_XOPEN_SOURCE'') (Defined ''_GNU_SOURCE'')) (Defined ''_BSD_SOURCE''))
           [Define ''P_tmpdir'' (Toks [''\"/tmp\"'']),
            Proto char_p ''tempnam'' [cstr_p, cstr_p]]
           []]
        [],
      Cond gnu_or_bsd
        [Define ''L_cuserid'' (Val (Lit 20)),
         Proto char_p ''cuserid'' [char_p],
         Proto c_void ''setlinebuf'' [FILE_p],
         Proto c_void ''setbuffer'' [FILE_p, char_p, size_t],
         Proto c_int ''fgetc_unlocked'' [FILE_p],
         Proto c_int ''fputc_unlocked'' [c_int, FILE_p],
         Proto c_int ''fflush_unlocked'' [FILE_p],
         Proto size_t ''fread_unlocked'' [void_p, size_t, size_t, FILE_p],
         Proto size_t ''fwrite_unlocked'' [cvoid_p, size_t, size_t, FILE_p],
         Proto c_void ''clearerr_unlocked'' [FILE_p],
         Proto c_int ''feof_unlocked'' [FILE_p],
         Proto c_int ''ferror_unlocked'' [FILE_p],
         Proto c_int ''fileno_unlocked'' [FILE_p],
         Proto c_int ''getw'' [FILE_p],
         Proto c_int ''putw'' [c_int, FILE_p],
         Proto char_p ''fgetln'' [FILE_p, (TPtr size_t)],
         Proto c_int ''asprintf'' [char_pp, cstr_p, varargs],
         Proto c_int ''vasprintf'' [char_pp, cstr_p, va_args]]
        []]"

definition stdio_gnu :: "dir list" where
  "stdio_gnu =
     [Cond (Defined ''_GNU_SOURCE'')
        [Proto char_p ''fgets_unlocked'' [char_p, c_int, FILE_p],
         Proto c_int ''fputs_unlocked'' [cstr_p, FILE_p],
         Typedef (TFun ssize_t [void_p, char_p, size_t]) ''cookie_read_function_t'',
         Typedef (TFun ssize_t [void_p, cstr_p, size_t]) ''cookie_write_function_t'',
         Typedef (TFun c_int [void_p, (TPtr off_t), c_int]) ''cookie_seek_function_t'',
         Typedef (TFun c_int [void_p]) ''cookie_close_function_t'',
         Typedef (TAgg Struct ''_IO_cookie_io_functions_t'' [Field ''read'' (TPtr (TSpec [''cookie_read_function_t''])),
             Field ''write'' (TPtr (TSpec [''cookie_write_function_t''])),
             Field ''seek'' (TPtr (TSpec [''cookie_seek_function_t''])),
             Field ''close'' (TPtr (TSpec [''cookie_close_function_t'']))]) ''cookie_io_functions_t'',
         Proto FILE_p ''fopencookie'' [void_p, cstr_p, (TSpec [''cookie_io_functions_t''])]]
        [],
      Cond (COr (Defined ''_LARGEFILE64_SOURCE'') (Defined ''_GNU_SOURCE''))
        [Cond (Defined ''__wasilibc_unmodified_upstream'')
           [Define ''tmpfile64'' (Toks [''tmpfile''])]
           [],
         Define ''fopen64'' (Toks [''fopen'']),
         Define ''freopen64'' (Toks [''freopen'']),
         Define ''fseeko64'' (Toks [''fseeko'']),
         Define ''ftello64'' (Toks [''ftello'']),
         Define ''fgetpos64'' (Toks [''fgetpos'']),
         Define ''fsetpos64'' (Toks [''fsetpos'']),
         Define ''fpos64_t'' (Toks [''fpos_t'']),
         Define ''off64_t'' (Toks [''off_t''])]
        [],
      Cond (Defined ''__cplusplus'')
        [Text ''}'']
        []]"

text \<open>Memory mappings, \<open>sysfix/sys/mman.h\<close>.\<close>

definition mman_needs :: "dir list" where
  "mman_needs =
     [Define ''_SYS_MMAN_H'' (Toks []),
      Cond (Defined ''__cplusplus'')
        [Text ''extern \"C\" {'']
        [],
      Include ''features.h'',
      NEEDED ''mode_t'',
      NEEDED ''size_t'',
      NEEDED ''off_t'',
      Cond (Defined ''_GNU_SOURCE'')
        [NEEDED ''ssize_t'']
        [],
      Include ''bits/alltypes.h'']"

definition mman_map :: "dir list" where
  "mman_map =
     [Define ''MAP_FAILED'' (Val (MCast [''void'', ''*''] (MNeg (Lit 1)))),
      Define ''MAP_SHARED'' (Val (Lit 0x01)),
      Define ''MAP_PRIVATE'' (Val (Lit 0x02)),
      Define ''MAP_SHARED_VALIDATE'' (Val (Lit 0x03)),
      Define ''MAP_TYPE'' (Val (Lit 0x0f)),
      Define ''MAP_FIXED'' (Val (Lit 0x10)),
      Define ''MAP_ANON'' (Val (Lit 0x20)),
      Define ''MAP_ANONYMOUS'' (Toks [''MAP_ANON'']),
      Define ''MAP_NORESERVE'' (Val (Lit 0x4000)),
      Define ''MAP_GROWSDOWN'' (Val (Lit 0x0100)),
      Define ''MAP_DENYWRITE'' (Val (Lit 0x0800)),
      Define ''MAP_EXECUTABLE'' (Val (Lit 0x1000)),
      Define ''MAP_LOCKED'' (Val (Lit 0x2000)),
      Define ''MAP_POPULATE'' (Val (Lit 0x8000)),
      Define ''MAP_NONBLOCK'' (Val (Lit 0x10000)),
      Define ''MAP_STACK'' (Val (Lit 0x20000)),
      Define ''MAP_HUGETLB'' (Val (Lit 0x40000)),
      Define ''MAP_SYNC'' (Val (Lit 0x80000)),
      Define ''MAP_FIXED_NOREPLACE'' (Val (Lit 0x100000)),
      Define ''MAP_FILE'' (Val (Lit 0))]"

definition mman_huge :: "dir list" where
  "mman_huge =
     [Define ''MAP_HUGE_SHIFT'' (Val (Lit 26)),
      Define ''MAP_HUGE_MASK'' (Val (Lit 0x3f)),
      Define ''MAP_HUGE_16KB'' (Val (MBin Shl_op (Lit 14) (Lit 26))),
      Define ''MAP_HUGE_64KB'' (Val (MBin Shl_op (Lit 16) (Lit 26))),
      Define ''MAP_HUGE_512KB'' (Val (MBin Shl_op (Lit 19) (Lit 26))),
      Define ''MAP_HUGE_1MB'' (Val (MBin Shl_op (Lit 20) (Lit 26))),
      Define ''MAP_HUGE_2MB'' (Val (MBin Shl_op (Lit 21) (Lit 26))),
      Define ''MAP_HUGE_8MB'' (Val (MBin Shl_op (Lit 23) (Lit 26))),
      Define ''MAP_HUGE_16MB'' (Val (MBin Shl_op (Lit 24) (Lit 26))),
      Define ''MAP_HUGE_32MB'' (Val (MBin Shl_op (Lit 25) (Lit 26))),
      Define ''MAP_HUGE_256MB'' (Val (MBin Shl_op (Lit 28) (Lit 26))),
      Define ''MAP_HUGE_512MB'' (Val (MBin Shl_op (Lit 29) (Lit 26))),
      Define ''MAP_HUGE_1GB'' (Val (MBin Shl_op (Lit 30) (Lit 26))),
      Define ''MAP_HUGE_2GB'' (Val (MBin Shl_op (Lit 31) (Lit 26))),
      Define ''MAP_HUGE_16GB'' (Val (MBin Shl_op (ULit 34) (Lit 26)))]"

definition mman_prot :: "dir list" where
  "mman_prot =
     [Define ''PROT_NONE'' (Val (Lit 0)),
      Define ''PROT_READ'' (Val (Lit 1)),
      Define ''PROT_WRITE'' (Val (Lit 2)),
      Define ''PROT_EXEC'' (Val (Lit 4)),
      Define ''PROT_GROWSDOWN'' (Val (Lit 0x01000000)),
      Define ''PROT_GROWSUP'' (Val (Lit 0x02000000)),
      Define ''MS_ASYNC'' (Val (Lit 1)),
      Define ''MS_INVALIDATE'' (Val (Lit 2)),
      Define ''MS_SYNC'' (Val (Lit 4)),
      Define ''MCL_CURRENT'' (Val (Lit 1)),
      Define ''MCL_FUTURE'' (Val (Lit 2)),
      Define ''MCL_ONFAULT'' (Val (Lit 4)),
      Define ''POSIX_MADV_NORMAL'' (Val (Lit 0)),
      Define ''POSIX_MADV_RANDOM'' (Val (Lit 1)),
      Define ''POSIX_MADV_SEQUENTIAL'' (Val (Lit 2)),
      Define ''POSIX_MADV_WILLNEED'' (Val (Lit 3)),
      Define ''POSIX_MADV_DONTNEED'' (Val (Lit 4))]"

definition mman_madv :: "dir list" where
  "mman_madv =
     [Cond gnu_or_bsd
        [Define ''MADV_NORMAL'' (Val (Lit 0)),
         Define ''MADV_RANDOM'' (Val (Lit 1)),
         Define ''MADV_SEQUENTIAL'' (Val (Lit 2)),
         Define ''MADV_WILLNEED'' (Val (Lit 3)),
         Define ''MADV_DONTNEED'' (Val (Lit 4)),
         Define ''MADV_FREE'' (Val (Lit 8)),
         Define ''MADV_REMOVE'' (Val (Lit 9)),
         Define ''MADV_DONTFORK'' (Val (Lit 10)),
         Define ''MADV_DOFORK'' (Val (Lit 11)),
         Define ''MADV_MERGEABLE'' (Val (Lit 12)),
         Define ''MADV_UNMERGEABLE'' (Val (Lit 13)),
         Define ''MADV_HUGEPAGE'' (Val (Lit 14)),
         Define ''MADV_NOHUGEPAGE'' (Val (Lit 15)),
         Define ''MADV_DONTDUMP'' (Val (Lit 16)),
         Define ''MADV_DODUMP'' (Val (Lit 17)),
         Define ''MADV_WIPEONFORK'' (Val (Lit 18)),
         Define ''MADV_KEEPONFORK'' (Val (Lit 19)),
         Define ''MADV_COLD'' (Val (Lit 20)),
         Define ''MADV_PAGEOUT'' (Val (Lit 21)),
         Define ''MADV_HWPOISON'' (Val (Lit 100)),
         Define ''MADV_SOFT_OFFLINE'' (Val (Lit 101))]
        [],
      Cond (Defined ''_GNU_SOURCE'')
        [Define ''MREMAP_MAYMOVE'' (Val (Lit 1)),
         Define ''MREMAP_FIXED'' (Val (Lit 2)),
         Define ''MREMAP_DONTUNMAP'' (Val (Lit 4)),
         Define ''MLOCK_ONFAULT'' (Val (Lit 0x01)),
         Define ''MFD_CLOEXEC'' (Val (ULit 0x0001)),
         Define ''MFD_ALLOW_SEALING'' (Val (ULit 0x0002)),
         Define ''MFD_HUGETLB'' (Val (ULit 0x0004))]
        []]"

definition mman_calls :: "dir list" where
  "mman_calls =
     [Include ''bits/mman.h'',
      Proto void_p ''mmap'' [void_p, size_t, c_int, c_int, c_int, off_t],
      Proto c_int ''munmap'' [void_p, size_t],
      Proto c_int ''mprotect'' [void_p, size_t, c_int],
      Proto c_int ''msync'' [void_p, size_t, c_int],
      Proto c_int ''posix_madvise'' [void_p, size_t, c_int],
      Proto c_int ''mlock'' [cvoid_p, size_t],
      Proto c_int ''munlock'' [cvoid_p, size_t],
      Proto c_int ''mlockall'' [c_int],
      Proto c_int ''munlockall'' [],
      Cond (Defined ''_GNU_SOURCE'')
        [Proto void_p ''mremap'' [void_p, size_t, size_t, c_int, varargs],
         Proto c_int ''remap_file_pages'' [void_p, size_t, c_int, size_t, c_int],
         Proto c_int ''memfd_create'' [cstr_p, (TSpec [''unsigned''])],
         Proto c_int ''mlock2'' [cvoid_p, size_t, (TSpec [''unsigned''])]]
        [],
      Cond gnu_or_bsd
        [Proto c_int ''madvise'' [void_p, size_t, c_int],
         Proto c_int ''mincore'' [void_p, size_t, (TPtr (TSpec [''unsigned'', ''char'']))]]
        [],
      Cond (COr (Defined ''_LARGEFILE64_SOURCE'') (Defined ''_GNU_SOURCE''))
        [Define ''mmap64'' (Toks [''mmap'']),
         Define ''off64_t'' (Toks [''off_t''])]
        [],
      Cond (Defined ''__cplusplus'')
        [Text ''}'']
        []]"

text \<open>Address resolution, \<open>hotfix/netdb.h\<close>.\<close>

definition netdb_addrinfo :: "dir list" where
  "netdb_addrinfo =
     [Define ''_NETDB_H'' (Toks []),
      Cond (Defined ''__cplusplus'')
        [Text ''extern \"C\" {'']
        [],
      Include ''features.h'',
      Include ''netinet/in.h'',
      Cond gnu_or_bsd
        [NEEDED ''size_t'',
         Include ''bits/alltypes.h'']
        [],
      Declare (TAgg Struct ''addrinfo'' [Field ''ai_flags'' c_int, Field ''ai_family'' c_int,
          Field ''ai_socktype'' c_int, Field ''ai_protocol'' c_int, Field ''ai_addrlen'' (TSpec [''socklen_t'']),
          Field ''ai_addr'' (struct_p ''sockaddr''), Field ''ai_canonname'' char_p,
          Field ''ai_next'' (struct_p ''addrinfo'')])]"

definition netdb_flags :: "dir list" where
  "netdb_flags =
     [Define ''AI_PASSIVE'' (Val (Lit 0x01)),
      Define ''AI_CANONNAME'' (Val (Lit 0x02)),
      Define ''AI_NUMERICHOST'' (Val (Lit 0x04)),
      Define ''AI_V4MAPPED'' (Val (Lit 0x08)),
      Define ''AI_ALL'' (Val (Lit 0x10)),
      Define ''AI_ADDRCONFIG'' (Val (Lit 0x20)),
      Define ''AI_NUMERICSERV'' (Val (Lit 0x400)),
      Define ''NI_NUMERICHOST'' (Val (Lit 0x01)),
      Define ''NI_NUMERICSERV'' (Val (Lit 0x02)),
      Define ''NI_NOFQDN'' (Val (Lit 0x04)),
      Define ''NI_NAMEREQD'' (Val (Lit 0x08)),
      Define ''NI_DGRAM'' (Val (Lit 0x10)),
      Define ''NI_NUMERICSCOPE'' (Val (Lit 0x100))]"

definition netdb_errors :: "dir list" where
  "netdb_errors =
     [Define ''EAI_BADFLAGS'' (Val (MNeg (Lit 1))),
      Define ''EAI_NONAME'' (Val (MNeg (Lit 2))),
      Define ''EAI_AGAIN'' (Val (MNeg (Lit 3))),
      Define ''EAI_FAIL'' (Val (MNeg (Lit 4))),
      Define ''EAI_NODATA'' (Val (MNeg (Lit 5))),
      Define ''EAI_FAMILY'' (Val (MNeg (Lit 6))),
      Define ''EAI_SOCKTYPE'' (Val (MNeg (Lit 7))),
      Define ''EAI_SERVICE'' (Val (MNeg (Lit 8))),
      Define ''EAI_MEMORY'' (Val (MNeg (Lit 10))),
      Define ''EAI_SYSTEM'' (Val (MNeg (Lit 11))),
      Define ''EAI_OVERFLOW'' (Val (MNeg (Lit 12))),
      Define ''getnameinfo'' (Fn (MNeg (Lit 1)))]"

definition netdb_records :: "dir list" where
  "netdb_records =
     [Declare (TAgg Struct ''netent'' [Field ''n_name'' char_p, Field ''n_aliases'' char_pp,
          Field ''n_addrtype'' c_int, Field ''n_net'' (TSpec [''uint32_t''])]),
      Declare (TAgg Struct ''hostent'' [Field ''h_name'' char_p, Field ''h_aliases'' char_pp,
          Field ''h_addrtype'' c_int, Field ''h_length'' c_int, Field ''h_addr_list'' char_pp]),
      Define ''h_addr'' (Toks [''h_addr_list'', ''['', ''0'', '']'']),
      Declare (TAgg Struct ''servent'' [Field ''s_name'' char_p, Field ''s_aliases'' char_pp,
          Field ''s_port'' c_int, Field ''s_proto'' char_p]),
      Declare (TAgg Struct ''protoent'' [Field ''p_name'' char_p, Field ''p_aliases'' char_pp,
          Field ''p_proto'' c_int])]"

definition netdb_calls :: "dir list" where
  "netdb_calls =
     [Proto c_void ''sethostent'' [c_int],
      Proto c_void ''endhostent'' [],
      Proto (struct_p ''hostent'') ''gethostent'' [],
      Proto c_void ''setnetent'' [c_int],
      Proto c_void ''endnetent'' [],
      Proto (struct_p ''netent'') ''getnetent'' [],
      Proto (struct_p ''netent'') ''getnetbyaddr'' [(TSpec [''uint32_t'']), c_int],
      Proto (struct_p ''netent'') ''getnetbyname'' [cstr_p],
      Proto c_void ''setservent'' [c_int],
      Proto c_void ''endservent'' [],
      Proto (struct_p ''servent'') ''getservent'' [],
      Proto (struct_p ''servent'') ''getservbyname'' [cstr_p, cstr_p],
      Proto (struct_p ''servent'') ''getservbyport'' [c_int, cstr_p],
      Proto c_void ''setprotoent'' [c_int],
      Proto c_void ''endprotoent'' [],
      Proto (struct_p ''protoent'') ''getprotoent'' [],
      Proto (struct_p ''protoent'') ''getprotobyname'' [cstr_p],
      Proto (struct_p ''protoent'') ''getprotobynumber'' [c_int]]"

definition netdb_hosts :: "dir list" where
  "netdb_hosts =
     [Cond (COr (COr (COr gnu_or_bsd (Defined ''_POSIX_SOURCE''))
          (CAnd (Defined ''_POSIX_C_SOURCE'') (CExpr (MBin Lt_op (MBin Plus_op (Ident ''_POSIX_C_SOURCE'') (Lit 0)) (Lit 200809)))))
          (CAnd (Defined ''_XOPEN_SOURCE'') (CExpr (MBin Lt_op (MBin Plus_op (Ident ''_XOPEN_SOURCE'') (Lit 0)) (Lit 700)))))
        [Proto (struct_p ''hostent'') ''gethostbyname'' [cstr_p],
         Proto (struct_p ''hostent'') ''gethostbyaddr'' [cvoid_p, (TSpec [''socklen_t'']), c_int],
         Cond (Defined ''__GNUC__'')
           [Text ''__attribute__((const))'']
           [],
         Proto (TPtr c_int) ''__h_errno_location'' [],
         Define ''h_errno'' (Toks [''('', ''*'', ''__h_errno_location'', ''('', '')'', '')'']),
         Define ''HOST_NOT_FOUND'' (Val (Lit 1)),
         Define ''TRY_AGAIN'' (Val (Lit 2)),
         Define ''NO_RECOVERY'' (Val (Lit 3)),
         Define ''NO_DATA'' (Val (Lit 4)),
         Define ''NO_ADDRESS'' (Toks [''NO_DATA''])]
        []]"

definition netdb_gnu :: "dir list" where
  "netdb_gnu =
     [Cond gnu_or_bsd
        [Proto c_void ''herror'' [cstr_p],
         Proto cstr_p ''hstrerror'' [c_int],
         Proto c_int ''gethostbyname_r'' [cstr_p, (struct_p ''hostent''), char_p, size_t,
             (TPtr (struct_p ''hostent'')), (TPtr c_int)],
         Proto c_int ''gethostbyname2_r'' [cstr_p, c_int, (struct_p ''hostent''), char_p, size_t,
             (TPtr (struct_p ''hostent'')), (TPtr c_int)],
         Proto (struct_p ''hostent'') ''gethostbyname2'' [cstr_p, c_int],
         Proto c_int ''gethostbyaddr_r'' [cvoid_p, (TSpec [''socklen_t'']), c_int, (struct_p ''hostent''), char_p,
             size_t, (TPtr (struct_p ''hostent'')), (TPtr c_int)],
         Proto c_int ''getservbyport_r'' [c_int, cstr_p, (struct_p ''servent''), char_p, size_t,
             (TPtr (struct_p ''servent''))],
         Proto c_int ''getservbyname_r'' [cstr_p, cstr_p, (struct_p ''servent''), char_p, size_t,
             (TPtr (struct_p ''servent''))],
         Define ''EAI_NODATA'' (Val (MNeg (Lit 5))),
         Define ''EAI_ADDRFAMILY'' (Val (MNeg (Lit 9))),
         Define ''EAI_INPROGRESS'' (Val (MNeg (Lit 100))),
         Define ''EAI_CANCELED'' (Val (MNeg (Lit 101))),
         Define ''EAI_NOTCANCELED'' (Val (MNeg (Lit 102))),
         Define ''EAI_ALLDONE'' (Val (MNeg (Lit 103))),
         Define ''EAI_INTR'' (Val (MNeg (Lit 104))),
         Define ''EAI_IDN_ENCODE'' (Val (MNeg (Lit 105))),
         Define ''NI_MAXHOST'' (Val (Lit 255)),
         Define ''NI_MAXSERV'' (Val (Lit 32))]
        [],
      Cond (Defined ''__cplusplus'')
        [Text ''}'']
        []]"

text \<open>Permissions of System V objects, \<open>hotfix/sys/ipc.h\<close> and \<open>hotfix/bits/ipc.h\<close>.\<close>

definition bits_ipc_h :: "dir list" where
  "bits_ipc_h =
     [Declare (TAgg Struct ''ipc_perm'' [Field ''__ipc_perm_key'' (TSpec [''key_t'']),
          Field ''uid'' (TSpec [''uid_t'']), Field ''gid'' (TSpec [''gid_t'']), Field ''cuid'' (TSpec [''uid_t'']),
          Field ''cgid'' (TSpec [''gid_t'']), Field ''mode'' (TSpec [''mode_t'']), Field ''__ipc_perm_seq'' c_int,
          Field ''__pad1'' c_long, Field ''__pad2'' c_long])]"

definition ipc_perms :: "dir list" where
  "ipc_perms =
     [Define ''_SYS_IPC_H'' (Toks []),
      Cond (Defined ''__cplusplus'')
        [Text ''extern \"C\" {'']
        [],
      Include ''features.h'',
      NEEDED ''uid_t'',
      NEEDED ''gid_t'',
      NEEDED ''mode_t'',
      NEEDED ''key_t'',
      Include ''bits/alltypes.h'',
      Define ''__ipc_perm_key'' (Toks [''__key'']),
      Define ''__ipc_perm_seq'' (Toks [''__seq'']),
      Cond gnu_or_bsd
        [Define ''__key'' (Toks [''key'']),
         Define ''__seq'' (Toks [''seq''])]
        [],
      Include ''bits/ipc.h'',
      Include ''bits/ipcstat.h'']"

definition ipc_constants :: "dir list" where
  "ipc_constants =
     [Define ''IPC_CREAT'' (Val (Lit 0x200)),
      Define ''IPC_EXCL'' (Val (Lit 0x400)),
      Define ''IPC_NOWAIT'' (Val (Lit 0x800)),
      Define ''IPC_RMID'' (Val (Lit 0)),
      Define ''IPC_SET'' (Val (Lit 1)),
      Define ''IPC_INFO'' (Val (Lit 3)),
      Define ''IPC_PRIVATE'' (Val (MCast [''key_t''] (Lit 0))),
      Proto (TSpec [''key_t'']) ''ftok'' [cstr_p, c_int],
      Cond (Defined ''__cplusplus'')
        [Text ''}'']
        []]"

text \<open>Shared memory segments, \<open>sysfix/sys/shm.h\<close> and \<open>sysfix/bits/shm.h\<close>.\<close>

definition bits_shm_h :: "dir list" where
  "bits_shm_h =
     [Define ''SHMLBA'' (Val (Lit 4096)),
      Declare (TAgg Struct ''shmid_ds'' [Field ''shm_perm'' (TSpec [''struct'', ''ipc_perm'']),
          Field ''shm_segsz'' size_t, Field ''shm_atime'' time_t, Field ''shm_dtime'' time_t,
          Field ''shm_ctime'' time_t, Field ''shm_cpid'' (TSpec [''pid_t'']),
          Field ''shm_lpid'' (TSpec [''pid_t'']), Field ''shm_nattch'' c_ulong, Field ''__pad1'' c_ulong,
          Field ''__pad2'' c_ulong]),
      Declare (TAgg Struct ''shminfo'' [Field ''shmmax'' c_ulong, Field ''shmmin'' c_ulong,
          Field ''shmmni'' c_ulong, Field ''shmseg'' c_ulong, Field ''shmall'' c_ulong,
          Field ''__unused'' (TArr c_ulong (AVal (Lit 4)))]),
      Declare (TAgg Struct ''shm_info'' [Field ''__used_ids'' c_int, Field ''shm_tot'' c_ulong,
          Field ''shm_rss'' c_ulong, Field ''shm_swp'' c_ulong, Field ''__swap_attempts'' c_ulong,
          Field ''__swap_successes'' c_ulong])]"

definition shm_needs :: "dir list" where
  "shm_needs =
     [Define ''_SYS_SHM_H'' (Toks []),
      Cond (Defined ''__cplusplus'')
        [Text ''extern \"C\" {'']
        [],
      Include ''features.h'',
      NEEDED ''time_t'',
      NEEDED ''size_t'',
      NEEDED ''pid_t'',
      Include ''bits/alltypes.h'',
      Include ''sys/ipc.h'',
      Cond (Defined ''_GNU_SOURCE'')
        [Define ''__used_ids'' (Toks [''used_ids'']),
         Define ''__swap_attempts'' (Toks [''swap_attempts'']),
         Define ''__swap_successes'' (Toks [''swap_successes''])]
        [],
      Include ''bits/shm.h'']"

definition shm_constants :: "dir list" where
  "shm_constants =
     [Define ''SHM_R'' (Val (Lit 0x100)),
      Define ''SHM_W'' (Val (Lit 0x80)),
      Define ''SHM_RDONLY'' (Val (Lit 0x1000)),
      Define ''SHM_RND'' (Val (Lit 0x2000)),
      Define ''SHM_REMAP'' (Val (Lit 0x4000)),
      Define ''SHM_EXEC'' (Val (Lit 0x8000)),
      Define ''SHM_LOCK'' (Val (Lit 11)),
      Define ''SHM_UNLOCK'' (Val (Lit 12)),
      Define ''SHM_STAT'' (Val (MBin Or_op (Lit 13) (MBin And_op (Ident ''IPC_STAT'') (Lit 0x100)))),
      Define ''SHM_INFO'' (Val (Lit 14)),
      Define ''SHM_STAT_ANY'' (Val (MBin Or_op (Lit 15) (MBin And_op (Ident ''IPC_STAT'') (Lit 0x100)))),
      Define ''SHM_DEST'' (Val (Lit 0x200)),
      Define ''SHM_LOCKED'' (Val (Lit 0x400)),
      Define ''SHM_HUGETLB'' (Val (Lit 0x800)),
      Define ''SHM_NORESERVE'' (Val (Lit 0x1000))]"

definition shm_huge :: "dir list" where
  "shm_huge =
     [Define ''SHM_HUGE_SHIFT'' (Val (Lit 26)),
      Define ''SHM_HUGE_MASK'' (Val (Lit 0x3f)),
      Define ''SHM_HUGE_64KB'' (Val (MBin Shl_op (Lit 16) (Lit 26))),
      Define ''SHM_HUGE_512KB'' (Val (MBin Shl_op (Lit 19) (Lit 26))),
      Define ''SHM_HUGE_1MB'' (Val (MBin Shl_op (Lit 20) (Lit 26))),
      Define ''SHM_HUGE_2MB'' (Val (MBin Shl_op (Lit 21) (Lit 26))),
      Define ''SHM_HUGE_8MB'' (Val (MBin Shl_op (Lit 23) (Lit 26))),
      Define ''SHM_HUGE_16MB'' (Val (MBin Shl_op (Lit 24) (Lit 26))),
      Define ''SHM_HUGE_32MB'' (Val (MBin Shl_op (Lit 25) (Lit 26))),
      Define ''SHM_HUGE_256MB'' (Val (MBin Shl_op (Lit 28) (Lit 26))),
      Define ''SHM_HUGE_512MB'' (Val (MBin Shl_op (Lit 29) (Lit 26))),
      Define ''SHM_HUGE_1GB'' (Val (MBin Shl_op (Lit 30) (Lit 26))),
      Define ''SHM_HUGE_2GB'' (Val (MBin Shl_op (Lit 31) (Lit 26))),
      Define ''SHM_HUGE_16GB'' (Val (MBin Shl_op (ULit 34) (Lit 26)))]"

definition shm_calls :: "dir list" where
  "shm_calls =
     [Typedef c_ulong ''shmatt_t'',
      Proto void_p ''shmat'' [c_int, cvoid_p, c_int],
      Proto c_int ''shmctl'' [c_int, c_int, (struct_p ''shmid_ds'')],
      Proto c_int ''shmdt'' [cvoid_p],
      Proto c_int ''shmget'' [(TSpec [''key_t'']), size_t, c_int],
      Cond (Defined ''__cplusplus'')
        [Text ''}'']
        []]"

text \<open>Semaphores, \<open>hotfix/sys/sem.h\<close> and \<open>hotfix/bits/sem.h\<close>; the alternatives inside the structure are written
  as two declarations.\<close>

definition semid_ds :: "cfield list \<Rightarrow> ctype" where
  "semid_ds nsems = TAgg Struct ''semid_ds'' ([Field ''sem_perm'' (TSpec [''struct'', ''ipc_perm'']),
     Field ''sem_otime'' time_t, Field ''sem_ctime'' time_t] @ nsems @ [Field ''__unused3'' c_long, Field ''__unused4'' c_long])"

definition sem_nsems :: cfield where
  "sem_nsems = Field ''sem_nsems'' (TSpec [''unsigned'', ''short''])"

definition sem_nsems_pad :: cfield where
  "sem_nsems_pad = Field ''__sem_nsems_pad''
     (TArr (TSpec [''char'']) (ABin Minus_op (SizeOf c_long) (SizeOf (TSpec [''short'']))))"

definition bits_sem_h :: "dir list" where
  "bits_sem_h = [Cond (CExpr (MBin Eq_op (Ident ''__BYTE_ORDER'') (Ident ''__LITTLE_ENDIAN'')))
     [Declare (semid_ds [sem_nsems, sem_nsems_pad])]
     [Declare (semid_ds [sem_nsems_pad, sem_nsems])]]"

definition sem_needs :: "dir list" where
  "sem_needs =
     [Define ''_SYS_SEM_H'' (Toks []),
      Cond (Defined ''__cplusplus'')
        [Text ''extern \"C\" {'']
        [],
      Include ''features.h'',
      NEEDED ''size_t'',
      NEEDED ''pid_t'',
      NEEDED ''time_t'',
      Cond (Defined ''_GNU_SOURCE'')
        [NEEDED ''struct_timespec'']
        [],
      Include ''bits/alltypes.h'',
      Include ''sys/ipc.h'']"

definition sem_constants :: "dir list" where
  "sem_constants =
     [Define ''SEM_UNDO'' (Val (Lit 0x1000)),
      Define ''GETPID'' (Val (Lit 11)),
      Define ''GETVAL'' (Val (Lit 12)),
      Define ''GETALL'' (Val (Lit 13)),
      Define ''GETNCNT'' (Val (Lit 14)),
      Define ''GETZCNT'' (Val (Lit 15)),
      Define ''SETVAL'' (Val (Lit 16)),
      Define ''SETALL'' (Val (Lit 17)),
      Include ''bits/sem.h'',
      Define ''_SEM_SEMUN_UNDEFINED'' (Val (Lit 1)),
      Define ''SEM_STAT'' (Val (MBin Or_op (Lit 18) (MBin And_op (Ident ''IPC_STAT'') (Lit 0x100)))),
      Define ''SEM_INFO'' (Val (Lit 19)),
      Define ''SEM_STAT_ANY'' (Val (MBin Or_op (Lit 20) (MBin And_op (Ident ''IPC_STAT'') (Lit 0x100))))]"

definition sem_records :: "dir list" where
  "sem_records =
     [Declare (TAgg Struct ''seminfo'' [Field ''semmap'' c_int, Field ''semmni'' c_int, Field ''semmns'' c_int,
          Field ''semmnu'' c_int, Field ''semmsl'' c_int, Field ''semopm'' c_int, Field ''semume'' c_int,
          Field ''semusz'' c_int, Field ''semvmx'' c_int, Field ''semaem'' c_int]),
      Declare (TAgg Struct ''sembuf'' [Field ''sem_num'' (TSpec [''unsigned'', ''short'']),
          Field ''sem_op'' (TSpec [''short'']), Field ''sem_flg'' (TSpec [''short''])]),
      Cond (Defined ''_GNU_SOURCE'')
        [Proto c_int ''semtimedop'' [c_int, (struct_p ''sembuf''), size_t, (TPtr (TSpec [''const'', ''struct'',
             ''timespec'']))]]
        [],
      Cond (CExpr (Ident ''_REDIR_TIME64''))
        [Cond (Defined ''_GNU_SOURCE'')
           [Invoke ''__REDIR'' [''semtimedop'', ''__semtimedop_time64'']]
           []]
        [],
      Cond (Defined ''__cplusplus'')
        [Text ''}'']
        []]"

text \<open>Users, \<open>hotfix/pwd.h\<close>.\<close>

definition pwd_body :: "dir list" where
  "pwd_body =
     [Define ''_WASIX_PWD_H'' (Toks []),
      Include ''unistd.h'',
      Include ''features.h'',
      Include ''bits/alltypes.h'',
      Define ''__need_size_t'' (Toks []),
      Include ''stddef.h'',
      Declare (TAgg Struct ''passwd'' [Field ''pw_name'' char_p, Field ''pw_passwd'' char_p,
          Field ''pw_uid'' (TSpec [''uid_t'']), Field ''pw_gid'' (TSpec [''gid_t'']), Field ''pw_gecos'' char_p,
          Field ''pw_dir'' char_p, Field ''pw_shell'' char_p]),
      FunDef (struct_p ''passwd'') ''getpwnam'' [cstr_p],
      FunDef (struct_p ''passwd'') ''getpwuid'' [(TSpec [''uid_t''])]]"

text \<open>Dynamic loading, \<open>hotfix/dlfcn.h\<close>.\<close>

definition dlfcn_constants :: "dir list" where
  "dlfcn_constants =
     [Define ''_DLFCN_H'' (Toks []),
      Cond (Defined ''__cplusplus'')
        [Text ''extern \"C\" {'']
        [],
      Include ''features.h'',
      Define ''RTLD_LAZY'' (Val (Lit 1)),
      Define ''RTLD_NOW'' (Val (Lit 2)),
      Define ''RTLD_NOLOAD'' (Val (Lit 4)),
      Define ''RTLD_NODELETE'' (Val (Lit 4096)),
      Define ''RTLD_GLOBAL'' (Val (Lit 256)),
      Define ''RTLD_LOCAL'' (Val (Lit 0)),
      Define ''RTLD_NEXT'' (Val (MCast [''void'', ''*''] (MNeg (Lit 1)))),
      Define ''RTLD_DEFAULT'' (Val (MCast [''void'', ''*''] (Lit 0))),
      Define ''RTLD_DI_LINKMAP'' (Val (Lit 2))]"

definition dlfcn_calls :: "dir list" where
  "dlfcn_calls =
     [FunDef c_int ''dlclose'' [void_p],
      Extern cstr_p ''errormsg'',
      Cond (Defined ''PYDK'')
        [Proto char_p ''dlerror'' [],
         Proto void_p ''dlopen'' [cstr_p, c_int],
         Proto void_p ''dlsym'' [void_p, cstr_p]]
        [FunDef char_p ''dlerror'' [],
         FunDef void_p ''dlopen'' [cstr_p, c_int],
         FunDef void_p ''dlsym'' [void_p, cstr_p]],
      Cond gnu_or_bsd
        [Typedef (TAgg Struct [] [Field ''dli_fname'' cstr_p, Field ''dli_fbase'' void_p,
             Field ''dli_sname'' cstr_p, Field ''dli_saddr'' void_p]) ''Dl_info'',
         Proto c_int ''dladdr'' [cvoid_p, (TPtr (TSpec [''Dl_info'']))],
         Proto c_int ''dlinfo'' [void_p, c_int, void_p]]
        [],
      Cond (CExpr (Ident ''_REDIR_TIME64''))
        [Invoke ''__REDIR'' [''dlsym'', ''__dlsym_time64'']]
        [],
      Cond (Defined ''__cplusplus'')
        [Text ''}'']
        []]"

text \<open>Jumps, resource usage and socket addresses: \<open>sysfix/setjmp.h\<close>, \<open>sysfix/__header_sys_resource.h\<close> and
  \<open>sysfix/__struct_sockaddr_un.h\<close>.\<close>

definition setjmp_types :: "dir list" where
  "setjmp_types =
     [Define ''_SETJMP_H'' (Toks []),
      Cond (Defined ''__cplusplus'')
        [Text ''extern \"C\" {'']
        [],
      Include ''features.h'',
      Cond (CNot (Defined ''__wasilibc_unmodified_upstream''))
        [Cond (CNot (Defined ''__wasm_exception_handling__''))
           []
           []]
        [],
      Include ''bits/setjmp.h'',
      Typedef (TArr (TAgg Struct ''__jmp_buf_tag'' [Field ''__jb'' (TSpec [''__jmp_buf'']), Field ''__fl'' c_ulong,
          Field ''__ss'' (TArr c_ulong (ABin Div_op (AVal (Lit 128)) (SizeOf c_long)))]) (AVal (Lit 1))) ''jmp_buf'']"

definition setjmp_calls :: "dir list" where
  "setjmp_calls =
     [Cond (COr (CExpr (MBin Gt_op (Ident ''__GNUC__'') (Lit 4)))
          (CAnd (CExpr (MBin Eq_op (Ident ''__GNUC__'') (Lit 4))) (CExpr (MBin Ge_op (Ident ''__GNUC_MINOR__'') (Lit 1)))))
        [Define ''__setjmp_attr'' (Toks [''__attribute__'', ''('', ''('', ''__returns_twice__'', '')'', '')''])]
        [Define ''__setjmp_attr'' (Toks [])],
      Cond any_source
        [Typedef (TSpec [''jmp_buf'']) ''sigjmp_buf'']
        [],
      Cond (COr (COr (Defined ''_XOPEN_SOURCE'') (Defined ''_GNU_SOURCE'')) (Defined ''_BSD_SOURCE''))
        [Proto c_int ''_setjmp'' [(TSpec [''jmp_buf''])],
         Proto c_void ''_longjmp'' [(TSpec [''jmp_buf'']), c_int]]
        [],
      Proto c_int ''setjmp'' [(TSpec [''jmp_buf''])],
      Proto c_void ''longjmp'' [(TSpec [''jmp_buf'']), c_int],
      Define ''setjmp'' (Toks [''setjmp'']),
      Undef ''__setjmp_attr'',
      Cond (Defined ''__cplusplus'')
        [Text ''}'']
        []]"

definition resource_body :: "dir list" where
  "resource_body =
     [Define ''__wasilibc___header_sys_resource_h'' (Toks []),
      Include ''__struct_rusage.h'',
      Define ''RUSAGE_SELF'' (Val (Lit 1)),
      Define ''RUSAGE_CHILDREN'' (Val (Lit 2)),
      Cond (Defined ''__cplusplus'')
        [Text ''extern \"C\" {'']
        [],
      Cond (Defined ''__cplusplus'')
        [Text ''}'']
        []]"

definition sockaddr_un_body :: "dir list" where
  "sockaddr_un_body =
     [Define ''__wasilibc___struct_sockaddr_un_h'' (Toks []),
      Include ''__typedef_sa_family_t.h'',
      Declare (TAgg Struct ''sockaddr_un'' [Aligned (Ident ''__BIGGEST_ALIGNMENT__'') ''sun_family'' (TSpec [''sa_family_t'']),
          Field ''sun_path'' (TArr (TSpec [''char'']) (AVal (Lit 108)))])]"

text \<open>The complete headers, with their include guards.\<close>

definition once_only :: "string \<Rightarrow> dir list \<Rightarrow> dir list" where
  "once_only g ds = [Cond (CNot (Defined g)) ds []]"

definition stdio_h :: "dir list" where
  "stdio_h = once_only ''_STDIO_H'' (stdio_needs @ stdio_constants @ stdio_streams @ stdio_chars @ stdio_format
     @ stdio_posix @ stdio_bsd @ stdio_gnu)"

definition mman_refusal :: string where
  "mman_refusal = ''WASI lacks a true mmap; to enable minimal mmap emulation, compile with -D_WASI_EMULATED_MMAN and link with -lwasi-emulated-mman''"

definition mman_h :: "dir list" where
  "mman_h = [Cond (CNot (Defined ''_WASI_EMULATED_MMAN''))
     [Err mman_refusal]
     (once_only ''_SYS_MMAN_H'' (mman_needs @ mman_map @ mman_huge @ mman_prot @ mman_madv @ mman_calls))]"

definition netdb_h :: "dir list" where
  "netdb_h = once_only ''_NETDB_H'' (netdb_addrinfo @ netdb_flags @ netdb_errors @ netdb_records @ netdb_calls
     @ netdb_hosts @ netdb_gnu)"

definition ipc_h :: "dir list" where
  "ipc_h = once_only ''_SYS_IPC_H'' (ipc_perms @ ipc_constants)"

definition shm_h :: "dir list" where
  "shm_h = once_only ''_SYS_SHM_H'' (shm_needs @ shm_constants @ shm_huge @ shm_calls)"

definition sem_h :: "dir list" where
  "sem_h = once_only ''_SYS_SEM_H'' (sem_needs @ sem_constants @ sem_records)"

definition pwd_h :: "dir list" where
  "pwd_h = once_only ''_WASIX_PWD_H'' pwd_body"

definition dlfcn_h :: "dir list" where
  "dlfcn_h = once_only ''_DLFCN_H'' (dlfcn_constants @ dlfcn_calls)"

definition setjmp_h :: "dir list" where
  "setjmp_h = once_only ''_SETJMP_H'' (setjmp_types @ setjmp_calls)"

definition header_sys_resource_h :: "dir list" where
  "header_sys_resource_h = once_only ''__wasilibc___header_sys_resource_h'' resource_body"

definition struct_sockaddr_un_h :: "dir list" where
  "struct_sockaddr_un_h = once_only ''__wasilibc___struct_sockaddr_un_h'' sockaddr_un_body"

end
