(* ===== verification/Includes.thy ===== *)
theory Includes
  imports Headers
begin

text \<open>
  Translation units that include the headers of the port, in any order and any number of times.
\<close>

section \<open>The include path\<close>




section \<open>The checker on headers that include others\<close>









lemma chk_code [code]:
  "chk sp tg inc [] A = Some A"
  "chk sp tg inc (d # ds) A = Option.bind (chk1 sp tg inc d A) (chk sp tg inc ds)"
  by (simp_all split: option.splits)

section \<open>The headers below\<close>



















section \<open>Translation units\<close>

text \<open>
  The headers a client may include, with the guard, the names that must be free before the header is read, and
  types that it declares in every configuration.
\<close>

definition port_headers :: "(string \<times> string \<times> string list \<times> tenv) list" where
  "port_headers =
     [(''stdio.h'', ''_STDIO_H'', [''fpos_t'', ''union _G_fpos64_t'', ''cookie_read_function_t'', ''cookie_write_function_t'',
         ''cookie_seek_function_t'', ''cookie_close_function_t'', ''cookie_io_functions_t'',
         ''struct _IO_cookie_io_functions_t''], [(''fpos_t'', Some (16, 8))]),
      (''sys/mman.h'', ''_SYS_MMAN_H'', [], []),
      (''netdb.h'', ''_NETDB_H'', [''struct addrinfo'', ''struct netent'', ''struct hostent'', ''struct servent'', ''struct protoent''],
         [(''struct addrinfo'', Some (32, 4)), (''struct netent'', Some (16, 4)), (''struct hostent'', Some (20, 4)),
          (''struct servent'', Some (16, 4)), (''struct protoent'', Some (12, 4))]),
      (''sys/ipc.h'', ''_SYS_IPC_H'', [''struct ipc_perm''], [(''struct ipc_perm'', Some (36, 4)), (''key_t'', Some (4, 4))]),
      (''sys/shm.h'', ''_SYS_SHM_H'', [''struct shmid_ds'', ''struct shminfo'', ''struct shm_info'', ''shmatt_t''],
         [(''struct shmid_ds'', Some (88, 8)), (''struct shminfo'', Some (36, 4)), (''struct shm_info'', Some (24, 4)),
          (''shmatt_t'', Some (4, 4))]),
      (''sys/sem.h'', ''_SYS_SEM_H'', [''struct semid_ds'', ''struct seminfo'', ''struct sembuf''],
         [(''struct semid_ds'', Some (72, 8)), (''struct seminfo'', Some (40, 4)), (''struct sembuf'', Some (6, 2))]),
      (''pwd.h'', ''_WASIX_PWD_H'', [''struct passwd''], [(''struct passwd'', Some (28, 4))]),
      (''dlfcn.h'', ''_DLFCN_H'', [''Dl_info''], [])]"










section \<open>One header\<close>










text \<open>From one header to the next, guards stay defined and types declared.\<close>

definition later :: "cstate \<Rightarrow> cstate \<Rightarrow> bool" where
  "later s s' \<longleftrightarrow> is_def s' ''_WASI_EMULATED_MMAN'' = is_def s ''_WASI_EMULATED_MMAN'' \<and>
     (\<forall>(h, g, ns, te) \<in> set port_headers. is_def s g \<longrightarrow> is_def s' g) \<and>
     (\<forall>k v. map_of (types s) k = Some v \<longrightarrow> map_of (types s') k = Some v)"

lemma later_refl [simp]: "later s s"
  by (auto simp: later_def)



section \<open>The checks\<close>
























section \<open>Any header\<close>















lemma nil_le [simp]: "tenv_le [] te"
  by (simp add: tenv_le_def)



section \<open>Any sequence of headers\<close>






section \<open>Properties\<close>



end
