(* ===== verification/Small_Headers.thy ===== *)
theory Small_Headers
  imports Headers
begin

text \<open>
  \<open>setjmp.h\<close>, \<open>__header_sys_resource.h\<close> and \<open>__struct_sockaddr_un.h\<close> of \<open>sdk/sysfix\<close>. They do not use
  \<open>bits/alltypes.h\<close>; each rests on one header of wasi-libc. The layout of \<open>__jmp_buf\<close> is a parameter.
\<close>

section \<open>What the headers rest on\<close>

text \<open>The tokens of their types, of which only \<open>__BIGGEST_ALIGNMENT__\<close> is a macro, with clang's value for WebAssembly.\<close>

definition small_tokens :: "string list" where
  "small_tokens = [''unsigned'', ''long'', ''int'', ''char'', ''void'', ''__jmp_buf'', ''jmp_buf'', ''sa_family_t'',
     ''__BIGGEST_ALIGNMENT__'']"

definition small_guards :: "string list" where
  "small_guards = [''_SETJMP_H'', ''__wasilibc___header_sys_resource_h'', ''__wasilibc___struct_sockaddr_un_h'']"

definition small_macros :: macros where
  "small_macros = [(''__BIGGEST_ALIGNMENT__'', Val (Lit 16))]"

definition small_names :: "string list" where
  "small_names = [''struct __jmp_buf_tag'', ''jmp_buf'', ''sigjmp_buf'', ''struct sockaddr_un'']"

text \<open>The headers below, as in theory \<open>All_Types\<close>: what each declares.\<close>

definition small_system :: "layout \<Rightarrow> (string \<times> prov) list" where
  "small_system l = [(''features.h'', \<lparr>gives = [], settles = [], client = False\<rparr>),
     (''bits/setjmp.h'', \<lparr>gives = [(''__jmp_buf'', Some l)], settles = [], client = False\<rparr>),
     (''__struct_rusage.h'', \<lparr>gives = [], settles = [], client = False\<rparr>),
     (''__typedef_sa_family_t.h'', \<lparr>gives = [(''sa_family_t'', Some (2, 2))], settles = [], client = False\<rparr>)]"

definition small_spec :: "layout \<Rightarrow> hspec" where
  "small_spec l = \<lparr>reserved = List.member small_tokens, own = \<lambda>n. None, owner = \<lambda>k. None, quiet = \<lambda>h. False,
     repeated = \<lambda>n. False, given = \<lambda>k. if k = ''__jmp_buf'' then Some l else if k = ''sa_family_t'' then Some (2, 2) else None\<rparr>"

definition small_ok :: "layout \<Rightarrow> (string \<Rightarrow> cstate \<Rightarrow> cerror + cstate) \<Rightarrow> bool" where
  "small_ok l = lib_ok (small_spec l) (small_tokens @ small_guards) (map (\<lambda>k. (k, None)) small_names) (small_system l)"

definition small_inc :: "layout \<Rightarrow> string \<Rightarrow> abs \<Rightarrow> abs option" where
  "small_inc l = alib (small_spec l) (small_tokens @ small_guards) (map (\<lambda>k. (k, None)) small_names) (small_system l)"

section \<open>The checker accepts them\<close>

definition small_start :: abs where
  "small_start = \<lparr>am = small_macros, amd = map (\<lambda>g. (g, False)) small_guards, have_t = [],
     absent = map (\<lambda>k. (k, None)) small_names, done_n = [], cur = None\<rparr>"

definition small_unit :: "dir list" where
  "small_unit = setjmp_h @ header_sys_resource_h @ struct_sockaddr_un_h"

lemma wf_small: "wf_hspec (small_spec l)"
  by (auto simp: wf_hspec_def small_spec_def small_tokens_def is_NEED_def is_DEFINED_def)

lemma small_inc_sound:
  assumes "small_ok l lib"
  shows "inc_sound (small_spec l) lib (small_inc l)"
  unfolding small_inc_def
proof (rule alib_sound)
  show "lib_ok (small_spec l) (small_tokens @ small_guards) (map (\<lambda>k. (k, None)) small_names) (small_system l) lib"
    using assms by (simp add: small_ok_def)
qed (auto simp: small_spec_def small_system_def)


lemma jmp_buf_size:
  "align_up (align_up (align_up (align_up 0 a + n) 4 + 4) 4 + 128) b = align_up (align_up n 4 + 132) b"
proof -
  have "align_up 0 a = 0" by (cases "a = 0") (simp_all add: align_up_def)
  moreover have "align_up (align_up n 4 + 4) 4 = align_up n 4 + 4" by (simp add: align_up_def)
  ultimately show ?thesis by (simp add: add.commute)
qed

lemma small_chk:
  "\<exists>B. chk (small_spec (n, a)) wasm32 (small_inc (n, a)) small_unit small_start = Some B \<and>
     list_all (\<lambda>g. map_of (amd B) g = Some True) small_guards \<and>
     map_of (have_t B) ''jmp_buf'' = Some (Some (align_up (align_up n 4 + 132) (max a 4), max a 4)) \<and>
     map_of (have_t B) ''struct sockaddr_un'' = Some (Some (112, 16))"
proof -
  have pow: "is_pow2 16" by code_simp
  have un: "align_up (align_up (Suc (Suc (align_up 0 16))) (Suc 0) + 108) 16 = 112" by code_simp
  have al: "max_align [(''__jb'', n, a), (''__fl'', 4, 4), (''__ss'', 128, 4)] = max a 4"
    "max_align [(''sun_family'', 2, 16), (''sun_path'', 108, Suc 0)] = 16"
    by (auto simp: max_align_def max_def)
  show ?thesis
    by (simp add: small_unit_def setjmp_h_def setjmp_types_def setjmp_calls_def header_sys_resource_h_def resource_body_def
      struct_sockaddr_un_h_def sockaddr_un_body_def once_only_def small_start_def small_guards_def small_names_def
      small_macros_def small_spec_def small_inc_def alib_def small_system_def small_tokens_def lib_keeps_def
      is_NEED_def is_DEFINED_def undefine_def meet_def typedef_entries_def spec_toks_def qualifiers_def base_layout_def
      spec_layout_def spec_known_def wasm32_def cval_def add_entries_def is_tag_def check_type_def
      pow un al jmp_buf_size cong: if_cong)
qed

text \<open>A translation unit in which none of the three has been included.\<close>

definition small_ready :: "layout \<Rightarrow> cstate \<Rightarrow> bool" where
  "small_ready l s \<longleftrightarrow> agree (Collect (List.member small_tokens)) small_macros (macros s) \<and>
     (\<forall>g \<in> set small_guards. \<not> is_def s g) \<and> (\<forall>k \<in> set small_names. map_of (types s) k = None) \<and>
     givens_ok (small_spec l) s"

lemma small_ready_knows: "small_ready l s \<Longrightarrow> knows (small_spec l) small_start s"
  by (auto simp: small_ready_def knows_def small_start_def small_spec_def small_macros_def small_guards_def
      small_tokens_def closed_def inv_for_def free_for_def tenv_le_def split: if_splits)

lemma small_again:
  assumes "\<forall>g \<in> set small_guards. is_def s g"
  shows "run wasm32 inc small_unit s = Inr s"
proof -
  have "is_def s ''_SETJMP_H''" "is_def s ''__wasilibc___header_sys_resource_h''" "is_def s ''__wasilibc___struct_sockaddr_un_h''"
    using assms by (simp_all add: small_guards_def)
  then show ?thesis
    by (simp add: small_unit_def setjmp_h_def header_sys_resource_h_def struct_sockaddr_un_h_def once_only_def is_def_def)
qed

section \<open>Properties\<close>

text \<open>
  C35. Whatever the feature test macros, \<open>setjmp.h\<close>, \<open>__header_sys_resource.h\<close> and \<open>__struct_sockaddr_un.h\<close> are
  read without error. For a \<open>__jmp_buf\<close> of \<open>n\<close> bytes aligned to \<open>a\<close>, a \<open>jmp_buf\<close> has 132 bytes more (one flag
  word and 128 bytes for a signal set) than \<open>n\<close> rounded up to a word, rounded up to its alignment; \<open>struct sockaddr_un\<close>
  has 112 bytes, aligned to 16. Including them again changes nothing.
\<close>

theorem small_headers:
  assumes "small_ok (n, a) lib" "small_ready (n, a) s"
  shows "\<exists>s'. run wasm32 lib (setjmp_h @ header_sys_resource_h @ struct_sockaddr_un_h) s = Inr s' \<and>
    map_of (types s') ''jmp_buf'' = Some (Some (align_up (align_up n 4 + 132) (max a 4), max a 4)) \<and>
    map_of (types s') ''struct sockaddr_un'' = Some (Some (112, 16)) \<and>
    run wasm32 lib (setjmp_h @ header_sys_resource_h @ struct_sockaddr_un_h) s' = Inr s'"
proof -
  obtain B where B: "chk (small_spec (n, a)) wasm32 (small_inc (n, a)) small_unit small_start = Some B"
    "list_all (\<lambda>g. map_of (amd B) g = Some True) small_guards"
    "map_of (have_t B) ''jmp_buf'' = Some (Some (align_up (align_up n 4 + 132) (max a 4), max a 4))"
    "map_of (have_t B) ''struct sockaddr_un'' = Some (Some (112, 16))" using small_chk by blast
  obtain s' where s': "run wasm32 lib small_unit s = Inr s'" "knows (small_spec (n, a)) B s'"
    using chk_sound(1) [OF small_inc_sound [OF assms(1)] wf_small B(1) small_ready_knows [OF assms(2)]] by blast
  have "tenv_le (have_t B) (types s')" "\<forall>g \<in> set small_guards. is_def s' g"
    using s'(2) B(2) by (auto simp: knows_def list_all_iff)
  then show ?thesis using s'(1) tenv_leD B(3,4) small_again unfolding small_unit_def by blast
qed

theorem small_headers_witness:
  "\<exists>s'. run wasm32 (table_lib (small_spec (64, 8)) (small_system (64, 8)))
       (setjmp_h @ header_sys_resource_h @ struct_sockaddr_un_h) \<lparr>macros = small_macros, types = [], decls = []\<rparr> = Inr s' \<and>
     map_of (types s') ''jmp_buf'' = Some (Some (200, 8))"
proof -
  have "small_ok (64, 8) (table_lib (small_spec (64, 8)) (small_system (64, 8)))"
    unfolding small_ok_def
    by (rule table_lib_ok) (auto simp: small_system_def small_spec_def small_names_def split: if_splits)
  moreover have "small_ready (64, 8) \<lparr>macros = small_macros, types = [], decls = []\<rparr>"
    by (simp add: small_ready_def agree_def small_guards_def small_macros_def is_def_def givens_ok_def)
  moreover have "align_up (align_up 64 4 + 132) (max 8 4) = 200" "max 8 (4 :: nat) = 8" by code_simp+
  ultimately show ?thesis using small_headers [of 64 8] by metis
qed

end
