(* ===== verification/Spec2Isabelle.thy ===== *)
theory Spec2Isabelle
  imports Socket Signals Shared_Memory Temp_Names Dlfcn Addr_Info Process Includes Small_Headers
begin

text \<open>
  Verification of the C side of pglite4j.

  The program. pglite4j runs PostgreSQL as a WebAssembly module inside a JVM. PostgreSQL is compiled
  for WASI, which has no sockets, signals, shared memory, processes or dynamic loading; the
  repository supplies them. \<open>sdk/hotfix/sdk_socket.c\<close> emulates a client's socket by files that are handed
  over with \<open>rename\<close>; \<open>sdk_port-wasi/sdk_port-wasi.c\<close> emulates signal masks and POSIX shared memory;
  \<open>sdk_port-wasi/sdk_port-wasi-dlfcn.c\<close> emulates \<open>dlopen\<close> for the modules that are linked in;
  \<open>sdk/hotfix/patch.h\<close> and \<open>wasm-build/sdk_port.h\<close> are included into every C file and replace single
  functions of the C library. All paths are relative to \<open>src/wasm-build\<close>.

  The parts and how they interact. The socket calls the file operations and \<open>ftell\<close>, which \<open>patch.h\<close>
  redirects to \<open>sdk_fdtell\<close>, and gives up through \<open>exit\<close>, which \<open>patch.h\<close> redirects to \<open>sdk_exit\<close>, a
  store to address 0 followed by \<open>abort\<close>. The headers under \<open>sdk/sysfix\<close> and \<open>sdk/hotfix\<close> stand in front of those
  of wasi-libc and give all of this its types. Shared memory and temporary names live in the same file
  system. Dynamic loading keeps its table in the dictionary. The remaining parts are independent of
  each other and are called by PostgreSQL.

  The theories.

  \<^item> \<open>C_Prelude\<close>: outcomes of C calls (\<open>Return\<close>, \<open>Aborted\<close>, \<open>Undefined\<close>), 32-bit \<open>int\<close>, C strings,
    \<open>%d\<close>, \<open>strtol\<close>, \<open>snprintf\<close>; that printing and reading an \<open>int\<close> are inverse.
  \<^item> \<open>File_System\<close>: the file calls of the C library over inodes and descriptors, and \<open>sdk_fdtell\<close>,
    \<open>sdk_ftell\<close> (\<open>patch.h\<close>); a well-formedness invariant that every call keeps, what each name contains
    after each call, and the interface \<open>file_store\<close>.
  \<^item> \<open>Socket\<close> (\<open>sdk_socket.c\<close>, \<open>sdk_exit\<close>): record \<open>sock\<close> is the set of static variables; one definition
    per function, with the body of \<open>sdk_recvfrom\<close> split at the point where the answer's file is open
    (\<open>recv_file\<close>). The server that runs during \<open>sched_yield\<close> is the parameter \<open>peer\<close>, constrained only by
    \<open>peer_ok\<close> and \<open>answers\<close>. Shown: a whole request and answer, cut in any way into sends and receives;
    safety of every client from the connection on, with flushes at any point (rule induction over
    \<open>client_step\<close>) and with flushes between answers only (\<open>orderly_step\<close>); the branches of
    connecting, flushing and giving up; and the behaviours listed below as defects. The receiving side is
    the interface \<open>byte_source\<close>.
  \<^item> \<open>Signals\<close> (\<open>sdk_port-wasi.c\<close>): \<open>sigset_t\<close> as 8-bit word, shifts in 32 bits. Shown: \<open>sigprocmask\<close>
    refines a specification of masks, handlers and pending signals (\<open>signal_view\<close>), and the interface
    \<open>deferred_signals\<close> gives exactly-once delivery over a critical section.
  \<^item> \<open>Shared_Memory\<close> (\<open>sdk_port-wasi.c\<close>, \<open>sdk_port.h\<close>): both implementations of \<open>shm_open\<close> and
    \<open>shm_unlink\<close>, each an instance of the interface \<open>named_segments\<close>, and their equivalence.
  \<^item> \<open>Temp_Names\<close> (\<open>patch.h\<close>): \<open>__randname\<close> (as \<open>randname\<close>), \<open>mktemp\<close>, \<open>mkstemp\<close>, \<open>sdk_tmpfile\<close>, \<open>tempnam\<close>
    on \<open>char\<close> objects of known length.
  \<^item> \<open>Dict\<close> and \<open>Dlfcn\<close> (\<open>sdk_port-wasi-dlfcn.c\<close>, \<open>dlfcn.h\<close>): the growable dictionary refines finite
    maps (interface \<open>dictionary\<close>); \<open>dlopen\<close>, \<open>dlsym\<close> and the stubs.
  \<^item> \<open>Addr_Info\<close> (\<open>sdk_socket.c\<close>, \<open>netdb.h\<close>): \<open>sdk_getaddrinfo\<close> and \<open>sdk_freeaddrinfo\<close> over an explicit
    heap (interface \<open>allocator\<close>); every branch, no leak, no double release, termination.
  \<^item> \<open>Process\<close> (\<open>patch.h\<close>, \<open>sdk_port.h\<close>, \<open>sys/wait.h\<close>, \<open>pwd.h\<close>, \<open>wasi-setjmp.h\<close>, \<open>cxa.c\<close>): process ids, wait
    status, and the calls with a fixed answer.

  \<^item> \<open>C_Types\<close> and \<open>Cpp\<close>: what the headers use of C: macro expansion and integer expressions, the layout of
    types, and the execution of directives and declarations (\<open>run\<close>, \<open>include_src\<close>); a checker \<open>chk\<close> that follows
    a header without knowing the whole state, and its soundness (\<open>chk_sound\<close>).
  \<^item> \<open>All_Types\<close> (\<open>sysfix/bits/alltypes.h\<close>): the header in its own order, one definition per group, and the table of
    the layouts it promises. Shown: every sequence of requests is answered, each type with its layout.
  \<^item> \<open>Headers\<close>, \<open>Includes\<close> and \<open>Small_Headers\<close> (the other headers of \<open>sdk/\<close>): their text, one definition per
    stretch of a file; that any sequence of inclusions is accepted, and the sizes of the structures. \<open>unit_ok\<close> is
    the invariant of a translation unit: a header's guard is defined exactly when its types are declared.

  This theory adds what holds across components that share the file system: temporary files and
  shared memory segments against a connected socket.

  Undefined behaviour. Where the C standard gives a call no meaning (null or dangling pointers, access
  outside of an object, \<open>fileno (NULL)\<close>, shifts by the width or more, signed overflow of a constant
  expression, a store into a string literal), the model's value is \<open>Undefined\<close> (or \<open>None\<close> for the pure parts), and theorems that a call is
  defined are proved as such. The one exception is the store of \<open>sdk_exit\<close> to address 0, after which the
  instance is gone in any case (\<open>Aborted\<close>). The additions to \<open>fd_queue\<close> and the product in \<open>__randname\<close> are modelled by the
  wrap-around of the compiled code.

  Parameters. The server's behaviour, the clock, stack and template addresses, the environment, \<open>NSIG\<close> and
  the signals that \<open>signal\<close> accepts, the success of allocations, the host's file quota, which paths can
  be resolved, and the headers of wasi-libc and of the compiler, of which \<open>lib_ok\<close> states what they declare and
  which macros they keep. The nesting of \<open>#include\<close> is bounded by 200, clang's limit; the port needs 3. No other fuel
  is used: all loops are structural recursions (the hundred attempts of \<open>mktemp\<close>, the
  signals below \<open>NSIG\<close>, the entries of a table) except the list walk of \<open>sdk_freeaddrinfo\<close>, which terminates
  because every round releases a block, and macro expansion, where a macro is not expanded inside itself.

  Defects that the theorems state: the domain test of \<open>sdk_socket\<close>, the lost request, the corrupted
  queue counter and the answer misread after a flush in its middle, the eight-signal sets and the wide shifts of \<open>sigprocmask\<close>, the erasing
  \<open>shm_open\<close> and the ignored segment names, the unusable \<open>sdk_tmpfile\<close> and \<open>tempnam\<close>, the table of \<open>dlopen\<close>,
  the missing \<open>dsnowball_lexize\<close>, the late null tests of the process ids, the overflow of \<open>WIFSTOPPED\<close>, and a
  barrier type that needs a mutex type it does not request.

  Not modelled. Trace output; the code under \<open>#if 0\<close>; the effect of signal handlers and default actions; failures of
  \<open>fopen\<close> for want of descriptors or space; headers that only include another one; the patches to PostgreSQL, whose base is not in the repository; the Java embedding
  (\<open>core/\<close>), the JDBC driver (\<open>jdbc/\<close>), samples and build scripts.

  Plan. Next are the parts of the Java side with logic of their own: the framing of protocol messages
  and the handshake of the embedding, then the relay of the driver; on the C side the agreement of the constants in
  the headers with those of the compiled module, which is not in the repository.
\<close>

section \<open>Components that share the file system\<close>

text \<open>
  Creating a file under any name but the two the socket keeps open or reads from leaves a connected
  socket as it is.
\<close>

lemma fopen_entries:
  "fopen p m l = (Some fd, l') \<Longrightarrow> q \<noteq> p \<Longrightarrow> entries l' q = entries l q"
  by (auto simp: fopen_def open_ino_def Let_def split: option.splits if_splits)

lemma sock_inv_new_file:
  assumes "sock_inv s" "path_err (os s) p = None" "m \<noteq> ReadMode" "p \<noteq> PGS_ILOCK" "p \<noteq> PGS_OUT"
    and "fopen p m ((os s)\<lparr>errno := e\<rparr>) = (Some fd, l)"
  shows "sock_inv (s\<lparr>os := l\<rparr>) \<and> outbox (s\<lparr>os := l\<rparr>) = outbox s \<and> unread (s\<lparr>os := l\<rparr>) = unread s"
proof -
  have wf: "wf_libc ((os s)\<lparr>errno := e\<rparr>)" "path_err ((os s)\<lparr>errno := e\<rparr>) p = None"
    using assms(1,2) by (simp_all add: sock_inv_def sock_paths_def)
  from fopen_write [OF wf assms(3)] obtain i l' where
    l': "fopen p m ((os s)\<lparr>errno := e\<rparr>) = (Some (alloc_fd (opened ((os s)\<lparr>errno := e\<rparr>))), l')"
    "opened l' = (alloc_fd (opened ((os s)\<lparr>errno := e\<rparr>)),
       \<lparr>of_ino = i, of_pos = 0, of_rd = (m \<noteq> WriteMode), of_wr = True\<rparr>) # opened ((os s)\<lparr>errno := e\<rparr>)"
    "contents l' = (contents ((os s)\<lparr>errno := e\<rparr>))(p \<mapsto> [])" "path_err l' = path_err ((os s)\<lparr>errno := e\<rparr>)"
    "wf_libc l'" .
  then have l: "opened l = (alloc_fd (opened (os s)), \<lparr>of_ino = i, of_pos = 0, of_rd = (m \<noteq> WriteMode), of_wr = True\<rparr>) # opened (os s)"
    "contents l = (contents (os s))(p \<mapsto> [])" "path_err l = path_err (os s)" "wf_libc l"
    using assms(6) by simp_all
  have ent: "entries l PGS_ILOCK = entries (os s) PGS_ILOCK"
    using fopen_entries [OF assms(6)] assms(4) by simp
  have box: "outbox (s\<lparr>os := l\<rparr>) = outbox s" "unread (s\<lparr>os := l\<rparr>) = unread s"
    using assms(4,5) by (simp_all add: outbox_def unread_def l(2) cong: option.case_cong)
  have "map_of (opened l) f = map_of (opened (os s)) f" if "map_of (opened (os s)) f \<noteq> None" for f
    using that by (auto simp: l(1))
  then have "out_stream (s\<lparr>os := l\<rparr>)"
    using assms(1) ent box(1) unfolding sock_inv_def out_stream_def by fastforce
  moreover have "reading_ok (s\<lparr>os := l\<rparr>)"
    using assms(1,5) by (simp add: sock_inv_def reading_ok_def l(2))
  ultimately show ?thesis
    using assms(1) box l(3,4) by (simp add: sock_inv_def sock_paths_def)
qed

text \<open>The names of the socket end in characters that no random suffix has.\<close>

lemma candidate_not_socket:
  "candidate tmpl pre t k \<noteq> PGS_ILOCK" "candidate tmpl pre t k \<noteq> PGS_OUT"
proof -
  let ?x = "rand_chars 6 (rand_seed (t_clock t (t_tick t + k)) (t_sp t) (tmpl + of_nat (length pre)))"
  have six: "drop (length (candidate tmpl pre t k) - 6) (candidate tmpl pre t k) = ?x"
    by (simp add: candidate_def)
  have "CHR ''.'' \<notin> set ?x" using rand_chars_alphabet by (auto simp: rand_alphabet_def)
  moreover have "CHR ''.'' \<in> set (drop (length PGS_ILOCK - 6) PGS_ILOCK)"
    "CHR ''.'' \<in> set (drop (length PGS_OUT - 6) PGS_OUT)" by (simp_all add: pgs_defs)
  ultimately show "candidate tmpl pre t k \<noteq> PGS_ILOCK" "candidate tmpl pre t k \<noteq> PGS_OUT"
    using six by metis+
qed

text \<open>A socket connected in an otherwise empty file system.\<close>

lemma connected_example:
  obtains s where "sock_inv s" and "outbox s = Some []" and "contents (os s) = [PGS_ILOCK \<mapsto> []]"
    and "path_err (os s) = path_err init_libc"
proof -
  obtain s where s: "sdk_connect 3 (init_sock init_libc) = Return 0 s" "sock_inv s" "outbox s = Some []"
    by (rule init_connected)
  have "PGS_ILOCK \<noteq> []" by (simp add: pgs_defs)
  then have "\<exists>f l. fopen PGS_ILOCK WriteMode init_libc = (Some f, l) \<and> contents l = (contents init_libc)(PGS_ILOCK \<mapsto> []) \<and>
      path_err l = path_err init_libc"
    using fopen_writes [of init_libc PGS_ILOCK WriteMode] by auto
  moreover have "contents init_libc = Map.empty" by (simp add: fun_eq_iff)
  ultimately have "contents (os s) = [PGS_ILOCK \<mapsto> []]" "path_err (os s) = path_err init_libc"
    using s(1) by (auto simp: sdk_connect_def init_sock_def)
  with s show ?thesis using that by blast
qed

section \<open>Properties across components\<close>

text \<open>
  C38. Temporary files do not disturb the socket: while a socket is connected, \<open>mkstemp\<close> with any valid
  template, whatever the clock and the addresses, succeeds when a candidate is free and leaves the
  socket's invariant, what it has queued and what it can still read as they were.
\<close>

theorem temp_files_keep_socket:
  assumes "sock_inv s" "t_fs t = os s" "NUL \<notin> set pre" "\<forall>k. path_err (os s) (candidate tmpl pre t k) = None"
    and "k < 100" "contents (os s) (candidate tmpl pre t k) = None"
  shows "\<exists>fd name t'. mkstemp tmpl (pre @ ''XXXXXX'' @ NUL # rest) t = Return (int fd, name @ NUL # rest) t' \<and>
    sock_inv (s\<lparr>os := t_fs t'\<rparr>) \<and> outbox (s\<lparr>os := t_fs t'\<rparr>) = outbox s \<and> unread (s\<lparr>os := t_fs t'\<rparr>) = unread s"
proof -
  have wf: "wf_libc (t_fs t)" using assms(1,2) by (simp add: sock_inv_def sock_paths_def)
  from mkstemp_run [OF assms(3) _ wf assms(5), of tmpl rest] assms(2,4,6) obtain n fd t' where
    t': "mkstemp tmpl (pre @ ''XXXXXX'' @ NUL # rest) t = Return (int fd, candidate tmpl pre t n @ NUL # rest) t'"
    "fopen (candidate tmpl pre t n) WriteMode ((os s)\<lparr>errno := ENOENT\<rparr>) = (Some fd, t_fs t')"
    by metis
  show ?thesis
    using sock_inv_new_file [OF assms(1) _ _ candidate_not_socket t'(2)] t'(1) assms(4) by auto
qed

theorem temp_files_keep_socket_witness:
  "\<exists>s t fd name t'. sock_inv s \<and> outbox s = Some [] \<and> t_fs t = os s \<and>
     mkstemp 0x2000 (''/tmp/t'' @ ''XXXXXX'' @ [NUL]) t = Return (int fd, name @ [NUL]) t' \<and>
     sock_inv (s\<lparr>os := t_fs t'\<rparr>) \<and> outbox (s\<lparr>os := t_fs t'\<rparr>) = Some []"
proof -
  obtain s where s: "sock_inv s" "outbox s = Some []" "contents (os s) = [PGS_ILOCK \<mapsto> []]"
    "path_err (os s) = path_err init_libc" by (rule connected_example)
  define t where "t = demo_tmp\<lparr>t_fs := os s\<rparr>"
  have h: "t_fs t = os s" "NUL \<notin> set ''/tmp/t''" by (simp_all add: t_def NUL_def)
  have "\<forall>k. path_err (os s) (candidate 0x2000 ''/tmp/t'' t k) = None"
    by (simp add: s(4) candidate_def)
  moreover have "contents (os s) (candidate 0x2000 ''/tmp/t'' t 0) = None"
    using candidate_not_socket(1) by (simp add: s(3))
  ultimately have "\<exists>fd name t'. mkstemp 0x2000 (''/tmp/t'' @ ''XXXXXX'' @ [NUL]) t = Return (int fd, name @ [NUL]) t' \<and>
      sock_inv (s\<lparr>os := t_fs t'\<rparr>) \<and> outbox (s\<lparr>os := t_fs t'\<rparr>) = outbox s \<and> unread (s\<lparr>os := t_fs t'\<rparr>) = unread s"
    by (rule temp_files_keep_socket [OF s(1) h _ zero_less_numeral])
  then obtain fd name t' where
    "mkstemp 0x2000 (''/tmp/t'' @ ''XXXXXX'' @ [NUL]) t = Return (int fd, name @ [NUL]) t'"
    "sock_inv (s\<lparr>os := t_fs t'\<rparr>)" "outbox (s\<lparr>os := t_fs t'\<rparr>) = Some []" using s(2) by metis
  with s(1,2) h(1) show ?thesis by blast
qed

text \<open>
  C39. Shared memory and the socket: without \<open>SHM\<close>, opening a segment leaves a connected socket as it was,
  unless the segment's path is one of the two files the socket uses; the segment named
  \<open>/pglite/base/.s.PGSQL.5432.lock.in\<close> has that path, and opening it erases the queued request.
\<close>

theorem segments_and_socket:
  assumes "sock_inv s" "shm_fs t = os s" "env_SHM t = None" "path_err (os s) (shm_path name) = None"
  shows "\<exists>fd t'. shm_open name t = Return (int fd) t' \<and>
    (shm_path name \<noteq> PGS_ILOCK \<and> shm_path name \<noteq> PGS_OUT \<longrightarrow>
       sock_inv (s\<lparr>os := shm_fs t'\<rparr>) \<and> outbox (s\<lparr>os := shm_fs t'\<rparr>) = outbox s \<and>
       unread (s\<lparr>os := shm_fs t'\<rparr>) = unread s) \<and>
    (name = ''/pglite/base/.s.PGSQL.5432.lock.in'' \<longrightarrow> outbox (s\<lparr>os := shm_fs t'\<rparr>) = Some [])"
proof -
  have wf: "wf_libc (os s)" using assms(1) by (simp add: sock_inv_def sock_paths_def)
  from fopen_writes [OF wf assms(4) fmode.distinct(4)] obtain fd l where
    l: "fopen (shm_path name) WritePlusMode (os s) = (Some fd, l)" "contents l = (contents (os s))(shm_path name \<mapsto> [])"
    by blast
  have run: "shm_open name t = Return (int fd) (t\<lparr>shm_fs := l\<rparr>)"
    using l(1) assms(2,3) by (simp add: shm_open_def get_shm_path_def shm_path_def)
  have "shm_path ''/pglite/base/.s.PGSQL.5432.lock.in'' = PGS_ILOCK"
    by (simp add: shm_path_def snprintf_def pgs_defs)
  then have "name = ''/pglite/base/.s.PGSQL.5432.lock.in'' \<longrightarrow> outbox (s\<lparr>os := l\<rparr>) = Some []"
    using l(2) by (auto simp: outbox_def)
  moreover have "shm_path name \<noteq> PGS_ILOCK \<and> shm_path name \<noteq> PGS_OUT \<longrightarrow>
      sock_inv (s\<lparr>os := l\<rparr>) \<and> outbox (s\<lparr>os := l\<rparr>) = outbox s \<and> unread (s\<lparr>os := l\<rparr>) = unread s"
    using sock_inv_new_file [OF assms(1,4) fmode.distinct(4), of "errno (os s)" fd l] l(1) by auto
  ultimately show ?thesis using run by auto
qed

theorem segments_and_socket_witness:
  "\<exists>s t fd t'. sock_inv s \<and> shm_fs t = os s \<and> shm_open ''/PostgreSQL.7'' t = Return (int fd) t' \<and>
     sock_inv (s\<lparr>os := shm_fs t'\<rparr>) \<and> outbox (s\<lparr>os := shm_fs t'\<rparr>) = outbox s"
proof -
  obtain s where s: "sock_inv s" "path_err (os s) = path_err init_libc" by (rule connected_example)
  define t where "t = demo_shm\<lparr>shm_fs := os s\<rparr>"
  have p: "shm_path ''/PostgreSQL.7'' = ''/tmp/PostgreSQL.7''" by (simp add: shm_path_def snprintf_def)
  have "shm_fs t = os s" "env_SHM t = None" "path_err (os s) (shm_path ''/PostgreSQL.7'') = None"
    by (simp_all add: t_def demo_shm_def s(2) p)
  from segments_and_socket [OF s(1) this] show ?thesis
    using s(1) \<open>shm_fs t = os s\<close> by (auto simp: p pgs_defs)
qed

end
